theory Spec2Isabelle
  imports Main "HOL-Library.Word"
begin

section \<open>The platform: COM/WMI calls as events answered by a parameter\<close>

text \<open>
  The wrapper of \<^verbatim>\<open>nv2_wmi.h\<close> is a sequence of calls into COM, OLE Automation and
  WMI. None of that code belongs to the repository, so the platform is a parameter: a
  function that, given the calls made so far and the next call, says what the call leaves
  in its HRESULT and in its out parameters. The wrapper's functions are translated
  statement by statement on top of it.
\<close>

type_synonym hresult = "32 word"
type_synonym dword = "32 word"
type_synonym wstring = string
type_synonym vartype = "16 word"

definition S_OK :: hresult where "S_OK = 0"
definition E_POINTER :: hresult where "E_POINTER = 0x80004003"
definition E_INVALIDARG :: hresult where "E_INVALIDARG = 0x80070057"
definition E_FAIL :: hresult where "E_FAIL = 0x80004005"

text \<open>The macros \<^verbatim>\<open>SUCCEEDED\<close> and \<^verbatim>\<open>FAILED\<close> test the sign of the HRESULT.\<close>

definition SUCCEEDED :: "hresult \<Rightarrow> bool" where
  "SUCCEEDED h = (0 \<le> sint h)"

definition FAILED :: "hresult \<Rightarrow> bool" where
  "FAILED h = (sint h < 0)"

text \<open>The flags of \<^verbatim>\<open>Wbemidl.h\<close> that the wrapper passes.\<close>

definition WBEM_FLAG_ALWAYS :: "32 word" where "WBEM_FLAG_ALWAYS = 0"
definition WBEM_FLAG_NONSYSTEM_ONLY :: "32 word" where "WBEM_FLAG_NONSYSTEM_ONLY = 0x40"

definition VT_EMPTY :: vartype where "VT_EMPTY = 0"
definition VT_NULL :: vartype where "VT_NULL = 1"
definition VT_BSTR :: vartype where "VT_BSTR = 8"
definition VT_BOOL :: vartype where "VT_BOOL = 11"
definition VT_UNKNOWN :: vartype where "VT_UNKNOWN = 13"
definition VT_INT :: vartype where "VT_INT = 22"
definition VT_LPWSTR :: vartype where "VT_LPWSTR = 31"

text \<open>
  A \<^verbatim>\<open>VARIANT\<close>: the type tag \<open>vt\<close> and the union behind it. \<open>bits\<close> is the union
  read as a scalar (on every Windows target the union is little-endian, so \<^verbatim>\<open>bVal\<close> is
  its low byte, \<^verbatim>\<open>boolVal\<close> its low 16 bits and \<^verbatim>\<open>intVal\<close> its low 32 bits);
  \<open>wstr\<close> is the wide string found when the union is read as \<^verbatim>\<open>bstrVal\<close>, and
  \<open>None\<close> when that pointer is null or addresses no string.
\<close>

record variant =
  vt :: vartype
  bits :: "64 word"
  wstr :: "wstring option"

definition bVal :: "variant \<Rightarrow> 8 word" where
  "bVal v = ucast (bits v)"

definition boolVal :: "variant \<Rightarrow> 16 word" where
  "boolVal v = ucast (bits v)"

definition intVal :: "variant \<Rightarrow> 32 word" where
  "intVal v = ucast (bits v)"

text \<open>A default-constructed \<^verbatim>\<open>CComVariant\<close>.\<close>

definition CComVariant_empty :: variant where
  "CComVariant_empty = \<lparr>vt = VT_EMPTY, bits = 0, wstr = None\<rparr>"

text \<open>
  COM interface pointers, enumerators and SAFEARRAYs are handles (\<open>nat\<close>); a
  \<^verbatim>\<open>CComPtr\<close> or a raw pointer is a \<open>nat option\<close>, \<open>None\<close> being \<^verbatim>\<open>NULL\<close>.
\<close>

datatype event =
    CoInitializeEx
  | CoUninitialize
  | CoInitializeSecurity
  | CoCreateInstance_WbemLocator
  | IWbemLocator_ConnectServer nat wstring
  | CoSetProxyBlanket "nat option"
  | IWbemClassObject_GetNames nat "32 word"
  | SafeArrayGetLBound "nat option"
  | SafeArrayGetUBound "nat option"
  | SafeArrayGetElement "nat option" int
  | SafeArrayDestroy nat
  | IWbemClassObject_Get nat wstring
  | VariantChangeType variant vartype
  | IWbemServices_GetObject nat wstring
  | IWbemClassObject_BeginMethodEnumeration nat
  | IWbemClassObject_NextMethod nat
  | IWbemClassObject_EndMethodEnumeration nat
  | IWbemClassObject_GetMethod nat wstring
  | IWbemClassObject_SpawnInstance nat
  | IWbemClassObject_Put nat wstring variant vartype
  | IWbemServices_ExecMethod nat wstring wstring "32 word" "nat option"
  | IWbemClassObject_BeginEnumeration nat "32 word"
  | IWbemClassObject_Next nat
  | IWbemClassObject_EndEnumeration nat
  | IWbemServices_CreateInstanceEnum nat wstring
  | IEnumWbemClassObject_Next nat
  | IWbemServices_ExecQuery nat wstring wstring

text \<open>
  What a call leaves behind: its HRESULT and the contents of its out parameters, each of
  which the wrapper initialises to null, empty or zero before the call. A call reads
  only the fields that stand for its own out parameters.
\<close>

record resp =
  hr :: hresult
  ptr :: "nat option"
  ptr2 :: "nat option"
  var :: variant
  bstr :: "wstring option"
  lval :: "32 word"
  returned :: nat

text \<open>
  \<open>respond\<close> answers a call from the calls made before it. \<open>Win32FromHResult\<close> is
  \<^verbatim>\<open>uw32::Win32FromHResult\<close> of the header \<^verbatim>\<open>g40/nv2_w32.h\<close>, which is not part of
  the sources: it is taken as given.
\<close>

record platform =
  respond :: "event list \<Rightarrow> event \<Rightarrow> resp"
  Win32FromHResult :: "hresult \<Rightarrow> dword"

section \<open>Outcomes, state and sequencing\<close>

text \<open>
  What \<^verbatim>\<open>nv2::throw_if\<close> throws: the accumulated message
  \<^verbatim>\<open>nv2::acc(LFL) << nv2::s_error(...)\<close> names the translated error code; the one thrown by
  \<^verbatim>\<open>ComInit\<close> carries none.
\<close>

datatype exn = WmiError dword | ComInitError

datatype fault =
    NullDeref string
  | NullString
  | Terminate
  | SignedOverflow

datatype 'a outcome = Return 'a | Throw exn | Fault fault | OutOfFuel

text \<open>
  The state a member function runs on: the object it is called on (\<open>self\<close>) and the
  platform calls made so far.
\<close>

record 's st =
  self :: 's
  calls :: "event list"

type_synonym ('s, 'a) M = "'s st \<Rightarrow> 'a outcome \<times> 's st"

definition ret :: "'a \<Rightarrow> ('s, 'a) M" where
  "ret x s = (Return x, s)"

definition throw :: "exn \<Rightarrow> ('s, 'a) M" where
  "throw x s = (Throw x, s)"

definition fault :: "fault \<Rightarrow> ('s, 'a) M" where
  "fault f s = (Fault f, s)"

definition bnd :: "('s, 'a) M \<Rightarrow> ('a \<Rightarrow> ('s, 'b) M) \<Rightarrow> ('s, 'b) M" where
  "bnd m f s =
     (case m s of
        (Return x, s') \<Rightarrow> f x s'
      | (Throw x, s') \<Rightarrow> (Throw x, s')
      | (Fault x, s') \<Rightarrow> (Fault x, s')
      | (OutOfFuel, s') \<Rightarrow> (OutOfFuel, s'))"

text \<open>A platform call: the answer comes from the calls before it, and the call is logged.\<close>

definition com :: "platform \<Rightarrow> event \<Rightarrow> ('s, resp) M" where
  "com p ev s = (Return (respond p (calls s) ev), s\<lparr>calls := calls s @ [ev]\<rparr>)"

definition out_of_fuel :: "('s, 'a) M" where
  "out_of_fuel s = (OutOfFuel, s)"

text \<open>An assignment to members of the object the function is called on.\<close>

definition modify_self :: "('s \<Rightarrow> 's) \<Rightarrow> ('s, unit) M" where
  "modify_self f s = (Return (), s\<lparr>self := f (self s)\<rparr>)"

definition throw_if :: "bool \<Rightarrow> exn \<Rightarrow> ('s, unit) M" where
  "throw_if c x = (if c then throw x else ret ())"

text \<open>The exception built at almost every call site of \<^verbatim>\<open>throw_if\<close>.\<close>

definition s_error :: "platform \<Rightarrow> hresult \<Rightarrow> exn" where
  "s_error p h = WmiError (Win32FromHResult p h)"

text \<open>
  Dereferencing a \<^verbatim>\<open>CComPtr\<close> or a raw pointer: a null one is a fault, named after the
  variable.
\<close>

definition deref :: "string \<Rightarrow> nat option \<Rightarrow> ('s, nat) M" where
  "deref nm q = (case q of None \<Rightarrow> fault (NullDeref nm) | Some a \<Rightarrow> ret a)"

text \<open>
  Building a \<^verbatim>\<open>std::wstring\<close> from a \<^verbatim>\<open>BSTR\<close> or \<^verbatim>\<open>wchar_t*\<close>: the pointer has to
  address a string.
\<close>

definition wstring_of :: "wstring option \<Rightarrow> ('s, wstring) M" where
  "wstring_of q = (case q of None \<Rightarrow> fault NullString | Some w \<Rightarrow> ret w)"

section \<open>\<^verbatim>\<open>SAHandle\<close> and \<^verbatim>\<open>EnumNames\<close>\<close>

text \<open>
  \<^verbatim>\<open>~SAHandle\<close>: destroys a non-null array; a failure makes the destructor throw, and a
  destructor is \<^verbatim>\<open>noexcept\<close>, so the program terminates.
\<close>

definition SAHandle_dtor :: "platform \<Rightarrow> nat option \<Rightarrow> ('s, unit) M" where
  "SAHandle_dtor p m_psa =
     (case m_psa of
        None \<Rightarrow> ret ()
      | Some a \<Rightarrow>
          bnd (com p (SafeArrayDestroy a)) (\<lambda>r.
            if hr r \<noteq> S_OK then fault Terminate else ret ()))"

text \<open>
  The scope of a local \<^verbatim>\<open>SAHandle sah(psa)\<close>: the destructor runs when the scope is
  left, by a return or by an exception. A fault ends the program before that.
\<close>

definition with_SAHandle :: "platform \<Rightarrow> nat option \<Rightarrow> ('s, 'a) M \<Rightarrow> ('s, 'a) M" where
  "with_SAHandle p psa body s =
     (case body s of
        (Return x, s') \<Rightarrow>
          (case SAHandle_dtor p psa s' of
             (Return _, s'') \<Rightarrow> (Return x, s'')
           | (Throw y, s'') \<Rightarrow> (Throw y, s'')
           | (Fault f, s'') \<Rightarrow> (Fault f, s'')
           | (OutOfFuel, s'') \<Rightarrow> (OutOfFuel, s''))
      | (Throw x, s') \<Rightarrow>
          (case SAHandle_dtor p psa s' of
             (Return _, s'') \<Rightarrow> (Throw x, s'')
           | (Throw y, s'') \<Rightarrow> (Throw y, s'')
           | (Fault f, s'') \<Rightarrow> (Fault f, s'')
           | (OutOfFuel, s'') \<Rightarrow> (OutOfFuel, s''))
      | (Fault f, s') \<Rightarrow> (Fault f, s')
      | (OutOfFuel, s') \<Rightarrow> (OutOfFuel, s'))"

text \<open>
  \<^verbatim>\<open>GetNames\<close> allocates a new SAFEARRAY at every call: the handle of the array is the
  position of the call among the calls, and the answer only says whether the pointer
  written to \<^verbatim>\<open>psaNames\<close> is null.
\<close>

definition GetNames_flags :: "32 word" where
  "GetNames_flags = or WBEM_FLAG_ALWAYS WBEM_FLAG_NONSYSTEM_ONLY"

definition GetNames :: "platform \<Rightarrow> nat \<Rightarrow> ('s, hresult \<times> nat option) M" where
  "GetNames p obj s =
     (let r = respond p (calls s) (IWbemClassObject_GetNames obj GetNames_flags);
          psa = (case ptr r of None \<Rightarrow> None | Some _ \<Rightarrow> Some (length (calls s)))
      in (Return (hr r, psa),
          s\<lparr>calls := calls s @ [IWbemClassObject_GetNames obj GetNames_flags]\<rparr>))"

text \<open>
  The body of \<^verbatim>\<open>for (long i = lLower; i <= lUpper; i++)\<close>, over the indices still to
  visit.
\<close>

fun EnumNames_loop ::
  "platform \<Rightarrow> nat option \<Rightarrow> int list \<Rightarrow> wstring list \<Rightarrow> ('s, wstring list) M" where
  "EnumNames_loop p psa [] acc = ret acc"
| "EnumNames_loop p psa (i # is) acc =
     bnd (com p (SafeArrayGetElement psa i)) (\<lambda>r.
     bnd (throw_if (hr r \<noteq> S_OK) (s_error p (hr r))) (\<lambda>_.
     bnd (wstring_of (bstr r)) (\<lambda>name.
       EnumNames_loop p psa is (acc @ [name]))))"

text \<open>
  \<^verbatim>\<open>i\<close> is a \<^verbatim>\<open>long\<close>: when the upper bound is \<^verbatim>\<open>LONG_MAX\<close> the last \<^verbatim>\<open>i++\<close>
  overflows.
\<close>

definition LONG_MAX :: int where "LONG_MAX = 2147483647"

text \<open>The statements of \<^verbatim>\<open>EnumNames\<close> in the scope of \<^verbatim>\<open>sah\<close>.\<close>

definition EnumNames_scope :: "platform \<Rightarrow> nat option \<Rightarrow> ('s, wstring list) M" where
  "EnumNames_scope p psaNames =
     bnd (com p (SafeArrayGetLBound psaNames)) (\<lambda>rl.
     bnd (throw_if (hr rl \<noteq> S_OK) (s_error p (hr rl))) (\<lambda>_.
     bnd (com p (SafeArrayGetUBound psaNames)) (\<lambda>ru.
     bnd (throw_if (hr ru \<noteq> S_OK) (s_error p (hr ru))) (\<lambda>_.
     bnd (EnumNames_loop p psaNames [sint (lval rl) .. sint (lval ru)] []) (\<lambda>names.
       if sint (lval rl) \<le> sint (lval ru) \<and> sint (lval ru) = LONG_MAX
       then fault SignedOverflow
       else ret names)))))"

definition EnumNames :: "platform \<Rightarrow> nat option \<Rightarrow> ('s, wstring list) M" where
  "EnumNames p pClass =
     bnd (deref ''pClass'' pClass) (\<lambda>obj.
     bnd (GetNames p obj) (\<lambda>(hResult, psaNames).
     bnd (throw_if (hResult \<noteq> S_OK) (s_error p hResult)) (\<lambda>_.
     with_SAHandle p psaNames (EnumNames_scope p psaNames))))"

section \<open>\<^verbatim>\<open>Object\<close>\<close>

record Object =
  m_pObj :: "nat option"
  m_pServices :: "nat option"

record MethodDef =
  name :: wstring
  ipParams :: "wstring list"
  opParams :: "wstring list"

definition get_self :: "('s, 's) M" where
  "get_self s = (Return (self s), s)"

definition GetProperties :: "platform \<Rightarrow> (Object, wstring list) M" where
  "GetProperties p =
     bnd get_self (\<lambda>this.
     bnd (deref ''m_pObj'' (m_pObj this)) (\<lambda>obj.
     bnd (GetNames p obj) (\<lambda>(hResult, psaNames).
     bnd (throw_if (hResult \<noteq> S_OK) (s_error p hResult)) (\<lambda>_.
     with_SAHandle p psaNames (EnumNames p (m_pObj this))))))"

definition GetValue :: "platform \<Rightarrow> wstring \<Rightarrow> (Object, wstring) M" where
  "GetValue p property =
     bnd get_self (\<lambda>this.
     bnd (throw_if (m_pObj this = None) (s_error p E_POINTER)) (\<lambda>_.
     bnd (deref ''m_pObj'' (m_pObj this)) (\<lambda>obj.
     bnd (com p (IWbemClassObject_Get obj property)) (\<lambda>r.
     bnd (throw_if (hr r \<noteq> S_OK) (s_error p (hr r))) (\<lambda>_.
       if vt (var r) = VT_NULL then ret ''NULL''
       else if vt (var r) = VT_BOOL then
         ret (if bVal (var r) \<noteq> 0 then ''true'' else ''false'')
       else if \<not> (vt (var r) = VT_LPWSTR \<or> vt (var r) = VT_BSTR) then
         bnd (com p (VariantChangeType (var r) VT_BSTR)) (\<lambda>c.
           wstring_of (wstr (var c)))
       else wstring_of (wstr (var r)))))))"

definition GetIValue :: "platform \<Rightarrow> wstring \<Rightarrow> (Object, 32 word) M" where
  "GetIValue p property =
     bnd get_self (\<lambda>this.
     bnd (throw_if (m_pObj this = None) (s_error p E_POINTER)) (\<lambda>_.
     bnd (deref ''m_pObj'' (m_pObj this)) (\<lambda>obj.
     bnd (com p (IWbemClassObject_Get obj property)) (\<lambda>r.
     bnd (throw_if (hr r \<noteq> S_OK) (s_error p (hr r))) (\<lambda>_.
       if vt (var r) \<noteq> VT_INT then
         bnd (com p (VariantChangeType (var r) VT_INT)) (\<lambda>c. ret (intVal (var c)))
       else ret (intVal (var r)))))))"

text \<open>
  The \<^verbatim>\<open>for (;;)\<close> of \<^verbatim>\<open>GetMethods\<close>. Nothing in the code bounds it, so it runs on
  fuel: one unit for each call of \<^verbatim>\<open>NextMethod\<close>.
\<close>

fun GetMethods_loop ::
  "nat \<Rightarrow> platform \<Rightarrow> nat \<Rightarrow> MethodDef list \<Rightarrow> ('s, MethodDef list) M" where
  "GetMethods_loop 0 p cls acc = out_of_fuel"
| "GetMethods_loop (Suc n) p cls acc =
     bnd (com p (IWbemClassObject_NextMethod cls)) (\<lambda>r.
       if FAILED (hr r) then ret acc
       else if bstr r = None then ret acc
       else
         bnd (wstring_of (bstr r)) (\<lambda>nm.
         bnd (if ptr r \<noteq> None then EnumNames p (ptr r) else ret []) (\<lambda>ips.
         bnd (if ptr2 r \<noteq> None then EnumNames p (ptr2 r) else ret []) (\<lambda>ops.
           GetMethods_loop n p cls
             (acc @ [\<lparr>name = nm, ipParams = ips, opParams = ops\<rparr>])))))"

definition GetMethods :: "nat \<Rightarrow> platform \<Rightarrow> (Object, MethodDef list) M" where
  "GetMethods fuel p =
     bnd (GetValue p ''__CLASS'') (\<lambda>className.
     bnd get_self (\<lambda>this.
     bnd (deref ''m_pServices'' (m_pServices this)) (\<lambda>svc.
     bnd (com p (IWbemServices_GetObject svc className)) (\<lambda>r.
     bnd (throw_if (hr r \<noteq> S_OK) (s_error p (hr r))) (\<lambda>_.
     bnd (deref ''pClassDefinition'' (ptr r)) (\<lambda>cls.
     bnd (com p (IWbemClassObject_BeginMethodEnumeration cls)) (\<lambda>b.
       if SUCCEEDED (hr b) then
         bnd (GetMethods_loop fuel p cls []) (\<lambda>res.
         bnd (com p (IWbemClassObject_EndMethodEnumeration cls)) (\<lambda>_.
           ret res))
       else ret [])))))))"

type_synonym param_list = "(wstring \<times> variant) list"
type_synonym param_map = "wstring \<rightharpoonup> variant"

text \<open>\<^verbatim>\<open>for (auto& iparam : iparams)\<close>: one \<^verbatim>\<open>Put\<close> for each pair, its HRESULT dropped.\<close>

fun ExecMethod_put :: "platform \<Rightarrow> nat option \<Rightarrow> param_list \<Rightarrow> ('s, unit) M" where
  "ExecMethod_put p pInParamsInstance [] = ret ()"
| "ExecMethod_put p pInParamsInstance (iparam # rest) =
     bnd (deref ''pInParamsInstance'' pInParamsInstance) (\<lambda>inst.
     bnd (com p (IWbemClassObject_Put inst (fst iparam) (snd iparam) (vt (snd iparam)))) (\<lambda>_.
       ExecMethod_put p pInParamsInstance rest))"

text \<open>
  The \<^verbatim>\<open>for (;;)\<close> that drains the out-parameter object, on fuel: one unit for each call
  of \<^verbatim>\<open>Next\<close>.
\<close>

fun ExecMethod_drain :: "nat \<Rightarrow> platform \<Rightarrow> nat \<Rightarrow> param_map \<Rightarrow> ('s, param_map) M" where
  "ExecMethod_drain 0 p out oparams = out_of_fuel"
| "ExecMethod_drain (Suc n) p out oparams =
     bnd (com p (IWbemClassObject_Next out)) (\<lambda>r.
       case bstr r of
         None \<Rightarrow> ret oparams
       | Some nm \<Rightarrow>
           if nm = ''ReturnValue'' then ExecMethod_drain n p out oparams
           else ExecMethod_drain n p out (oparams(nm \<mapsto> var r)))"

text \<open>The block under \<^verbatim>\<open>if (pOutParamsInstance)\<close>.\<close>

definition ExecMethod_out ::
  "nat \<Rightarrow> platform \<Rightarrow> nat \<Rightarrow> param_map \<Rightarrow> ('s, variant \<times> param_map) M" where
  "ExecMethod_out fuel p out oparams =
     bnd (com p (IWbemClassObject_Get out ''ReturnValue'')) (\<lambda>rv.
     bnd (com p (IWbemClassObject_BeginEnumeration out WBEM_FLAG_NONSYSTEM_ONLY)) (\<lambda>_.
     bnd (ExecMethod_drain fuel p out oparams) (\<lambda>oparams'.
     bnd (com p (IWbemClassObject_EndEnumeration out)) (\<lambda>_.
       ret (var rv, oparams')))))"

text \<open>
  \<^verbatim>\<open>oparams\<close> is passed by reference: the function takes its contents and returns them
  with the result. \<^verbatim>\<open>lFlags\<close> is \<open>0\<close>, the synchronous call.

  The statements of \<^verbatim>\<open>ExecMethod\<close> from \<^verbatim>\<open>SpawnInstance\<close> on, \<open>inCls\<close> being the object
  that \<^verbatim>\<open>pInParamsClass\<close> points to.
\<close>

definition ExecMethod_invoke ::
  "nat \<Rightarrow> platform \<Rightarrow> nat \<Rightarrow> wstring \<Rightarrow> param_list \<Rightarrow> param_map \<Rightarrow> nat \<Rightarrow>
     (Object, variant \<times> param_map) M"
  where
  "ExecMethod_invoke fuel p svc lpMethodName iparams oparams inCls =
     bnd (com p (IWbemClassObject_SpawnInstance inCls)) (\<lambda>sp.
     bnd (ExecMethod_put p (ptr sp) iparams) (\<lambda>_.
     bnd (GetValue p ''__RELPATH'') (\<lambda>relPath.
     bnd (com p (IWbemServices_ExecMethod svc relPath lpMethodName 0 (ptr sp))) (\<lambda>ex.
       case ptr ex of
         None \<Rightarrow> ret (CComVariant_empty, oparams)
       | Some out \<Rightarrow> ExecMethod_out fuel p out oparams))))"

definition ExecMethod ::
  "nat \<Rightarrow> platform \<Rightarrow> wstring \<Rightarrow> param_list \<Rightarrow> param_map \<Rightarrow> (Object, variant \<times> param_map) M"
  where
  "ExecMethod fuel p lpMethodName iparams oparams =
     bnd get_self (\<lambda>this.
     bnd (throw_if (m_pServices this = None) (s_error p E_POINTER)) (\<lambda>_.
     bnd (throw_if (m_pObj this = None) (s_error p E_POINTER)) (\<lambda>_.
     bnd (GetValue p ''__CLASS'') (\<lambda>className.
     bnd (deref ''m_pServices'' (m_pServices this)) (\<lambda>svc.
     bnd (com p (IWbemServices_GetObject svc className)) (\<lambda>r.
     bnd (throw_if (hr r \<noteq> S_OK) (s_error p (hr r))) (\<lambda>_.
     bnd (deref ''pClassDefinition'' (ptr r)) (\<lambda>cls.
     bnd (com p (IWbemClassObject_GetMethod cls lpMethodName)) (\<lambda>gm.
     bnd (deref ''pInParamsClass'' (ptr gm)) (\<lambda>inCls.
       ExecMethod_invoke fuel p svc lpMethodName iparams oparams inCls))))))))))"

section \<open>\<^verbatim>\<open>ComInit\<close> and \<^verbatim>\<open>Services\<close>\<close>

definition ComInit_ctor :: "platform \<Rightarrow> (bool, unit) M" where
  "ComInit_ctor p =
     bnd (com p CoInitializeEx) (\<lambda>r.
     bnd (throw_if (hr r \<noteq> S_OK) ComInitError) (\<lambda>_.
       modify_self (\<lambda>ok. True)))"

record Services =
  m_pService :: "nat option"

text \<open>
  A function declared \<^verbatim>\<open>throw()\<close> lets no exception out: one that reaches its boundary
  ends the program (\<^verbatim>\<open>std::unexpected\<close>, then \<^verbatim>\<open>std::terminate\<close>; from C++17 on,
  \<^verbatim>\<open>throw()\<close> is \<^verbatim>\<open>noexcept\<close>).
\<close>

definition nothrow :: "('s, 'a) M \<Rightarrow> ('s, 'a) M" where
  "nothrow body s =
     (case body s of
        (Throw x, s') \<Rightarrow> (Fault Terminate, s')
      | (Return x, s') \<Rightarrow> (Return x, s')
      | (Fault f, s') \<Rightarrow> (Fault f, s')
      | (OutOfFuel, s') \<Rightarrow> (OutOfFuel, s'))"

text \<open>The statements of the constructor, before its exception specification applies.\<close>

definition Services_body :: "platform \<Rightarrow> wstring \<Rightarrow> (Services, unit) M" where
  "Services_body p lpResourcePath =
     bnd (com p CoInitializeSecurity) (\<lambda>r1.
     bnd (throw_if (hr r1 \<noteq> S_OK) (s_error p (hr r1))) (\<lambda>_.
     bnd (com p CoCreateInstance_WbemLocator) (\<lambda>r2.
     bnd (throw_if (hr r2 \<noteq> S_OK) (s_error p (hr r2))) (\<lambda>_.
     bnd (deref ''pLocator'' (ptr r2)) (\<lambda>loc.
     bnd (com p (IWbemLocator_ConnectServer loc lpResourcePath)) (\<lambda>r3.
     bnd (modify_self (\<lambda>this. this\<lparr>m_pService := ptr r3\<rparr>)) (\<lambda>_.
     bnd (throw_if (hr r3 \<noteq> S_OK) (s_error p (hr r3))) (\<lambda>_.
     bnd (com p (CoSetProxyBlanket (ptr r3))) (\<lambda>r4.
       throw_if (hr r4 \<noteq> S_OK) (s_error p (hr r4)))))))))))"

text \<open>\<^verbatim>\<open>Services(LPCWSTR lpResourcePath = L"ROOT\\CIMV2") throw()\<close>.\<close>

definition Services_ctor :: "platform \<Rightarrow> wstring \<Rightarrow> (Services, unit) M" where
  "Services_ctor p lpResourcePath = nothrow (Services_body p lpResourcePath)"

text \<open>The \<^verbatim>\<open>while (pEnum)\<close> of \<^verbatim>\<open>GetInstances\<close>, on fuel.\<close>

fun GetInstances_loop ::
  "nat \<Rightarrow> platform \<Rightarrow> nat \<Rightarrow> nat option \<Rightarrow> Object list \<Rightarrow> ('s, Object list) M" where
  "GetInstances_loop 0 p pEnum svc acc = out_of_fuel"
| "GetInstances_loop (Suc n) p pEnum svc acc =
     bnd (com p (IEnumWbemClassObject_Next pEnum)) (\<lambda>r.
       if returned r = 0 then ret acc
       else
         bnd (throw_if (hr r \<noteq> S_OK) (s_error p (hr r))) (\<lambda>_.
           GetInstances_loop n p pEnum svc
             (acc @ [\<lparr>m_pObj = ptr r, m_pServices = svc\<rparr>])))"

definition GetInstances :: "nat \<Rightarrow> platform \<Rightarrow> wstring \<Rightarrow> (Services, Object list) M" where
  "GetInstances fuel p lpClassName =
     bnd get_self (\<lambda>this.
     bnd (throw_if (m_pService this = None) (s_error p E_POINTER)) (\<lambda>_.
     bnd (deref ''m_pService'' (m_pService this)) (\<lambda>svc.
     bnd (com p (IWbemServices_CreateInstanceEnum svc lpClassName)) (\<lambda>r.
     bnd (throw_if (hr r \<noteq> S_OK) (s_error p (hr r))) (\<lambda>_.
       case ptr r of
         None \<Rightarrow> ret []
       | Some pEnum \<Rightarrow> GetInstances_loop fuel p pEnum (m_pService this) [])))))"

definition GetObject :: "platform \<Rightarrow> wstring \<Rightarrow> (Services, Object) M" where
  "GetObject p lpObjectName =
     bnd get_self (\<lambda>this.
     bnd (throw_if (m_pService this = None) (s_error p E_POINTER)) (\<lambda>_.
     bnd (deref ''m_pService'' (m_pService this)) (\<lambda>svc.
     bnd (com p (IWbemServices_GetObject svc lpObjectName)) (\<lambda>r.
     bnd (throw_if (hr r \<noteq> S_OK) (s_error p (hr r))) (\<lambda>_.
       ret \<lparr>m_pObj = ptr r, m_pServices = m_pService this\<rparr>)))))"

text \<open>The \<^verbatim>\<open>while (enumerator)\<close> of \<^verbatim>\<open>GetClassNames\<close>, on fuel.\<close>

fun GetClassNames_loop ::
  "nat \<Rightarrow> platform \<Rightarrow> nat \<Rightarrow> wstring set \<Rightarrow> ('s, wstring set) M" where
  "GetClassNames_loop 0 p enumerator acc = out_of_fuel"
| "GetClassNames_loop (Suc n) p enumerator acc =
     bnd (com p (IEnumWbemClassObject_Next enumerator)) (\<lambda>r.
       if returned r = 0 then ret acc
       else
         bnd (deref ''pClass'' (ptr r)) (\<lambda>cls.
         bnd (com p (IWbemClassObject_Get cls ''__CLASS'')) (\<lambda>g.
           if SUCCEEDED (hr g) then
             bnd (wstring_of (wstr (var g))) (\<lambda>w.
               GetClassNames_loop n p enumerator (insert w acc))
           else GetClassNames_loop n p enumerator acc)))"

definition meta_class_query :: "wstring \<Rightarrow> wstring" where
  "meta_class_query flt =
     (if flt \<noteq> []
      then ''SELECT * FROM meta_class'' @ '' where __CLASS LIKE '' @ [CHR 0x27] @ flt @ [CHR 0x27]
      else ''SELECT * FROM meta_class'')"

definition GetClassNames :: "nat \<Rightarrow> platform \<Rightarrow> wstring \<Rightarrow> (Services, wstring set) M" where
  "GetClassNames fuel p flt =
     bnd get_self (\<lambda>this.
     bnd (deref ''m_pService'' (m_pService this)) (\<lambda>svc.
     bnd (com p (IWbemServices_ExecQuery svc ''WQL'' (meta_class_query flt))) (\<lambda>r.
     bnd (throw_if (hr r \<noteq> S_OK) (s_error p (hr r))) (\<lambda>_.
       case ptr r of
         None \<Rightarrow> ret {}
       | Some enumerator \<Rightarrow> GetClassNames_loop fuel p enumerator {}))))"

section \<open>Vocabulary of the statements\<close>

text \<open>An outcome that leaves the function: a return or an exception.\<close>

definition exits :: "'a outcome \<Rightarrow> bool" where
  "exits out = (case out of Return _ \<Rightarrow> True | Throw _ \<Rightarrow> True | _ \<Rightarrow> False)"

text \<open>
  \<open>emits Q m\<close>: whatever the state and the outcome, \<open>m\<close> only appends calls that satisfy
  \<open>Q\<close> to the calls made so far, and leaves the object it runs on as it was.
\<close>

definition emits :: "(event \<Rightarrow> bool) \<Rightarrow> ('s, 'a) M \<Rightarrow> bool" where
  "emits Q m =
     (\<forall>s. \<exists>evs. calls (snd (m s)) = calls s @ evs \<and> list_all Q evs \<and>
                 self (snd (m s)) = self s)"

definition sa_read :: "event \<Rightarrow> bool" where
  "sa_read e =
     (case e of
        SafeArrayGetLBound _ \<Rightarrow> True
      | SafeArrayGetUBound _ \<Rightarrow> True
      | SafeArrayGetElement _ _ \<Rightarrow> True
      | _ \<Rightarrow> False)"

text \<open>
  What the platform holds in an array, read index by index: the element at each index is
  what \<^verbatim>\<open>SafeArrayGetElement\<close> answers when it is asked, after the reads before it.
\<close>

fun SafeArray_read ::
  "platform \<Rightarrow> event list \<Rightarrow> nat option \<Rightarrow> int list \<Rightarrow> wstring option list" where
  "SafeArray_read p h psa [] = []"
| "SafeArray_read p h psa (i # is) =
     bstr (respond p h (SafeArrayGetElement psa i)) #
     SafeArray_read p (h @ [SafeArrayGetElement psa i]) psa is"

text \<open>
  The array that \<^verbatim>\<open>GetNames\<close> hands out when it is called after the calls \<open>h\<close>, and
  the bounds that the platform reports for an array, \<open>h\<close> being the calls up to and
  including that \<^verbatim>\<open>GetNames\<close>.
\<close>

definition array_of :: "platform \<Rightarrow> event list \<Rightarrow> nat \<Rightarrow> nat option" where
  "array_of p h obj =
     (case ptr (respond p h (IWbemClassObject_GetNames obj GetNames_flags)) of
        None \<Rightarrow> None
      | Some _ \<Rightarrow> Some (length h))"

definition lower :: "platform \<Rightarrow> event list \<Rightarrow> nat option \<Rightarrow> int" where
  "lower p h psa = sint (lval (respond p h (SafeArrayGetLBound psa)))"

definition upper :: "platform \<Rightarrow> event list \<Rightarrow> nat option \<Rightarrow> int" where
  "upper p h psa =
     sint (lval (respond p (h @ [SafeArrayGetLBound psa]) (SafeArrayGetUBound psa)))"

text \<open>
  \<open>names\<close> are the elements of the array that \<^verbatim>\<open>GetNames\<close> hands out after the calls
  \<open>h\<close>, in index order: one for each index from the lower bound to the upper bound, the
  entry \<open>k\<close> being the element at index lower bound plus \<open>k\<close>, read after the elements
  below it.
\<close>

definition names_in_index_order :: "platform \<Rightarrow> event list \<Rightarrow> nat \<Rightarrow> wstring list \<Rightarrow> bool" where
  "names_in_index_order p h obj names =
     (let h1 = h @ [IWbemClassObject_GetNames obj GetNames_flags];
          psa = array_of p h obj;
          l = lower p h1 psa;
          u = upper p h1 psa;
          h2 = h1 @ [SafeArrayGetLBound psa, SafeArrayGetUBound psa]
      in length names = nat (u - l + 1) \<and>
         list_all (\<lambda>k. Some (names ! k) =
                     bstr (respond p (h2 @ map (SafeArrayGetElement psa) [l .. l + int k - 1])
                            (SafeArrayGetElement psa (l + int k))))
           [0 ..< length names])"

text \<open>The calls that the destructor of an \<^verbatim>\<open>SAHandle\<close> holding \<open>psa\<close> makes.\<close>

definition dtor_calls :: "nat option \<Rightarrow> event list" where
  "dtor_calls psa = (case psa of None \<Rightarrow> [] | Some a \<Rightarrow> [SafeArrayDestroy a])"

text \<open>
  When \<^verbatim>\<open>EnumNames\<close>, called after the calls \<open>h\<close>, runs to its end: every call it makes
  answers \<^verbatim>\<open>S_OK\<close>, every element is a string, and the loop counter does not overflow.
  \<open>SafeArray_readable\<close> says so of the element reads, \<open>EnumNames_trace\<close> lists the calls of
  such a run and \<open>EnumNames_names\<close> the elements it reads. \<open>GetProperties_succeeds\<close> is the
  same for \<^verbatim>\<open>Object::GetProperties\<close>.
\<close>

fun SafeArray_readable :: "platform \<Rightarrow> event list \<Rightarrow> nat option \<Rightarrow> int list \<Rightarrow> bool" where
  "SafeArray_readable p h psa [] = True"
| "SafeArray_readable p h psa (i # is) =
     (hr (respond p h (SafeArrayGetElement psa i)) = S_OK \<and>
      bstr (respond p h (SafeArrayGetElement psa i)) \<noteq> None \<and>
      SafeArray_readable p (h @ [SafeArrayGetElement psa i]) psa is)"

definition EnumNames_trace :: "platform \<Rightarrow> event list \<Rightarrow> nat \<Rightarrow> event list" where
  "EnumNames_trace p h obj =
     (let h1 = h @ [IWbemClassObject_GetNames obj GetNames_flags];
          psa = array_of p h obj
      in [IWbemClassObject_GetNames obj GetNames_flags,
          SafeArrayGetLBound psa, SafeArrayGetUBound psa] @
         map (SafeArrayGetElement psa) [lower p h1 psa .. upper p h1 psa] @
         dtor_calls psa)"

definition EnumNames_names :: "platform \<Rightarrow> event list \<Rightarrow> nat \<Rightarrow> wstring list" where
  "EnumNames_names p h obj =
     (let h1 = h @ [IWbemClassObject_GetNames obj GetNames_flags];
          psa = array_of p h obj
      in map the (SafeArray_read p (h1 @ [SafeArrayGetLBound psa, SafeArrayGetUBound psa]) psa
                    [lower p h1 psa .. upper p h1 psa]))"

definition EnumNames_succeeds :: "platform \<Rightarrow> event list \<Rightarrow> nat \<Rightarrow> bool" where
  "EnumNames_succeeds p h obj =
     (let h1 = h @ [IWbemClassObject_GetNames obj GetNames_flags];
          psa = array_of p h obj;
          l = lower p h1 psa;
          u = upper p h1 psa;
          h2 = h1 @ [SafeArrayGetLBound psa, SafeArrayGetUBound psa]
      in hr (respond p h (IWbemClassObject_GetNames obj GetNames_flags)) = S_OK \<and>
         hr (respond p h1 (SafeArrayGetLBound psa)) = S_OK \<and>
         hr (respond p (h1 @ [SafeArrayGetLBound psa]) (SafeArrayGetUBound psa)) = S_OK \<and>
         SafeArray_readable p h2 psa [l .. u] \<and>
         (u < l \<or> u \<noteq> LONG_MAX) \<and>
         (case psa of
            None \<Rightarrow> True
          | Some a \<Rightarrow>
              hr (respond p (h2 @ map (SafeArrayGetElement psa) [l .. u]) (SafeArrayDestroy a))
                = S_OK))"

definition GetProperties_succeeds :: "platform \<Rightarrow> event list \<Rightarrow> nat \<Rightarrow> bool" where
  "GetProperties_succeeds p h obj =
     (let h1 = h @ [IWbemClassObject_GetNames obj GetNames_flags]
      in hr (respond p h (IWbemClassObject_GetNames obj GetNames_flags)) = S_OK \<and>
         EnumNames_succeeds p h1 obj \<and>
         (case array_of p h obj of
            None \<Rightarrow> True
          | Some a \<Rightarrow> hr (respond p (h1 @ EnumNames_trace p h1 obj) (SafeArrayDestroy a)) = S_OK))"

text \<open>The variant that \<^verbatim>\<open>Get\<close> fetches, and what \<^verbatim>\<open>ChangeType(VT_BSTR)\<close> makes of it.\<close>

definition fetched :: "platform \<Rightarrow> event list \<Rightarrow> nat \<Rightarrow> wstring \<Rightarrow> variant" where
  "fetched p h obj property = var (respond p h (IWbemClassObject_Get obj property))"

definition coerced :: "platform \<Rightarrow> event list \<Rightarrow> nat \<Rightarrow> wstring \<Rightarrow> variant" where
  "coerced p h obj property =
     var (respond p (h @ [IWbemClassObject_Get obj property])
            (VariantChangeType (fetched p h obj property) VT_BSTR))"

text \<open>The calls that a successful \<^verbatim>\<open>GetValue\<close> makes after the calls \<open>h\<close>.\<close>

definition GetValue_calls :: "platform \<Rightarrow> event list \<Rightarrow> nat \<Rightarrow> wstring \<Rightarrow> event list" where
  "GetValue_calls p h obj property =
     IWbemClassObject_Get obj property #
     (if vt (fetched p h obj property) = VT_NULL \<or> vt (fetched p h obj property) = VT_BOOL \<or>
         vt (fetched p h obj property) = VT_LPWSTR \<or> vt (fetched p h obj property) = VT_BSTR
      then []
      else [VariantChangeType (fetched p h obj property) VT_BSTR])"

text \<open>The \<^verbatim>\<open>Put\<close> calls for a parameter list, in list order, on the instance \<open>q\<close>.\<close>

definition Put_calls :: "nat option \<Rightarrow> param_list \<Rightarrow> event list" where
  "Put_calls q iparams =
     (case q of
        None \<Rightarrow> []
      | Some inst \<Rightarrow> map (\<lambda>ip. IWbemClassObject_Put inst (fst ip) (snd ip) (vt (snd ip))) iparams)"

text \<open>
  The instance that \<^verbatim>\<open>SpawnInstance\<close> hands out after the class lookup made at \<open>h\<close>.
\<close>

definition spawned :: "platform \<Rightarrow> event list \<Rightarrow> nat \<Rightarrow> wstring \<Rightarrow> nat \<Rightarrow> wstring \<Rightarrow> nat \<Rightarrow> nat option" where
  "spawned p h svc className cls nm inCls =
     ptr (respond p (h @ [IWbemServices_GetObject svc className, IWbemClassObject_GetMethod cls nm])
            (IWbemClassObject_SpawnInstance inCls))"

text \<open>
  The (name, value) pairs that the enumeration of an out-parameter object yields: what
  \<^verbatim>\<open>Next\<close> answers, call after call, up to the first answer without a name, within at
  most \<open>n\<close> calls.
\<close>

fun Next_yield :: "platform \<Rightarrow> event list \<Rightarrow> nat \<Rightarrow> nat \<Rightarrow> (wstring \<times> variant) list" where
  "Next_yield p h out 0 = []"
| "Next_yield p h out (Suc n) =
     (case bstr (respond p h (IWbemClassObject_Next out)) of
        None \<Rightarrow> []
      | Some nm \<Rightarrow>
          (nm, var (respond p h (IWbemClassObject_Next out))) #
          Next_yield p (h @ [IWbemClassObject_Next out]) out n)"

text \<open>Storing one yielded pair, as a step of the drain does.\<close>

definition store_out :: "wstring \<times> variant \<Rightarrow> param_map \<Rightarrow> param_map" where
  "store_out y m = (if fst y = ''ReturnValue'' then m else m(fst y \<mapsto> snd y))"

text \<open>
  What \<^verbatim>\<open>GetValue\<close> returns for a property after the calls \<open>h\<close>, and \<open>None\<close> when it does
  not return: \<^verbatim>\<open>Get\<close> has to answer \<^verbatim>\<open>S_OK\<close>, and a string variant or the coerced variant
  has to hold a string.
\<close>

definition GetValue_result :: "platform \<Rightarrow> event list \<Rightarrow> nat \<Rightarrow> wstring \<Rightarrow> wstring option" where
  "GetValue_result p h obj property =
     (if hr (respond p h (IWbemClassObject_Get obj property)) \<noteq> S_OK then None
      else if vt (fetched p h obj property) = VT_NULL then Some ''NULL''
      else if vt (fetched p h obj property) = VT_BOOL then
        Some (if bVal (fetched p h obj property) \<noteq> 0 then ''true'' else ''false'')
      else if vt (fetched p h obj property) = VT_LPWSTR \<or>
              vt (fetched p h obj property) = VT_BSTR then wstr (fetched p h obj property)
      else wstr (coerced p h obj property))"

text \<open>
  The calls of \<^verbatim>\<open>ExecMethod\<close> up to and including \<^verbatim>\<open>IWbemServices::ExecMethod\<close>, after the
  calls \<open>h\<close>: the lookup of \<^verbatim>\<open>__CLASS\<close>, \<^verbatim>\<open>GetObject\<close> for the class, \<^verbatim>\<open>GetMethod\<close> for the
  method name, \<^verbatim>\<open>SpawnInstance\<close> on the in-parameter class, one \<^verbatim>\<open>Put\<close> for each pair of
  \<^verbatim>\<open>iparams\<close>, the lookup of \<^verbatim>\<open>__RELPATH\<close>, and the invocation with flags 0 on the spawned
  instance.
\<close>

definition ExecMethod_request ::
  "platform \<Rightarrow> event list \<Rightarrow> nat \<Rightarrow> nat \<Rightarrow> wstring \<Rightarrow> param_list \<Rightarrow>
     wstring \<Rightarrow> nat \<Rightarrow> nat \<Rightarrow> wstring \<Rightarrow> event list" where
  "ExecMethod_request p h obj svc nm ips className cls inCls relPath =
     (let h1 = h @ GetValue_calls p h obj ''__CLASS'';
          h2 = h1 @ [IWbemServices_GetObject svc className, IWbemClassObject_GetMethod cls nm];
          inst = ptr (respond p h2 (IWbemClassObject_SpawnInstance inCls));
          h3 = h2 @ [IWbemClassObject_SpawnInstance inCls] @ Put_calls inst ips;
          h4 = h3 @ GetValue_calls p h3 obj ''__RELPATH''
      in h4 @ [IWbemServices_ExecMethod svc relPath nm 0 inst])"

text \<open>The out-parameter object that the invocation hands out.\<close>

definition ExecMethod_answer ::
  "platform \<Rightarrow> event list \<Rightarrow> nat \<Rightarrow> nat \<Rightarrow> wstring \<Rightarrow> param_list \<Rightarrow>
     wstring \<Rightarrow> nat \<Rightarrow> nat \<Rightarrow> wstring \<Rightarrow> nat option" where
  "ExecMethod_answer p h obj svc nm ips className cls inCls relPath =
     ptr (respond p (butlast (ExecMethod_request p h obj svc nm ips className cls inCls relPath))
            (last (ExecMethod_request p h obj svc nm ips className cls inCls relPath)))"

text \<open>
  The pairs that the enumeration of the out-parameter object \<open>out\<close> yields, after the
  \<^verbatim>\<open>Get\<close> of \<^verbatim>\<open>ReturnValue\<close> and \<^verbatim>\<open>BeginEnumeration\<close>.
\<close>

definition ExecMethod_yield ::
  "nat \<Rightarrow> platform \<Rightarrow> event list \<Rightarrow> nat \<Rightarrow> nat \<Rightarrow> wstring \<Rightarrow> param_list \<Rightarrow>
     wstring \<Rightarrow> nat \<Rightarrow> nat \<Rightarrow> wstring \<Rightarrow> nat \<Rightarrow> (wstring \<times> variant) list" where
  "ExecMethod_yield fuel p h obj svc nm ips className cls inCls relPath out =
     Next_yield p
       (ExecMethod_request p h obj svc nm ips className cls inCls relPath @
          [IWbemClassObject_Get out ''ReturnValue'',
           IWbemClassObject_BeginEnumeration out WBEM_FLAG_NONSYSTEM_ONLY])
       out fuel"

text \<open>
  What the platform has to answer for \<^verbatim>\<open>ExecMethod\<close> to return: both lookups of
  \<^verbatim>\<open>GetValue\<close> return (the class name and the path), \<^verbatim>\<open>GetObject\<close> answers \<^verbatim>\<open>S_OK\<close> with a
  class object, \<^verbatim>\<open>GetMethod\<close> leaves an in-parameter class, \<^verbatim>\<open>SpawnInstance\<close> leaves an
  instance unless \<^verbatim>\<open>iparams\<close> is empty, and the enumeration of the out-parameter object, if
  there is one, ends within the fuel. No other HRESULT is looked at.
\<close>

definition ExecMethod_ready ::
  "nat \<Rightarrow> platform \<Rightarrow> event list \<Rightarrow> nat \<Rightarrow> nat \<Rightarrow> wstring \<Rightarrow> param_list \<Rightarrow>
     wstring \<Rightarrow> nat \<Rightarrow> nat \<Rightarrow> wstring \<Rightarrow> bool" where
  "ExecMethod_ready fuel p h obj svc nm ips className cls inCls relPath =
     (let h1 = h @ GetValue_calls p h obj ''__CLASS'';
          h2 = h1 @ [IWbemServices_GetObject svc className, IWbemClassObject_GetMethod cls nm];
          inst = ptr (respond p h2 (IWbemClassObject_SpawnInstance inCls));
          h3 = h2 @ [IWbemClassObject_SpawnInstance inCls] @ Put_calls inst ips
      in GetValue_result p h obj ''__CLASS'' = Some className \<and>
         hr (respond p h1 (IWbemServices_GetObject svc className)) = S_OK \<and>
         ptr (respond p h1 (IWbemServices_GetObject svc className)) = Some cls \<and>
         ptr (respond p (h1 @ [IWbemServices_GetObject svc className])
                (IWbemClassObject_GetMethod cls nm)) = Some inCls \<and>
         (ips = [] \<or> inst \<noteq> None) \<and>
         GetValue_result p h3 obj ''__RELPATH'' = Some relPath \<and>
         (case ExecMethod_answer p h obj svc nm ips className cls inCls relPath of
            None \<Rightarrow> True
          | Some out \<Rightarrow>
              length (ExecMethod_yield fuel p h obj svc nm ips className cls inCls relPath out)
                < fuel))"

text \<open>
  The value, the out-parameter map and the calls that \<^verbatim>\<open>ExecMethod\<close> ends with: without an
  out-parameter object an empty variant and the map as it was; with one, the variant that
  \<^verbatim>\<open>Get\<close> leaves for \<^verbatim>\<open>ReturnValue\<close> and the map with the yielded pairs stored, after one
  \<^verbatim>\<open>Next\<close> more than there are pairs and \<^verbatim>\<open>EndEnumeration\<close>.
\<close>

definition ExecMethod_result ::
  "nat \<Rightarrow> platform \<Rightarrow> event list \<Rightarrow> nat \<Rightarrow> nat \<Rightarrow> wstring \<Rightarrow> param_list \<Rightarrow> param_map \<Rightarrow>
     wstring \<Rightarrow> nat \<Rightarrow> nat \<Rightarrow> wstring \<Rightarrow> (variant \<times> param_map) \<times> event list" where
  "ExecMethod_result fuel p h obj svc nm ips om className cls inCls relPath =
     (let req = ExecMethod_request p h obj svc nm ips className cls inCls relPath
      in case ExecMethod_answer p h obj svc nm ips className cls inCls relPath of
           None \<Rightarrow> ((CComVariant_empty, om), req)
         | Some out \<Rightarrow>
             (let ys = ExecMethod_yield fuel p h obj svc nm ips className cls inCls relPath out
              in ((var (respond p req (IWbemClassObject_Get out ''ReturnValue'')),
                   fold store_out ys om),
                  req @ [IWbemClassObject_Get out ''ReturnValue'',
                         IWbemClassObject_BeginEnumeration out WBEM_FLAG_NONSYSTEM_ONLY] @
                    replicate (Suc (length ys)) (IWbemClassObject_Next out) @
                    [IWbemClassObject_EndEnumeration out])))"

text \<open>
  \<open>oparams_filled ys om om'\<close>: the map \<open>om'\<close> is \<open>om\<close> with the yielded pairs \<open>ys\<close> stored
  except those named \<^verbatim>\<open>ReturnValue\<close>: a name yielded once maps to its value, a name yielded
  several times to the value yielded last, and all other entries are those of \<open>om\<close>.
\<close>

definition oparams_filled :: "(wstring \<times> variant) list \<Rightarrow> param_map \<Rightarrow> param_map \<Rightarrow> bool" where
  "oparams_filled ys om om' =
     ((\<forall>n v. distinct (map fst ys) \<and> (n, v) \<in> set ys \<and> n \<noteq> ''ReturnValue'' \<longrightarrow>
              om' n = Some v) \<and>
      om' ''ReturnValue'' = om ''ReturnValue'' \<and>
      (\<forall>n. n \<notin> fst ` set ys \<longrightarrow> om' n = om n) \<and>
      (\<forall>n. om' n = (if n \<noteq> ''ReturnValue'' \<and> n \<in> fst ` set ys
                     then map_of (rev ys) n else om n)))"

text \<open>
  \<open>oparams_after \<dots> om om' hs\<close>: what \<^verbatim>\<open>ExecMethod\<close> has done with \<^verbatim>\<open>oparams\<close> when it ends
  with the map \<open>om'\<close> and the calls \<open>hs\<close>. Without an out-parameter object the map is
  unchanged and the invocation is the last call. With one, the enumeration was begun,
  \<^verbatim>\<open>Next\<close> was called until it answered without a name, the enumeration was ended, and
  the map is filled from the pairs that were yielded.
\<close>

definition oparams_after ::
  "nat \<Rightarrow> platform \<Rightarrow> event list \<Rightarrow> nat \<Rightarrow> nat \<Rightarrow> wstring \<Rightarrow> param_list \<Rightarrow>
     wstring \<Rightarrow> nat \<Rightarrow> nat \<Rightarrow> wstring \<Rightarrow> param_map \<Rightarrow> param_map \<Rightarrow> event list \<Rightarrow> bool" where
  "oparams_after fuel p h obj svc nm ips className cls inCls relPath om om' hs =
     (case ExecMethod_answer p h obj svc nm ips className cls inCls relPath of
        None \<Rightarrow>
          om' = om \<and> hs = ExecMethod_request p h obj svc nm ips className cls inCls relPath
      | Some out \<Rightarrow>
          hs = ExecMethod_request p h obj svc nm ips className cls inCls relPath @
                 [IWbemClassObject_Get out ''ReturnValue'',
                  IWbemClassObject_BeginEnumeration out WBEM_FLAG_NONSYSTEM_ONLY] @
                 replicate
                   (Suc (length (ExecMethod_yield fuel p h obj svc nm ips className cls inCls
                                   relPath out)))
                   (IWbemClassObject_Next out) @
                 [IWbemClassObject_EndEnumeration out] \<and>
          bstr (respond p
                  (ExecMethod_request p h obj svc nm ips className cls inCls relPath @
                     [IWbemClassObject_Get out ''ReturnValue'',
                      IWbemClassObject_BeginEnumeration out WBEM_FLAG_NONSYSTEM_ONLY] @
                     replicate
                       (length (ExecMethod_yield fuel p h obj svc nm ips className cls inCls
                                  relPath out))
                       (IWbemClassObject_Next out))
                  (IWbemClassObject_Next out)) = None \<and>
          oparams_filled
            (ExecMethod_yield fuel p h obj svc nm ips className cls inCls relPath out) om om')"

text \<open>
  The objects that the enumerator \<open>e\<close> hands to \<^verbatim>\<open>GetClassNames\<close> after the calls \<open>h\<close>, each
  with the answer to the \<^verbatim>\<open>Get\<close> of its \<^verbatim>\<open>__CLASS\<close>: what \<^verbatim>\<open>Next\<close> answers, call after
  call, up to the first answer that returns no object, within at most \<open>n\<close> rounds.
\<close>

fun Enum_yield :: "platform \<Rightarrow> event list \<Rightarrow> nat \<Rightarrow> nat \<Rightarrow> (nat \<times> resp) list" where
  "Enum_yield p h e 0 = []"
| "Enum_yield p h e (Suc n) =
     (if returned (respond p h (IEnumWbemClassObject_Next e)) = 0 then []
      else case ptr (respond p h (IEnumWbemClassObject_Next e)) of
             None \<Rightarrow> []
           | Some cls \<Rightarrow>
               (cls, respond p (h @ [IEnumWbemClassObject_Next e])
                       (IWbemClassObject_Get cls ''__CLASS'')) #
               Enum_yield p (h @ [IEnumWbemClassObject_Next e, IWbemClassObject_Get cls ''__CLASS''])
                 e n)"

text \<open>
  The \<^verbatim>\<open>__CLASS\<close> values of the enumerated objects, as a set: the string of each answer
  that succeeded.
\<close>

fun class_names :: "(nat \<times> resp) list \<Rightarrow> wstring set" where
  "class_names [] = {}"
| "class_names (y # ys) =
     (if SUCCEEDED (hr (snd y))
      then (case wstr (var (snd y)) of None \<Rightarrow> {} | Some w \<Rightarrow> {w})
      else {}) \<union> class_names ys"

text \<open>Every \<^verbatim>\<open>__CLASS\<close> that was read successfully holds a string.\<close>

fun class_strings :: "(nat \<times> resp) list \<Rightarrow> bool" where
  "class_strings [] = True"
| "class_strings (y # ys) =
     ((if SUCCEEDED (hr (snd y)) then wstr (var (snd y)) \<noteq> None else True) \<and> class_strings ys)"

text \<open>The calls of the enumeration: \<^verbatim>\<open>Next\<close>, then \<^verbatim>\<open>Get\<close> on the object it handed out.\<close>

definition class_calls :: "nat \<Rightarrow> (nat \<times> resp) list \<Rightarrow> event list" where
  "class_calls e ys =
     concat (map (\<lambda>y. [IEnumWbemClassObject_Next e, IWbemClassObject_Get (fst y) ''__CLASS'']) ys)"

text \<open>
  The query of \<^verbatim>\<open>GetClassNames\<close>, as the specification words it: the plain text for an
  empty filter, and the text with the filter between single quotes otherwise.
\<close>

definition GetClassNames_request :: "nat \<Rightarrow> wstring \<Rightarrow> event" where
  "GetClassNames_request svc flt =
     IWbemServices_ExecQuery svc ''WQL''
       (if flt = [] then ''SELECT * FROM meta_class''
        else ''SELECT * FROM meta_class where __CLASS LIKE '' @ [CHR 0x27] @ flt @ [CHR 0x27])"

text \<open>The objects that the enumerator \<open>e\<close> of that query hands out.\<close>

definition GetClassNames_yield ::
  "nat \<Rightarrow> platform \<Rightarrow> event list \<Rightarrow> nat \<Rightarrow> wstring \<Rightarrow> nat \<Rightarrow> (nat \<times> resp) list" where
  "GetClassNames_yield fuel p h svc flt e =
     Enum_yield p (h @ [GetClassNames_request svc flt]) e fuel"

text \<open>
  What the platform has to answer for \<^verbatim>\<open>GetClassNames\<close> to return: \<^verbatim>\<open>ExecQuery\<close> answers
  \<^verbatim>\<open>S_OK\<close>, and if it hands out an enumerator, the enumeration ends within the fuel with
  an answer that returns nothing, and every class name read is a string.
\<close>

definition GetClassNames_ready :: "nat \<Rightarrow> platform \<Rightarrow> event list \<Rightarrow> nat \<Rightarrow> wstring \<Rightarrow> bool" where
  "GetClassNames_ready fuel p h svc flt =
     (hr (respond p h (GetClassNames_request svc flt)) = S_OK \<and>
      (case ptr (respond p h (GetClassNames_request svc flt)) of
         None \<Rightarrow> True
       | Some e \<Rightarrow>
           length (GetClassNames_yield fuel p h svc flt e) < fuel \<and>
           returned (respond p
                       (h @ [GetClassNames_request svc flt] @
                          class_calls e (GetClassNames_yield fuel p h svc flt e))
                       (IEnumWbemClassObject_Next e)) = 0 \<and>
           class_strings (GetClassNames_yield fuel p h svc flt e)))"

text \<open>The set and the calls that \<^verbatim>\<open>GetClassNames\<close> ends with.\<close>

definition GetClassNames_result ::
  "nat \<Rightarrow> platform \<Rightarrow> event list \<Rightarrow> nat \<Rightarrow> wstring \<Rightarrow> wstring set \<times> event list" where
  "GetClassNames_result fuel p h svc flt =
     (case ptr (respond p h (GetClassNames_request svc flt)) of
        None \<Rightarrow> ({}, h @ [GetClassNames_request svc flt])
      | Some e \<Rightarrow>
          (class_names (GetClassNames_yield fuel p h svc flt e),
           h @ [GetClassNames_request svc flt] @
             class_calls e (GetClassNames_yield fuel p h svc flt e) @
             [IEnumWbemClassObject_Next e]))"

text \<open>\<open>never f m\<close>: from no state does \<open>m\<close> end in the fault \<open>f\<close>.\<close>

definition never :: "fault \<Rightarrow> ('s, 'a) M \<Rightarrow> bool" where
  "never f m = (\<forall>s. fst (m s) \<noteq> Fault f)"

section \<open>An example platform\<close>

text \<open>
  A platform with one logical disk: service 7, disk instance 1 of class
  \<^verbatim>\<open>Win32_LogicalDisk\<close> (class object 2), whose method has the in-parameter class 3
  (instances 4) and answers with the out-parameter object 5. Enumerator 8 yields the disk
  twice and then ends; every name array has the two entries 0 and 1.
\<close>

definition WBEM_S_FALSE :: hresult where "WBEM_S_FALSE = 1"
definition WBEM_S_NO_MORE_DATA :: hresult where "WBEM_S_NO_MORE_DATA = 0x40005"

definition ok :: resp where
  "ok = \<lparr>hr = S_OK, ptr = None, ptr2 = None, var = CComVariant_empty, bstr = None,
          lval = 0, returned = 0\<rparr>"

definition bstr_variant :: "wstring \<Rightarrow> variant" where
  "bstr_variant w = \<lparr>vt = VT_BSTR, bits = 0, wstr = Some w\<rparr>"

definition disk_property :: "wstring \<Rightarrow> variant" where
  "disk_property property =
     (if property = ''__CLASS'' then bstr_variant ''Win32_LogicalDisk''
      else if property = ''__RELPATH'' then bstr_variant ''Win32_LogicalDisk.DeviceID=G:''
      else if property = ''DeviceID'' then bstr_variant ''G:''
      else if property = ''VolumeName'' then \<lparr>vt = VT_NULL, bits = 0, wstr = None\<rparr>
      else if property = ''Compressed'' then \<lparr>vt = VT_BOOL, bits = 0x100, wstr = None\<rparr>
      else if property = ''ReturnValue'' then \<lparr>vt = 19, bits = 2, wstr = None\<rparr>
      else \<lparr>vt = 3, bits = 512, wstr = None\<rparr>)"

fun demo_respond :: "event list \<Rightarrow> event \<Rightarrow> resp" where
  "demo_respond h CoCreateInstance_WbemLocator = ok\<lparr>ptr := Some 6\<rparr>"
| "demo_respond h (IWbemLocator_ConnectServer l path) = ok\<lparr>ptr := Some 7\<rparr>"
| "demo_respond h (IWbemClassObject_GetNames obj flags) = ok\<lparr>ptr := Some 0\<rparr>"
| "demo_respond h (SafeArrayGetLBound a) = ok\<lparr>lval := 0\<rparr>"
| "demo_respond h (SafeArrayGetUBound a) = ok\<lparr>lval := 1\<rparr>"
| "demo_respond h (SafeArrayGetElement a i) =
     ok\<lparr>bstr := Some (if i = 0 then ''DeviceID'' else ''VolumeName'')\<rparr>"
| "demo_respond h (IWbemClassObject_Get obj property) = ok\<lparr>var := disk_property property\<rparr>"
| "demo_respond h (VariantChangeType v t) =
     ok\<lparr>var := \<lparr>vt = t, bits = bits v, wstr = Some ''512''\<rparr>\<rparr>"
| "demo_respond h (IWbemServices_GetObject svc nm) = ok\<lparr>ptr := Some 2\<rparr>"
| "demo_respond h (IWbemClassObject_NextMethod cls) =
     (if count_list h (IWbemClassObject_NextMethod cls) = 0
      then ok\<lparr>bstr := Some ''Chkdsk'', ptr := Some 3, ptr2 := Some 9\<rparr>
      else ok\<lparr>hr := WBEM_S_NO_MORE_DATA\<rparr>)"
| "demo_respond h (IWbemClassObject_GetMethod cls nm) = ok\<lparr>ptr := Some 3\<rparr>"
| "demo_respond h (IWbemClassObject_SpawnInstance c) = ok\<lparr>ptr := Some 4\<rparr>"
| "demo_respond h (IWbemServices_ExecMethod svc path nm flags inp) = ok\<lparr>ptr := Some 5\<rparr>"
| "demo_respond h (IWbemClassObject_Next out) =
     (if count_list h (IWbemClassObject_Next out) = 0
      then ok\<lparr>bstr := Some ''ReturnValue'', var := disk_property ''ReturnValue''\<rparr>
      else if count_list h (IWbemClassObject_Next out) = 1
      then ok\<lparr>bstr := Some ''Extra'', var := bstr_variant ''x''\<rparr>
      else ok\<lparr>hr := WBEM_S_NO_MORE_DATA\<rparr>)"
| "demo_respond h (IWbemServices_CreateInstanceEnum svc nm) = ok\<lparr>ptr := Some 8\<rparr>"
| "demo_respond h (IWbemServices_ExecQuery svc lang q) = ok\<lparr>ptr := Some 8\<rparr>"
| "demo_respond h (IEnumWbemClassObject_Next e) =
     (if count_list h (IEnumWbemClassObject_Next e) < 2
      then ok\<lparr>ptr := Some 1, returned := 1\<rparr>
      else ok\<lparr>hr := WBEM_S_FALSE\<rparr>)"
| "demo_respond h ev = ok"

definition demo :: platform where
  "demo = \<lparr>respond = demo_respond, Win32FromHResult = take_bit 16\<rparr>"

text \<open>The same platform, but with the call \<open>ev\<close> answering the HRESULT \<open>h\<close>.\<close>

definition fail_at :: "event \<Rightarrow> hresult \<Rightarrow> platform \<Rightarrow> platform" where
  "fail_at ev h p =
     p\<lparr>respond := (\<lambda>hist e. if e = ev then (respond p hist e)\<lparr>hr := h\<rparr>
                              else respond p hist e)\<rparr>"

text \<open>The example platform with a name array whose element 1 cannot be read.\<close>

definition flaky :: platform where
  "flaky = fail_at (SafeArrayGetElement (Some 0) 1) E_FAIL demo"

definition disk :: "Object st" where
  "disk = \<lparr>self = \<lparr>m_pObj = Some 1, m_pServices = Some 7\<rparr>, calls = []\<rparr>"

definition unconnected :: "Services st" where
  "unconnected = \<lparr>self = \<lparr>m_pService = None\<rparr>, calls = []\<rparr>"

definition connected :: "Services st" where
  "connected = \<lparr>self = \<lparr>m_pService = Some 7\<rparr>, calls = []\<rparr>"

text \<open>A call of the disk's \<^verbatim>\<open>Chkdsk\<close> method, as in \<^verbatim>\<open>main.cpp\<close>, and the state it ends in.\<close>

definition false_variant :: variant where
  "false_variant = \<lparr>vt = VT_BOOL, bits = 0, wstr = None\<rparr>"

definition chkdsk_params :: param_list where
  "chkdsk_params = [(''FixErrors'', false_variant), (''OKToRunAtBootUp'', false_variant)]"

definition enough :: nat where
  "enough = Suc (Suc (Suc (Suc 0)))"

definition chkdsk_done :: "Object st" where
  "chkdsk_done = disk\<lparr>calls :=
        [IWbemClassObject_Get 1 ''__CLASS'',
         IWbemServices_GetObject 7 ''Win32_LogicalDisk'',
         IWbemClassObject_GetMethod 2 ''Chkdsk'',
         IWbemClassObject_SpawnInstance 3,
         IWbemClassObject_Put 4 ''FixErrors'' false_variant VT_BOOL,
         IWbemClassObject_Put 4 ''OKToRunAtBootUp'' false_variant VT_BOOL,
         IWbemClassObject_Get 1 ''__RELPATH'',
         IWbemServices_ExecMethod 7 ''Win32_LogicalDisk.DeviceID=G:'' ''Chkdsk'' 0 (Some 4),
         IWbemClassObject_Get 5 ''ReturnValue'',
         IWbemClassObject_BeginEnumeration 5 WBEM_FLAG_NONSYSTEM_ONLY,
         IWbemClassObject_Next 5, IWbemClassObject_Next 5, IWbemClassObject_Next 5,
         IWbemClassObject_EndEnumeration 5]\<rparr>"

text \<open>
  The example platform seen through a method without in parameters: \<^verbatim>\<open>GetMethod\<close>
  succeeds and leaves the in-parameter class null. \<open>class_read\<close> is the disk after its
  class name has been read.
\<close>

definition void_method :: platform where
  "void_method =
     demo\<lparr>respond := (\<lambda>h e. case e of IWbemClassObject_GetMethod cls nm \<Rightarrow> ok
                                | _ \<Rightarrow> demo_respond h e)\<rparr>"

definition class_read :: "Object st" where
  "class_read = disk\<lparr>calls := [IWbemClassObject_Get 1 ''__CLASS'']\<rparr>"

text \<open>
  The service after listing all classes, and after listing those matching \<^verbatim>\<open>Win32%\<close>.
\<close>

definition classes_listed :: "Services st" where
  "classes_listed = connected\<lparr>calls :=
     [IWbemServices_ExecQuery 7 ''WQL'' ''SELECT * FROM meta_class'',
      IEnumWbemClassObject_Next 8, IWbemClassObject_Get 1 ''__CLASS'',
      IEnumWbemClassObject_Next 8, IWbemClassObject_Get 1 ''__CLASS'',
      IEnumWbemClassObject_Next 8]\<rparr>"

definition classes_matched :: "Services st" where
  "classes_matched = connected\<lparr>calls :=
     [IWbemServices_ExecQuery 7 ''WQL''
        (''SELECT * FROM meta_class where __CLASS LIKE '' @ [CHR 0x27] @ ''Win32%'' @ [CHR 0x27]),
      IEnumWbemClassObject_Next 8, IWbemClassObject_Get 1 ''__CLASS'',
      IEnumWbemClassObject_Next 8, IWbemClassObject_Get 1 ''__CLASS'',
      IEnumWbemClassObject_Next 8]\<rparr>"

section \<open>Sequencing lemmas\<close>

lemma bnd_ret [simp]: "bnd (ret x) f = f x"
  by (rule ext) (simp add: bnd_def ret_def)

lemma bnd_throw [simp]: "bnd (throw x) f = throw x"
  by (rule ext) (simp add: bnd_def throw_def)

lemma bnd_fault [simp]: "bnd (fault x) f = fault x"
  by (rule ext) (simp add: bnd_def fault_def)

lemma bnd_out_of_fuel [simp]: "bnd out_of_fuel f = out_of_fuel"
  by (rule ext) (simp add: bnd_def out_of_fuel_def)

lemma bnd_throw_if [simp]: "bnd (throw_if c x) f = (if c then throw x else f ())"
  by (simp add: throw_if_def)

lemma bnd_com:
  "bnd (com p ev) f s = f (respond p (calls s) ev) (s\<lparr>calls := calls s @ [ev]\<rparr>)"
  by (simp add: bnd_def com_def)

lemma bnd_get_self: "bnd get_self f s = f (self s) s"
  by (simp add: bnd_def get_self_def)

lemma bnd_modify_self: "bnd (modify_self g) f s = f () (s\<lparr>self := g (self s)\<rparr>)"
  by (simp add: bnd_def modify_self_def)

lemma bnd_GetNames:
  "bnd (GetNames p obj) f s =
     f (hr (respond p (calls s) (IWbemClassObject_GetNames obj GetNames_flags)),
        array_of p (calls s) obj)
       (s\<lparr>calls := calls s @ [IWbemClassObject_GetNames obj GetNames_flags]\<rparr>)"
  by (simp add: bnd_def GetNames_def array_of_def Let_def)

lemma bnd_Return: "m s = (Return x, s1) \<Longrightarrow> bnd m f s = f x s1"
  by (simp add: bnd_def)

lemma bnd_ReturnE:
  assumes "bnd m f s = (Return y, s')"
  obtains x s1 where "m s = (Return x, s1)" and "f x s1 = (Return y, s')"
  using assms by (auto simp add: bnd_def split: prod.splits outcome.splits)

lemma comD:
  "com p ev s = (Return r, s1) \<Longrightarrow>
     r = respond p (calls s) ev \<and> s1 = s\<lparr>calls := calls s @ [ev]\<rparr>"
  by (auto simp add: com_def)

lemma bnd_assoc: "bnd (bnd m f) g = bnd m (\<lambda>x. bnd (f x) g)"
  by (rule ext) (simp add: bnd_def split: prod.splits outcome.splits)

lemma bnd_ret_right: "bnd m ret = m"
  by (rule ext) (simp add: bnd_def ret_def split: prod.splits outcome.splits)

lemmas run_simps = bnd_ret_right bnd_assoc bnd_com bnd_get_self bnd_modify_self bnd_GetNames
  deref_def wstring_of_def ret_def throw_def fault_def out_of_fuel_def Let_def

lemmas eval_simps = bnd_def com_def ret_def throw_def fault_def get_self_def deref_def
  wstring_of_def throw_if_def modify_self_def out_of_fuel_def GetNames_def Let_def

lemma respond_demo: "respond demo = demo_respond" "Win32FromHResult demo = take_bit 16"
  by (simp_all add: demo_def)

lemmas demo_simps = respond_demo ok_def disk_def disk_property_def bstr_variant_def
  S_OK_def VT_NULL_def VT_BOOL_def VT_BSTR_def VT_LPWSTR_def fetched_def coerced_def

section \<open>The \<^verbatim>\<open>Services\<close> constructor\<close>

lemma Services_ctor_never_throws: "fst (Services_ctor p path s) \<noteq> Throw x"
  by (simp add: Services_ctor_def nothrow_def split: prod.splits outcome.splits)

text \<open>
  Claim C4. When a bootstrap step of the \<^verbatim>\<open>Services\<close> constructor answers an HRESULT
  other than \<^verbatim>\<open>S_OK\<close>, the claim wants an exception that reaches the caller. The
  statements of the constructor do throw, and no later step runs; but the constructor is
  declared \<^verbatim>\<open>throw()\<close>, so the exception ends the program at the constructor's boundary
  instead of reaching the \<^verbatim>\<open>catch\<close> clauses of \<^verbatim>\<open>main\<close>. Here
  \<^verbatim>\<open>CoInitializeSecurity\<close> answers \<^verbatim>\<open>E_FAIL\<close>.
\<close>

theorem Services_ctor_failure_terminates:
  "Services_ctor (fail_at CoInitializeSecurity E_FAIL demo) ''ROOT'' unconnected =
     (Fault Terminate, \<lparr>self = \<lparr>m_pService = None\<rparr>, calls = [CoInitializeSecurity]\<rparr>) \<and>
   Services_body (fail_at CoInitializeSecurity E_FAIL demo) ''ROOT'' unconnected =
     (Throw (WmiError 0x4005),
      \<lparr>self = \<lparr>m_pService = None\<rparr>, calls = [CoInitializeSecurity]\<rparr>)"
  by (simp add: Services_ctor_def Services_body_def nothrow_def bnd_com fail_at_def
      unconnected_def demo_def ok_def S_OK_def E_FAIL_def throw_def s_error_def)

section \<open>\<^verbatim>\<open>Object::GetValue\<close>\<close>

lemma low_byte: "((ucast (w :: 64 word) :: 8 word) \<noteq> 0) = (take_bit 8 w \<noteq> 0)"
  apply (auto simp add: bit_eq_iff bit_ucast_iff bit_take_bit_iff dest: bit_imp_le_length)
  subgoal for n by (rule exI[of _ n]) simp
  done

lemma GetValue_eq:
  assumes "m_pObj (self s) = Some obj"
  shows "GetValue p property s =
    (let s1 = s\<lparr>calls := calls s @ [IWbemClassObject_Get obj property]\<rparr>;
         r = respond p (calls s) (IWbemClassObject_Get obj property) in
     if hr r \<noteq> S_OK then (Throw (s_error p (hr r)), s1)
     else if vt (var r) = VT_NULL then (Return ''NULL'', s1)
     else if vt (var r) = VT_BOOL then
       (Return (if bVal (var r) \<noteq> 0 then ''true'' else ''false''), s1)
     else if vt (var r) = VT_LPWSTR \<or> vt (var r) = VT_BSTR then
       (case wstr (var r) of Some w \<Rightarrow> (Return w, s1) | None \<Rightarrow> (Fault NullString, s1))
     else (let s2 = s1\<lparr>calls := calls s1 @ [VariantChangeType (var r) VT_BSTR]\<rparr>;
               c = respond p (calls s1) (VariantChangeType (var r) VT_BSTR) in
           case wstr (var c) of
             Some w \<Rightarrow> (Return w, s2) | None \<Rightarrow> (Fault NullString, s2)))"
  using assms
  by (simp add: GetValue_def bnd_get_self bnd_com deref_def wstring_of_def Let_def ret_def
      throw_def fault_def split: option.splits)

text \<open>
  Claim C9. \<^verbatim>\<open>Object::GetValue\<close>, on an object whose \<^verbatim>\<open>Get\<close> succeeds, converts the
  fetched variant by its type: \<^verbatim>\<open>VT_NULL\<close> gives the string \<^verbatim>\<open>NULL\<close>; \<^verbatim>\<open>VT_BOOL\<close> gives
  \<^verbatim>\<open>true\<close> exactly when the low byte of the union (\<^verbatim>\<open>bVal\<close>) is not zero, and
  \<^verbatim>\<open>false\<close> otherwise; \<^verbatim>\<open>VT_LPWSTR\<close> and \<^verbatim>\<open>VT_BSTR\<close> give the string itself; every
  other type gives the string of the variant that \<^verbatim>\<open>ChangeType(VT_BSTR)\<close> leaves. Where a
  string is read, a pointer that addresses no string is a fault.
\<close>

theorem GetValue_by_variant_type:
  assumes "m_pObj (self s) = Some obj"
      and "hr (respond p (calls s) (IWbemClassObject_Get obj property)) = S_OK"
  shows "fst (GetValue p property s) =
     (if vt (fetched p (calls s) obj property) = VT_NULL then Return ''NULL''
      else if vt (fetched p (calls s) obj property) = VT_BOOL then
        Return (if take_bit 8 (bits (fetched p (calls s) obj property)) \<noteq> 0
                then ''true'' else ''false'')
      else if vt (fetched p (calls s) obj property) = VT_LPWSTR \<or>
              vt (fetched p (calls s) obj property) = VT_BSTR then
        (case wstr (fetched p (calls s) obj property) of
           Some w \<Rightarrow> Return w | None \<Rightarrow> Fault NullString)
      else
        (case wstr (coerced p (calls s) obj property) of
           Some w \<Rightarrow> Return w | None \<Rightarrow> Fault NullString))"
  using assms
  by (simp add: GetValue_eq Let_def fetched_def coerced_def bVal_def low_byte
      split: option.splits)

theorem GetValue_by_variant_type_witness:
  "fst (GetValue demo ''Compressed'' disk) = Return ''false'' \<and>
   boolVal (fetched demo [] 1 ''Compressed'') \<noteq> 0 \<and>
   fst (GetValue demo ''VolumeName'' disk) = Return ''NULL'' \<and>
   fst (GetValue demo ''DeviceID'' disk) = Return ''G:'' \<and>
   fst (GetValue demo ''BlockSize'' disk) = Return ''512''"
  using GetValue_by_variant_type [of disk 1 demo "''Compressed''"]
        GetValue_by_variant_type [of disk 1 demo "''VolumeName''"]
        GetValue_by_variant_type [of disk 1 demo "''DeviceID''"]
        GetValue_by_variant_type [of disk 1 demo "''BlockSize''"]
  by (simp add: demo_simps boolVal_def)

section \<open>\<^verbatim>\<open>EnumNames\<close> and \<^verbatim>\<open>Object::GetProperties\<close>\<close>

lemma emitsD:
  "emits Q m \<Longrightarrow> m s = (out, s') \<Longrightarrow>
     \<exists>evs. calls s' = calls s @ evs \<and> list_all Q evs \<and> self s' = self s"
  unfolding emits_def by (metis snd_conv)

lemma emits_ret [simp]: "emits Q (ret x)" by (simp add: emits_def ret_def)
lemma emits_throw [simp]: "emits Q (throw x)" by (simp add: emits_def throw_def)
lemma emits_fault [simp]: "emits Q (fault x)" by (simp add: emits_def fault_def)
lemma emits_out_of_fuel [simp]: "emits Q out_of_fuel" by (simp add: emits_def out_of_fuel_def)
lemma emits_get_self [simp]: "emits Q get_self" by (simp add: emits_def get_self_def)
lemma emits_throw_if [simp]: "emits Q (throw_if c x)" by (simp add: throw_if_def)
lemma emits_deref [simp]: "emits Q (deref n q)" by (simp add: deref_def split: option.splits)
lemma emits_wstring_of [simp]: "emits Q (wstring_of q)" by (simp add: wstring_of_def split: option.splits)
lemma emits_com: "Q ev \<Longrightarrow> emits Q (com p ev)" by (simp add: emits_def com_def)

lemma emits_bnd:
  assumes "emits Q m" and "\<And>x. emits Q (f x)"
  shows "emits Q (bnd m f)"
proof (unfold emits_def, intro allI)
  fix s
  obtain out s1 where m: "m s = (out, s1)" by (cases "m s")
  from emitsD[OF assms(1) m] obtain e1 where
    e1: "calls s1 = calls s @ e1" "list_all Q e1" "self s1 = self s" by auto
  show "\<exists>evs. calls (snd (bnd m f s)) = calls s @ evs \<and> list_all Q evs \<and>
          self (snd (bnd m f s)) = self s"
  proof (cases out)
    case (Return x)
    obtain o2 s2 where f: "f x s1 = (o2, s2)" by (cases "f x s1")
    from emitsD[OF assms(2) f] obtain e2 where
      e2: "calls s2 = calls s1 @ e2" "list_all Q e2" "self s2 = self s1" by auto
    from m Return f have "snd (bnd m f s) = s2" by (simp add: bnd_def)
    with e1 e2 show ?thesis by (intro exI[of _ "e1 @ e2"]) simp
  qed (use m e1 in \<open>auto simp add: bnd_def\<close>)
qed

lemma emits_if: "emits Q a \<Longrightarrow> emits Q b \<Longrightarrow> emits Q (if c then a else b)"
  by simp

lemma emits_mono: "emits Q m \<Longrightarrow> (\<And>e. Q e \<Longrightarrow> R e) \<Longrightarrow> emits R m"
  unfolding emits_def by (metis (mono_tags, lifting) list.pred_mono_strong)

lemma EnumNames_loop_step:
  "EnumNames_loop p psa (i # is) acc s =
    (let r = respond p (calls s) (SafeArrayGetElement psa i);
         s1 = s\<lparr>calls := calls s @ [SafeArrayGetElement psa i]\<rparr> in
     if hr r \<noteq> S_OK then (Throw (s_error p (hr r)), s1)
     else case bstr r of None \<Rightarrow> (Fault NullString, s1)
          | Some nm \<Rightarrow> EnumNames_loop p psa is (acc @ [nm]) s1)"
  by (simp add: bnd_com Let_def wstring_of_def throw_def fault_def split: option.splits)

lemma EnumNames_loop_Return:
  "EnumNames_loop p psa is acc s = (Return names, s') \<Longrightarrow>
     map Some names = map Some acc @ SafeArray_read p (calls s) psa is"
proof (induction "is" arbitrary: acc s)
  case Nil
  then show ?case by (simp add: ret_def)
next
  case (Cons i "is")
  show ?case
    using Cons.prems Cons.IH
    by (auto simp add: EnumNames_loop_step Let_def simp del: EnumNames_loop.simps
        split: if_splits option.splits)
qed

lemma emits_EnumNames_loop: "emits sa_read (EnumNames_loop p psa is acc)"
  by (induction "is" arbitrary: acc)
     (auto simp add: sa_read_def intro!: emits_bnd emits_com)

lemma emits_EnumNames_scope: "emits sa_read (EnumNames_scope p psa)"
  unfolding EnumNames_scope_def
  by (intro emits_bnd emits_com emits_EnumNames_loop emits_if emits_throw_if emits_ret emits_fault)
     (simp_all add: sa_read_def)

lemma EnumNames_scope_Return:
  assumes "EnumNames_scope p psa s = (Return names, s')"
  shows "map Some names =
     SafeArray_read p (calls s @ [SafeArrayGetLBound psa, SafeArrayGetUBound psa]) psa
       [lower p (calls s) psa .. upper p (calls s) psa]"
  using assms unfolding EnumNames_scope_def lower_def upper_def
  by (auto elim!: bnd_ReturnE dest!: comD EnumNames_loop_Return
      simp add: ret_def fault_def throw_def split: if_splits)

lemma with_SAHandle_ReturnD:
  "with_SAHandle p psa body s = (Return x, s') \<Longrightarrow> \<exists>s0. body s = (Return x, s0)"
  by (auto simp add: with_SAHandle_def split: prod.splits outcome.splits)

lemma with_SAHandle_Some:
  assumes "with_SAHandle p (Some a) body s = (out, s')" and "exits out"
  shows "\<exists>s0. calls s' = calls s0 @ [SafeArrayDestroy a] \<and> self s' = self s0 \<and>
           body s = (out, s0)"
  using assms
  by (auto simp add: with_SAHandle_def SAHandle_dtor_def bnd_com exits_def ret_def fault_def
      split: prod.splits outcome.splits if_splits)

lemma with_SAHandle_None: "with_SAHandle p None body s = body s"
  by (auto simp add: with_SAHandle_def SAHandle_dtor_def ret_def
      split: prod.splits outcome.splits)

lemma EnumNames_eq:
  "EnumNames p (Some obj) s =
     (let g = respond p (calls s) (IWbemClassObject_GetNames obj GetNames_flags);
          s1 = s\<lparr>calls := calls s @ [IWbemClassObject_GetNames obj GetNames_flags]\<rparr>;
          psa = array_of p (calls s) obj
      in if hr g \<noteq> S_OK then (Throw (s_error p (hr g)), s1)
         else with_SAHandle p psa (EnumNames_scope p psa) s1)"
  by (simp add: EnumNames_def deref_def bnd_GetNames Let_def throw_def)

lemma length_SafeArray_read [simp]: "length (SafeArray_read p h psa is) = length is"
  by (induction "is" arbitrary: h) auto

lemma SafeArray_read_nth:
  "k < length is \<Longrightarrow>
   SafeArray_read p h psa is ! k =
     bstr (respond p (h @ map (SafeArrayGetElement psa) (take k is))
            (SafeArrayGetElement psa (is ! k)))"
proof (induction "is" arbitrary: h k)
  case Nil
  then show ?case by simp
next
  case (Cons i "is")
  then show ?case by (cases k) auto
qed

lemma take_upto: "k \<le> length [l..u] \<Longrightarrow> take k [l..u] = [l .. l + int k - 1]"
proof (induction k)
  case 0
  then show ?case by simp
next
  case (Suc k)
  then have "k < length [l..u]" by simp
  then have "take (Suc k) [l..u] = take k [l..u] @ [[l..u] ! k]"
    by (simp add: take_Suc_conv_app_nth)
  also have "\<dots> = [l .. l + int k - 1] @ [l + int k]"
    using Suc by simp
  also have "\<dots> = [l .. l + int (Suc k) - 1]"
    using upto_rec2[of l "l + int k"] by simp
  finally show ?case .
qed

lemma read_index_order:
  assumes "map Some names = SafeArray_read p h2 psa [l..u]"
  shows "length names = nat (u - l + 1) \<and>
         list_all (\<lambda>k. Some (names ! k) =
                     bstr (respond p (h2 @ map (SafeArrayGetElement psa) [l .. l + int k - 1])
                            (SafeArrayGetElement psa (l + int k))))
           [0 ..< length names]"
proof -
  from assms have len: "length names = length [l..u]"
    by (metis length_SafeArray_read length_map)
  have "Some (names ! k) =
          bstr (respond p (h2 @ map (SafeArrayGetElement psa) [l .. l + int k - 1])
                 (SafeArrayGetElement psa (l + int k)))" if "k < length names" for k
  proof -
    from that have "Some (names ! k) = map Some names ! k" by simp
    also have "\<dots> = SafeArray_read p h2 psa [l..u] ! k" using assms by simp
    also have "\<dots> = bstr (respond p (h2 @ map (SafeArrayGetElement psa) (take k [l..u]))
            (SafeArrayGetElement psa ([l..u] ! k)))"
      using that len by (intro SafeArray_read_nth) simp
    finally show ?thesis using that len by (simp add: take_upto)
  qed
  with len show ?thesis by (simp add: list_all_iff)
qed

lemma EnumNames_Return:
  assumes "EnumNames p (Some obj) s = (Return names, s')"
  shows "names_in_index_order p (calls s) obj names"
proof -
  let ?h1 = "calls s @ [IWbemClassObject_GetNames obj GetNames_flags]"
  let ?psa = "array_of p (calls s) obj"
  from assms have "map Some names =
     SafeArray_read p (?h1 @ [SafeArrayGetLBound ?psa, SafeArrayGetUBound ?psa]) ?psa
       [lower p ?h1 ?psa .. upper p ?h1 ?psa]"
    by (auto simp add: EnumNames_eq Let_def split: if_splits
        dest!: with_SAHandle_ReturnD EnumNames_scope_Return)
  then show ?thesis
    unfolding names_in_index_order_def Let_def by (rule read_index_order)
qed

lemma GetProperties_eq:
  assumes "m_pObj (self s) = Some obj"
  shows "GetProperties p s =
     (let g = respond p (calls s) (IWbemClassObject_GetNames obj GetNames_flags);
          s1 = s\<lparr>calls := calls s @ [IWbemClassObject_GetNames obj GetNames_flags]\<rparr>;
          psa = array_of p (calls s) obj
      in if hr g \<noteq> S_OK then (Throw (s_error p (hr g)), s1)
         else with_SAHandle p psa (EnumNames p (Some obj)) s1)"
  using assms
  by (simp add: GetProperties_def bnd_get_self deref_def bnd_GetNames Let_def throw_def)

lemma upto_0_1: "[0..1::int] = [0, 1]"
  by (simp add: upto.simps)

lemma EnumNames_demo:
  "EnumNames demo (Some 1) disk =
     (Return [''DeviceID'', ''VolumeName''],
      disk\<lparr>calls := [IWbemClassObject_GetNames 1 GetNames_flags, SafeArrayGetLBound (Some 0),
                      SafeArrayGetUBound (Some 0), SafeArrayGetElement (Some 0) 0,
                      SafeArrayGetElement (Some 0) 1, SafeArrayDestroy 0]\<rparr>)"
  by (simp add: EnumNames_eq Let_def demo_simps array_of_def with_SAHandle_def SAHandle_dtor_def
      EnumNames_scope_def run_simps upto_0_1 LONG_MAX_def)

lemma GetProperties_demo:
  "GetProperties demo disk =
     (Return [''DeviceID'', ''VolumeName''],
      disk\<lparr>calls := [IWbemClassObject_GetNames 1 GetNames_flags,
                      IWbemClassObject_GetNames 1 GetNames_flags, SafeArrayGetLBound (Some 1),
                      SafeArrayGetUBound (Some 1), SafeArrayGetElement (Some 1) 0,
                      SafeArrayGetElement (Some 1) 1, SafeArrayDestroy 1, SafeArrayDestroy 0]\<rparr>)"
  by (simp add: GetProperties_eq[of _ 1] EnumNames_eq Let_def demo_simps array_of_def with_SAHandle_def SAHandle_dtor_def
      EnumNames_scope_def run_simps upto_0_1 LONG_MAX_def)

lemma EnumNames_loop_total:
  "SafeArray_readable p (calls s) psa is \<Longrightarrow>
   EnumNames_loop p psa is acc s =
     (Return (acc @ map the (SafeArray_read p (calls s) psa is)),
      s\<lparr>calls := calls s @ map (SafeArrayGetElement psa) is\<rparr>)"
proof (induction "is" arbitrary: acc s)
  case Nil
  then show ?case by (simp add: ret_def)
next
  case (Cons i "is")
  from Cons.prems obtain nm where
    nm: "bstr (respond p (calls s) (SafeArrayGetElement psa i)) = Some nm"
    and ok: "hr (respond p (calls s) (SafeArrayGetElement psa i)) = S_OK"
    and rest: "SafeArray_readable p (calls s @ [SafeArrayGetElement psa i]) psa is"
    by auto
  from Cons.IH[of "s\<lparr>calls := calls s @ [SafeArrayGetElement psa i]\<rparr>" "acc @ [nm]"] rest nm ok
  show ?case
    by (simp add: EnumNames_loop_step Let_def del: EnumNames_loop.simps)
qed

lemma EnumNames_scope_total:
  assumes "hr (respond p (calls s) (SafeArrayGetLBound psa)) = S_OK"
      and "hr (respond p (calls s @ [SafeArrayGetLBound psa]) (SafeArrayGetUBound psa)) = S_OK"
      and "SafeArray_readable p (calls s @ [SafeArrayGetLBound psa, SafeArrayGetUBound psa]) psa
             [lower p (calls s) psa .. upper p (calls s) psa]"
      and "upper p (calls s) psa < lower p (calls s) psa \<or> upper p (calls s) psa \<noteq> LONG_MAX"
  shows "EnumNames_scope p psa s =
     (Return (map the (SafeArray_read p (calls s @ [SafeArrayGetLBound psa, SafeArrayGetUBound psa])
                        psa [lower p (calls s) psa .. upper p (calls s) psa])),
      s\<lparr>calls := calls s @ [SafeArrayGetLBound psa, SafeArrayGetUBound psa] @
                 map (SafeArrayGetElement psa) [lower p (calls s) psa .. upper p (calls s) psa]\<rparr>)"
proof -
  let ?s2 = "s\<lparr>calls := calls s @ [SafeArrayGetLBound psa, SafeArrayGetUBound psa]\<rparr>"
  from assms(3) have
    "EnumNames_loop p psa [lower p (calls s) psa .. upper p (calls s) psa] [] ?s2 =
       (Return ([] @ map the (SafeArray_read p (calls ?s2) psa
                   [lower p (calls s) psa .. upper p (calls s) psa])),
        ?s2\<lparr>calls := calls ?s2 @
           map (SafeArrayGetElement psa) [lower p (calls s) psa .. upper p (calls s) psa]\<rparr>)"
    by (intro EnumNames_loop_total) simp
  with assms(1,2,4) show ?thesis
    unfolding EnumNames_scope_def lower_def upper_def
    by (auto simp add: bnd_com bnd_Return ret_def)
qed


lemma with_SAHandle_total:
  assumes "body s = (Return x, s0)"
      and "case psa of None \<Rightarrow> True
           | Some a \<Rightarrow> hr (respond p (calls s0) (SafeArrayDestroy a)) = S_OK"
  shows "with_SAHandle p psa body s = (Return x, s0\<lparr>calls := calls s0 @ dtor_calls psa\<rparr>)"
  using assms
  by (cases psa)
     (simp_all add: with_SAHandle_def SAHandle_dtor_def dtor_calls_def bnd_com ret_def)

lemma EnumNames_total:
  assumes "EnumNames_succeeds p (calls s) obj"
  shows "EnumNames p (Some obj) s =
     (Return (EnumNames_names p (calls s) obj),
      s\<lparr>calls := calls s @ EnumNames_trace p (calls s) obj\<rparr>)"
proof -
  let ?G = "IWbemClassObject_GetNames obj GetNames_flags"
  let ?s1 = "s\<lparr>calls := calls s @ [?G]\<rparr>"
  let ?psa = "array_of p (calls s) obj"
  let ?l = "lower p (calls ?s1) ?psa" and ?u = "upper p (calls ?s1) ?psa"
  let ?s3 = "?s1\<lparr>calls := calls ?s1 @ [SafeArrayGetLBound ?psa, SafeArrayGetUBound ?psa] @
                 map (SafeArrayGetElement ?psa) [?l .. ?u]\<rparr>"
  from assms have ok: "hr (respond p (calls s) ?G) = S_OK"
    by (simp add: EnumNames_succeeds_def Let_def)
  from assms have
    "EnumNames_scope p ?psa ?s1 =
       (Return (map the (SafeArray_read p
                  (calls ?s1 @ [SafeArrayGetLBound ?psa, SafeArrayGetUBound ?psa]) ?psa [?l .. ?u])),
        ?s3)"
    by (intro EnumNames_scope_total) (simp_all add: EnumNames_succeeds_def Let_def)
  moreover from assms have
    "case ?psa of None \<Rightarrow> True
     | Some a \<Rightarrow> hr (respond p (calls ?s3) (SafeArrayDestroy a)) = S_OK"
    by (simp add: EnumNames_succeeds_def Let_def split: option.splits)
  ultimately have
    "with_SAHandle p ?psa (EnumNames_scope p ?psa) ?s1 =
       (Return (map the (SafeArray_read p
                  (calls ?s1 @ [SafeArrayGetLBound ?psa, SafeArrayGetUBound ?psa]) ?psa [?l .. ?u])),
        ?s3\<lparr>calls := calls ?s3 @ dtor_calls ?psa\<rparr>)"
    by (rule with_SAHandle_total)
  with ok show ?thesis
    by (simp add: EnumNames_eq Let_def EnumNames_names_def EnumNames_trace_def)
qed

lemma GetProperties_total:
  assumes "m_pObj (self s) = Some obj" and "GetProperties_succeeds p (calls s) obj"
  shows "GetProperties p s =
     (Return (EnumNames_names p (calls s @ [IWbemClassObject_GetNames obj GetNames_flags]) obj),
      s\<lparr>calls := calls s @ IWbemClassObject_GetNames obj GetNames_flags #
           EnumNames_trace p (calls s @ [IWbemClassObject_GetNames obj GetNames_flags]) obj @
           dtor_calls (array_of p (calls s) obj)\<rparr>)"
proof -
  let ?G = "IWbemClassObject_GetNames obj GetNames_flags"
  let ?s1 = "s\<lparr>calls := calls s @ [?G]\<rparr>"
  from assms(2) have ok: "hr (respond p (calls s) ?G) = S_OK"
    and e: "EnumNames_succeeds p (calls ?s1) obj"
    and d: "case array_of p (calls s) obj of None \<Rightarrow> True
        | Some a \<Rightarrow> hr (respond p (calls (?s1\<lparr>calls := calls ?s1 @ EnumNames_trace p (calls ?s1) obj\<rparr>))
                       (SafeArrayDestroy a)) = S_OK"
    by (simp_all add: GetProperties_succeeds_def Let_def split: option.splits)
  from EnumNames_total[OF e] d
  have "with_SAHandle p (array_of p (calls s) obj) (EnumNames p (Some obj)) ?s1 =
      (Return (EnumNames_names p (calls ?s1) obj),
       (?s1\<lparr>calls := calls ?s1 @ EnumNames_trace p (calls ?s1) obj\<rparr>)
         \<lparr>calls := calls (?s1\<lparr>calls := calls ?s1 @ EnumNames_trace p (calls ?s1) obj\<rparr>) @
            dtor_calls (array_of p (calls s) obj)\<rparr>)"
    by (rule with_SAHandle_total)
  with ok assms(1) show ?thesis
    by (simp add: GetProperties_eq Let_def)
qed

lemma SafeArray_readable_Some:
  "SafeArray_readable p h psa is \<Longrightarrow>
     map Some (map the (SafeArray_read p h psa is)) = SafeArray_read p h psa is"
  by (induction "is" arbitrary: h) auto

lemma EnumNames_names_in_order:
  assumes "EnumNames_succeeds p h obj"
  shows "names_in_index_order p h obj (EnumNames_names p h obj)"
proof -
  from assms have "map Some (EnumNames_names p h obj) =
      SafeArray_read p ((h @ [IWbemClassObject_GetNames obj GetNames_flags]) @
          [SafeArrayGetLBound (array_of p h obj), SafeArrayGetUBound (array_of p h obj)])
        (array_of p h obj)
        [lower p (h @ [IWbemClassObject_GetNames obj GetNames_flags]) (array_of p h obj) ..
         upper p (h @ [IWbemClassObject_GetNames obj GetNames_flags]) (array_of p h obj)]"
    unfolding EnumNames_names_def EnumNames_succeeds_def Let_def
    by (intro SafeArray_readable_Some) simp
  then show ?thesis
    unfolding names_in_index_order_def Let_def by (rule read_index_order)
qed


text \<open>
  Claim C5. \<^verbatim>\<open>EnumNames\<close> returns the names of the array that \<^verbatim>\<open>GetNames\<close> hands out
  (asked with \<^verbatim>\<open>WBEM_FLAG_NONSYSTEM_ONLY\<close>) in index order, one entry for each index from
  the lower bound to the upper bound inclusive: whenever its calls succeed it returns
  exactly those names, and whatever it returns is those names; so for an array whose
  upper bound is at least its lower bound minus one, the length of the result is upper
  bound minus lower bound plus one. \<^verbatim>\<open>Object::GetProperties\<close> returns what the
  \<^verbatim>\<open>EnumNames\<close> it calls returns, hence the same.
\<close>

theorem EnumNames_index_order:
  "(EnumNames_succeeds p (calls s) obj \<longrightarrow>
      fst (EnumNames p (Some obj) s) = Return (EnumNames_names p (calls s) obj) \<and>
      names_in_index_order p (calls s) obj (EnumNames_names p (calls s) obj)) \<and>
   (EnumNames p (Some obj) s = (Return names, s') \<longrightarrow>
      names_in_index_order p (calls s) obj names \<and>
      (lower p (calls s @ [IWbemClassObject_GetNames obj GetNames_flags]) (array_of p (calls s) obj)
         \<le> upper p (calls s @ [IWbemClassObject_GetNames obj GetNames_flags]) (array_of p (calls s) obj) + 1 \<longrightarrow>
       int (length names) =
         upper p (calls s @ [IWbemClassObject_GetNames obj GetNames_flags]) (array_of p (calls s) obj)
         - lower p (calls s @ [IWbemClassObject_GetNames obj GetNames_flags]) (array_of p (calls s) obj) + 1)) \<and>
   (m_pObj (self t) = Some obj \<and> GetProperties_succeeds p (calls t) obj \<longrightarrow>
      fst (GetProperties p t) =
        Return (EnumNames_names p (calls t @ [IWbemClassObject_GetNames obj GetNames_flags]) obj) \<and>
      names_in_index_order p (calls t @ [IWbemClassObject_GetNames obj GetNames_flags]) obj
        (EnumNames_names p (calls t @ [IWbemClassObject_GetNames obj GetNames_flags]) obj)) \<and>
   (m_pObj (self t) = Some obj \<and> GetProperties p t = (Return names, t') \<longrightarrow>
      names_in_index_order p (calls t @ [IWbemClassObject_GetNames obj GetNames_flags]) obj names)"
proof (intro conjI impI)
  assume e: "EnumNames_succeeds p (calls s) obj"
  from EnumNames_total[OF e]
  show "fst (EnumNames p (Some obj) s) = Return (EnumNames_names p (calls s) obj)" by simp
  from EnumNames_names_in_order[OF e]
  show "names_in_index_order p (calls s) obj (EnumNames_names p (calls s) obj)" .
next
  assume r: "EnumNames p (Some obj) s = (Return names, s')"
  from EnumNames_Return[OF r] show n: "names_in_index_order p (calls s) obj names" .
  assume "lower p (calls s @ [IWbemClassObject_GetNames obj GetNames_flags]) (array_of p (calls s) obj)
         \<le> upper p (calls s @ [IWbemClassObject_GetNames obj GetNames_flags]) (array_of p (calls s) obj) + 1"
  with n show "int (length names) =
         upper p (calls s @ [IWbemClassObject_GetNames obj GetNames_flags]) (array_of p (calls s) obj)
         - lower p (calls s @ [IWbemClassObject_GetNames obj GetNames_flags]) (array_of p (calls s) obj) + 1"
    by (simp add: names_in_index_order_def Let_def)
next
  assume a: "m_pObj (self t) = Some obj \<and> GetProperties_succeeds p (calls t) obj"
  from GetProperties_total[of t obj p] a
  show "fst (GetProperties p t) =
        Return (EnumNames_names p (calls t @ [IWbemClassObject_GetNames obj GetNames_flags]) obj)"
    by simp
  from a have "EnumNames_succeeds p (calls t @ [IWbemClassObject_GetNames obj GetNames_flags]) obj"
    by (simp add: GetProperties_succeeds_def Let_def)
  from EnumNames_names_in_order[OF this]
  show "names_in_index_order p (calls t @ [IWbemClassObject_GetNames obj GetNames_flags]) obj
        (EnumNames_names p (calls t @ [IWbemClassObject_GetNames obj GetNames_flags]) obj)" .
next
  assume "m_pObj (self t) = Some obj \<and> GetProperties p t = (Return names, t')"
  then obtain s0 where "EnumNames p (Some obj)
      (t\<lparr>calls := calls t @ [IWbemClassObject_GetNames obj GetNames_flags]\<rparr>) = (Return names, s0)"
    by (auto simp add: GetProperties_eq Let_def split: if_splits dest!: with_SAHandle_ReturnD)
  from EnumNames_Return[OF this]
  show "names_in_index_order p (calls t @ [IWbemClassObject_GetNames obj GetNames_flags]) obj names"
    by simp
qed

theorem EnumNames_index_order_witness:
  "fst (EnumNames demo (Some 1) disk) = Return [''DeviceID'', ''VolumeName''] \<and>
   fst (GetProperties demo disk) = Return [''DeviceID'', ''VolumeName''] \<and>
   names_in_index_order demo (calls disk) 1 [''DeviceID'', ''VolumeName''] \<and>
   int (length [''DeviceID'', ''VolumeName'']) =
     upper demo (calls disk @ [IWbemClassObject_GetNames 1 GetNames_flags])
         (array_of demo (calls disk) 1)
       - lower demo (calls disk @ [IWbemClassObject_GetNames 1 GetNames_flags])
         (array_of demo (calls disk) 1) + 1 \<and>
   names_in_index_order demo (calls disk @ [IWbemClassObject_GetNames 1 GetNames_flags]) 1
     [''DeviceID'', ''VolumeName'']"
proof -
  have a: "array_of demo [] 1 = Some 0" "calls disk = []" "m_pObj (self disk) = Some 1"
    "array_of demo [IWbemClassObject_GetNames 1 GetNames_flags] 1 = Some 1"
    by (simp_all add: array_of_def demo_simps)
  have b: "lower demo (calls disk @ [IWbemClassObject_GetNames 1 GetNames_flags])
             (array_of demo (calls disk) 1)
        \<le> upper demo (calls disk @ [IWbemClassObject_GetNames 1 GetNames_flags])
             (array_of demo (calls disk) 1) + 1"
    by (simp add: lower_def upper_def demo_simps)
  have e: "EnumNames_succeeds demo (calls disk) 1"
    by (simp add: EnumNames_succeeds_def a lower_def upper_def upto_0_1 LONG_MAX_def demo_simps
        del: One_nat_def)
  have g: "GetProperties_succeeds demo (calls disk) 1"
    by (simp add: GetProperties_succeeds_def EnumNames_succeeds_def EnumNames_trace_def a
        lower_def upper_def upto_0_1 LONG_MAX_def dtor_calls_def demo_simps del: One_nat_def)
  have n: "EnumNames_names demo (calls disk) 1 = [''DeviceID'', ''VolumeName'']"
    "EnumNames_names demo (calls disk @ [IWbemClassObject_GetNames 1 GetNames_flags]) 1 =
       [''DeviceID'', ''VolumeName'']"
    by (simp_all add: EnumNames_names_def a lower_def upper_def upto_0_1 demo_simps
        del: One_nat_def)
  note t = EnumNames_index_order [of demo disk 1 "[''DeviceID'', ''VolumeName'']"
        "snd (EnumNames demo (Some 1) disk)" disk "snd (GetProperties demo disk)"]
  from t e have r1: "fst (EnumNames demo (Some 1) disk) = Return (EnumNames_names demo (calls disk) 1)"
    by blast
  from t g a(3) have r2: "fst (GetProperties demo disk) =
      Return (EnumNames_names demo (calls disk @ [IWbemClassObject_GetNames 1 GetNames_flags]) 1)"
    by blast
  from r1 have p1: "EnumNames demo (Some 1) disk =
      (Return [''DeviceID'', ''VolumeName''], snd (EnumNames demo (Some 1) disk))"
    unfolding n by (metis prod.collapse)
  from r2 have p2: "GetProperties demo disk =
      (Return [''DeviceID'', ''VolumeName''], snd (GetProperties demo disk))"
    unfolding n by (metis prod.collapse)
  from t p1 p2 a(3) b r1[unfolded n] r2[unfolded n] show ?thesis
    by blast
qed

section \<open>Cleanup of the name arrays\<close>

lemma count_sa_read:
  "list_all sa_read evs \<Longrightarrow> count_list evs (SafeArrayDestroy b) = 0"
  by (induction evs) (auto simp add: sa_read_def)

lemma count_sa_read_GetNames:
  "list_all sa_read evs \<Longrightarrow> count_list evs (IWbemClassObject_GetNames a b) = 0"
  by (induction evs) (auto simp add: sa_read_def)

lemma with_SAHandle_exits:
  assumes "with_SAHandle p psa body s = (out, s')" and "exits out"
  shows "\<exists>s0. calls s' = calls s0 @ dtor_calls psa \<and> self s' = self s0 \<and> body s = (out, s0)"
proof (cases psa)
  case None
  with assms show ?thesis by (simp add: with_SAHandle_None dtor_calls_def)
next
  case (Some a)
  with with_SAHandle_Some[of p a body s out s'] assms show ?thesis
    by (simp add: dtor_calls_def)
qed

lemma EnumNames_calls:
  assumes "EnumNames p (Some obj) s = (out, s')" and "exits out"
  shows "\<exists>evs. list_all sa_read evs \<and> self s' = self s \<and>
           calls s' = calls s @ IWbemClassObject_GetNames obj GetNames_flags #
             (if hr (respond p (calls s) (IWbemClassObject_GetNames obj GetNames_flags)) = S_OK
              then evs @ dtor_calls (array_of p (calls s) obj) else [])"
proof (cases "hr (respond p (calls s) (IWbemClassObject_GetNames obj GetNames_flags)) = S_OK")
  case False
  with assms show ?thesis by (intro exI[of _ "[]"]) (auto simp add: EnumNames_eq Let_def)
next
  case True
  let ?s1 = "s\<lparr>calls := calls s @ [IWbemClassObject_GetNames obj GetNames_flags]\<rparr>"
  let ?psa = "array_of p (calls s) obj"
  from assms True have "with_SAHandle p ?psa (EnumNames_scope p ?psa) ?s1 = (out, s')"
    by (simp add: EnumNames_eq Let_def)
  from with_SAHandle_exits[OF this assms(2)] obtain s0 where
    s0: "calls s' = calls s0 @ dtor_calls ?psa" "self s' = self s0"
        "EnumNames_scope p ?psa ?s1 = (out, s0)" by blast
  from emitsD[OF emits_EnumNames_scope s0(3)] obtain evs where
    "calls s0 = calls ?s1 @ evs" "list_all sa_read evs" "self s0 = self ?s1" by blast
  with s0 True show ?thesis by (intro exI[of _ evs]) simp
qed

lemma GetProperties_calls:
  assumes "m_pObj (self s) = Some obj" and "GetProperties p s = (out, s')" and "exits out"
  shows "\<exists>evs. list_all sa_read evs \<and> self s' = self s \<and>
           calls s' = calls s @ IWbemClassObject_GetNames obj GetNames_flags #
             (if hr (respond p (calls s) (IWbemClassObject_GetNames obj GetNames_flags)) = S_OK
              then IWbemClassObject_GetNames obj GetNames_flags #
                (if hr (respond p (calls s @ [IWbemClassObject_GetNames obj GetNames_flags])
                          (IWbemClassObject_GetNames obj GetNames_flags)) = S_OK
                 then evs @ dtor_calls (array_of p (calls s @ [IWbemClassObject_GetNames obj GetNames_flags]) obj)
                 else []) @ dtor_calls (array_of p (calls s) obj)
              else [])"
proof (cases "hr (respond p (calls s) (IWbemClassObject_GetNames obj GetNames_flags)) = S_OK")
  case False
  with assms show ?thesis by (intro exI[of _ "[]"]) (auto simp add: GetProperties_eq Let_def)
next
  case True
  let ?s1 = "s\<lparr>calls := calls s @ [IWbemClassObject_GetNames obj GetNames_flags]\<rparr>"
  let ?psa = "array_of p (calls s) obj"
  from assms True have "with_SAHandle p ?psa (EnumNames p (Some obj)) ?s1 = (out, s')"
    by (simp add: GetProperties_eq Let_def)
  from with_SAHandle_exits[OF this assms(3)] obtain s0 where
    s0: "calls s' = calls s0 @ dtor_calls ?psa" "self s' = self s0"
        "EnumNames p (Some obj) ?s1 = (out, s0)" by blast
  from EnumNames_calls[OF s0(3) assms(3)] obtain evs where
    "list_all sa_read evs" "self s0 = self ?s1"
    "calls s0 = calls ?s1 @ IWbemClassObject_GetNames obj GetNames_flags #
             (if hr (respond p (calls ?s1) (IWbemClassObject_GetNames obj GetNames_flags)) = S_OK
              then evs @ dtor_calls (array_of p (calls ?s1) obj) else [])" by blast
  with s0 True show ?thesis by (intro exI[of _ evs]) simp
qed

lemma EnumNames_flaky:
  "EnumNames flaky (Some 1) disk =
     (Throw (WmiError 0x4005),
      disk\<lparr>calls := [IWbemClassObject_GetNames 1 GetNames_flags, SafeArrayGetLBound (Some 0),
                      SafeArrayGetUBound (Some 0), SafeArrayGetElement (Some 0) 0,
                      SafeArrayGetElement (Some 0) 1, SafeArrayDestroy 0]\<rparr>)"
  by (simp add: EnumNames_eq flaky_def fail_at_def demo_simps array_of_def with_SAHandle_def
      SAHandle_dtor_def EnumNames_scope_def run_simps upto_0_1 LONG_MAX_def E_FAIL_def s_error_def)

text \<open>
  Claim C7. Once \<^verbatim>\<open>GetNames\<close> has succeeded and handed out an array, every way out of
  \<^verbatim>\<open>EnumNames\<close> and of \<^verbatim>\<open>Object::GetProperties\<close>, a return or an exception of a later
  step, has destroyed that array exactly once with \<^verbatim>\<open>SafeArrayDestroy\<close>: the one array
  of \<^verbatim>\<open>EnumNames\<close>, and in \<^verbatim>\<open>GetProperties\<close> both its own array and the array of the
  \<^verbatim>\<open>EnumNames\<close> it calls; no array is destroyed twice.
\<close>

theorem SafeArray_destroyed_once:
  "(hr (respond p (calls s) (IWbemClassObject_GetNames obj GetNames_flags)) = S_OK \<and>
    array_of p (calls s) obj = Some a \<and>
    EnumNames p (Some obj) s = (out, s') \<and> exits out \<longrightarrow>
      count_list (drop (length (calls s)) (calls s')) (SafeArrayDestroy a) = 1 \<and>
      (\<forall>b. b \<noteq> a \<longrightarrow> count_list (drop (length (calls s)) (calls s')) (SafeArrayDestroy b) = 0)) \<and>
   (m_pObj (self t) = Some obj \<and>
    hr (respond p (calls t) (IWbemClassObject_GetNames obj GetNames_flags)) = S_OK \<and>
    array_of p (calls t) obj = Some outer \<and>
    GetProperties p t = (out', t') \<and> exits out' \<longrightarrow>
      count_list (drop (length (calls t)) (calls t')) (SafeArrayDestroy outer) = 1 \<and>
      (hr (respond p (calls t @ [IWbemClassObject_GetNames obj GetNames_flags])
             (IWbemClassObject_GetNames obj GetNames_flags)) = S_OK \<and>
       array_of p (calls t @ [IWbemClassObject_GetNames obj GetNames_flags]) obj = Some inner \<longrightarrow>
         count_list (drop (length (calls t)) (calls t')) (SafeArrayDestroy inner) = 1) \<and>
      (\<forall>b. count_list (drop (length (calls t)) (calls t')) (SafeArrayDestroy b) \<le> 1))"
proof (intro conjI impI; (elim conjE)?)
  assume h: "hr (respond p (calls s) (IWbemClassObject_GetNames obj GetNames_flags)) = S_OK"
    "array_of p (calls s) obj = Some a" "EnumNames p (Some obj) s = (out, s')" "exits out"
  from EnumNames_calls[OF h(3,4)] h(1,2) obtain evs where
    e: "list_all sa_read evs"
       "calls s' = calls s @ IWbemClassObject_GetNames obj GetNames_flags # evs @ [SafeArrayDestroy a]"
    by (auto simp add: dtor_calls_def)
  from e show "count_list (drop (length (calls s)) (calls s')) (SafeArrayDestroy a) = 1"
    by (simp add: count_sa_read)
  from e show "\<forall>b. b \<noteq> a \<longrightarrow> count_list (drop (length (calls s)) (calls s')) (SafeArrayDestroy b) = 0"
    by (simp add: count_sa_read)
next
  assume h: "m_pObj (self t) = Some obj"
    "hr (respond p (calls t) (IWbemClassObject_GetNames obj GetNames_flags)) = S_OK"
    "array_of p (calls t) obj = Some outer" "GetProperties p t = (out', t')" "exits out'"
  from h(3) have o1: "outer = length (calls t)"
    by (auto simp add: array_of_def split: option.splits)
  from GetProperties_calls[OF h(1,4,5)] h(2,3) obtain evs where
    e: "list_all sa_read evs"
       "calls t' = calls t @ IWbemClassObject_GetNames obj GetNames_flags #
          IWbemClassObject_GetNames obj GetNames_flags #
                (if hr (respond p (calls t @ [IWbemClassObject_GetNames obj GetNames_flags])
                          (IWbemClassObject_GetNames obj GetNames_flags)) = S_OK
                 then evs @ dtor_calls (array_of p (calls t @ [IWbemClassObject_GetNames obj GetNames_flags]) obj)
                 else []) @ [SafeArrayDestroy outer]"
    by (auto simp add: dtor_calls_def)
  have i1: "array_of p (calls t @ [IWbemClassObject_GetNames obj GetNames_flags]) obj = Some b \<Longrightarrow> b = Suc outer" for b
    using o1 by (auto simp add: array_of_def split: option.splits)
  from e i1 show "count_list (drop (length (calls t)) (calls t')) (SafeArrayDestroy outer) = 1"
    by (auto simp add: count_sa_read dtor_calls_def split: option.splits)
  from e i1 show "\<forall>b. count_list (drop (length (calls t)) (calls t')) (SafeArrayDestroy b) \<le> 1"
    by (auto simp add: count_sa_read dtor_calls_def split: option.splits)
  assume "hr (respond p (calls t @ [IWbemClassObject_GetNames obj GetNames_flags])
             (IWbemClassObject_GetNames obj GetNames_flags)) = S_OK"
       "array_of p (calls t @ [IWbemClassObject_GetNames obj GetNames_flags]) obj = Some inner"
  with e i1 show "count_list (drop (length (calls t)) (calls t')) (SafeArrayDestroy inner) = 1"
    by (auto simp add: count_sa_read dtor_calls_def split: option.splits)
qed


theorem SafeArray_destroyed_once_witness:
  "fst (EnumNames flaky (Some 1) disk) = Throw (WmiError 0x4005) \<and>
   count_list (drop (length (calls disk)) (calls (snd (EnumNames flaky (Some 1) disk))))
     (SafeArrayDestroy 0) = 1 \<and>
   fst (GetProperties demo disk) = Return [''DeviceID'', ''VolumeName''] \<and>
   count_list (drop (length (calls disk)) (calls (snd (GetProperties demo disk))))
     (SafeArrayDestroy 0) = 1 \<and>
   count_list (drop (length (calls disk)) (calls (snd (GetProperties demo disk))))
     (SafeArrayDestroy 1) = 1"
proof -
  have a: "m_pObj (self disk) = Some 1"
    "array_of flaky (calls disk) 1 = Some 0" "array_of demo (calls disk) 1 = Some 0"
    "array_of demo (calls disk @ [IWbemClassObject_GetNames 1 GetNames_flags]) 1 = Some 1"
    "hr (respond flaky (calls disk) (IWbemClassObject_GetNames 1 GetNames_flags)) = S_OK"
    "hr (respond demo (calls disk) (IWbemClassObject_GetNames 1 GetNames_flags)) = S_OK"
    "hr (respond demo (calls disk @ [IWbemClassObject_GetNames 1 GetNames_flags])
           (IWbemClassObject_GetNames 1 GetNames_flags)) = S_OK"
    by (simp_all add: array_of_def flaky_def fail_at_def demo_simps)
  have b: "fst (EnumNames flaky (Some 1) disk) = Throw (WmiError 0x4005)"
    "fst (GetProperties demo disk) = Return [''DeviceID'', ''VolumeName'']"
    by (simp_all only: EnumNames_flaky GetProperties_demo fst_conv)
  have c: "EnumNames flaky (Some 1) disk =
             (fst (EnumNames flaky (Some 1) disk), snd (EnumNames flaky (Some 1) disk))"
          "GetProperties demo disk =
             (fst (GetProperties demo disk), snd (GetProperties demo disk))"
    by simp_all
  have d: "exits (fst (EnumNames flaky (Some 1) disk))" "exits (fst (GetProperties demo disk))"
    by (simp_all only: b exits_def outcome.case)
  from a b c d
    SafeArray_destroyed_once [where p = flaky and s = disk and obj = 1 and a = 0
        and out = "fst (EnumNames flaky (Some 1) disk)"
        and s' = "snd (EnumNames flaky (Some 1) disk)"
        and t = disk and out' = "fst (GetProperties demo disk)"
        and t' = "snd (GetProperties demo disk)" and outer = 0 and inner = 1]
    SafeArray_destroyed_once [where p = demo and s = disk and obj = 1 and a = 0
        and out = "fst (EnumNames flaky (Some 1) disk)"
        and s' = "snd (EnumNames flaky (Some 1) disk)"
        and t = disk and out' = "fst (GetProperties demo disk)"
        and t' = "snd (GetProperties demo disk)" and outer = 0 and inner = 1]
  show ?thesis by blast
qed

section \<open>\<^verbatim>\<open>Object::ExecMethod\<close>\<close>

lemma ExecMethod_put_Return:
  "ExecMethod_put p q ips s = (Return u, s') \<Longrightarrow>
     calls s' = calls s @ Put_calls q ips \<and> self s' = self s \<and> (ips \<noteq> [] \<longrightarrow> q \<noteq> None)"
proof (induction ips arbitrary: s)
  case Nil
  then show ?case by (simp add: ret_def Put_calls_def split: option.splits)
next
  case (Cons ip ips)
  show ?case
  proof (cases q)
    case None
    with Cons.prems show ?thesis by (simp add: deref_def fault_def)
  next
    case (Some inst)
    with Cons.prems have
      "ExecMethod_put p q ips (s\<lparr>calls := calls s @ [IWbemClassObject_Put inst (fst ip) (snd ip) (vt (snd ip))]\<rparr>) = (Return u, s')"
      by (simp add: deref_def bnd_com)
    from Cons.IH[OF this] Some show ?thesis by (simp add: Put_calls_def)
  qed
qed

lemma ExecMethod_drain_Return:
  "ExecMethod_drain fuel p out om s = (Return om', s') \<Longrightarrow>
     om' = fold store_out (Next_yield p (calls s) out fuel) om \<and>
     calls s' = calls s @ replicate (Suc (length (Next_yield p (calls s) out fuel))) (IWbemClassObject_Next out) \<and>
     self s' = self s \<and> length (Next_yield p (calls s) out fuel) < fuel"
proof (induction fuel arbitrary: om s)
  case 0
  then show ?case by (simp add: out_of_fuel_def)
next
  case (Suc n)
  let ?r = "respond p (calls s) (IWbemClassObject_Next out)"
  let ?s1 = "s\<lparr>calls := calls s @ [IWbemClassObject_Next out]\<rparr>"
  show ?case
  proof (cases "bstr ?r")
    case None
    with Suc.prems show ?thesis by (auto simp add: bnd_com ret_def)
  next
    case (Some nm)
    with Suc.prems have "ExecMethod_drain n p out (store_out (nm, var ?r) om) ?s1 = (Return om', s')"
      by (simp add: bnd_com store_out_def split: if_splits)
    from Suc.IH[OF this] Some show ?thesis
      by (simp add: replicate_append_same)
  qed
qed

lemma store_out_apply:
  "store_out (a, b) m n = (if a = ''ReturnValue'' then m n else if n = a then Some b else m n)"
  by (simp add: store_out_def)

lemma fold_store_out:
  "fold store_out ys m n =
     (if n \<noteq> ''ReturnValue'' \<and> n \<in> fst ` set ys then map_of (rev ys) n else m n)"
proof (induction ys arbitrary: m)
  case Nil
  then show ?case by simp
next
  case (Cons y ys)
  have "fold store_out (y # ys) m n =
          (if n \<noteq> ''ReturnValue'' \<and> n \<in> fst ` set ys then map_of (rev ys) n
           else store_out y m n)"
    by (simp add: Cons.IH)
  then show ?case
    apply (cases y)
    apply (auto simp add: store_out_apply map_add_def map_of_eq_None_iff image_iff
        split: option.splits simp del: fold_simps dest!: map_of_SomeD)
     apply force+
    done
qed

lemma get_selfD: "get_self s = (Return x, s1) \<Longrightarrow> x = self s \<and> s1 = s"
  by (auto simp add: get_self_def)

lemma derefD: "deref nm q s = (Return a, s1) \<Longrightarrow> q = Some a \<and> s1 = s"
  by (auto simp add: deref_def ret_def fault_def split: option.splits)

lemma throw_if_ReturnD: "throw_if c x s = (Return u, s1) \<Longrightarrow> \<not> c \<and> s1 = s"
  by (auto simp add: throw_if_def throw_def ret_def split: if_splits)

lemma retD: "ret x s = (Return y, s1) \<Longrightarrow> y = x \<and> s1 = s"
  by (auto simp add: ret_def)

lemma ExecMethod_put_state:
  "ExecMethod_put p q ips s = (Return u, s') \<Longrightarrow>
     s' = s\<lparr>calls := calls s @ Put_calls q ips\<rparr> \<and> (ips \<noteq> [] \<longrightarrow> q \<noteq> None)"
  by (drule ExecMethod_put_Return) (cases s, cases s', simp)

lemma ExecMethod_out_Return:
  assumes "ExecMethod_out fuel p out om s = (Return (rv, om'), s')"
  shows "rv = var (respond p (calls s) (IWbemClassObject_Get out ''ReturnValue'')) \<and>
     om' = fold store_out
             (Next_yield p (calls s @ [IWbemClassObject_Get out ''ReturnValue'',
                IWbemClassObject_BeginEnumeration out WBEM_FLAG_NONSYSTEM_ONLY]) out fuel) om \<and>
     calls s' = calls s @ [IWbemClassObject_Get out ''ReturnValue'',
                IWbemClassObject_BeginEnumeration out WBEM_FLAG_NONSYSTEM_ONLY] @
        replicate (Suc (length (Next_yield p (calls s @ [IWbemClassObject_Get out ''ReturnValue'',
                IWbemClassObject_BeginEnumeration out WBEM_FLAG_NONSYSTEM_ONLY]) out fuel)))
          (IWbemClassObject_Next out) @ [IWbemClassObject_EndEnumeration out] \<and>
     self s' = self s"
  using assms unfolding ExecMethod_out_def
  by (auto elim!: bnd_ReturnE dest!: comD retD ExecMethod_drain_Return)

lemma ExecMethod_ReturnD:
  assumes "ExecMethod fuel p nm ips om s = (Return (rv, om'), s')"
  shows "\<exists>obj svc className s1 cls inCls relPath s5.
    m_pObj (self s) = Some obj \<and> m_pServices (self s) = Some svc \<and>
    GetValue p ''__CLASS'' s = (Return className, s1) \<and>
    hr (respond p (calls s1) (IWbemServices_GetObject svc className)) = S_OK \<and>
    ptr (respond p (calls s1) (IWbemServices_GetObject svc className)) = Some cls \<and>
    ptr (respond p (calls s1 @ [IWbemServices_GetObject svc className])
               (IWbemClassObject_GetMethod cls nm)) = Some inCls \<and>
    (ips \<noteq> [] \<longrightarrow> spawned p (calls s1) svc className cls nm inCls \<noteq> None) \<and>
    GetValue p ''__RELPATH''
           (s1\<lparr>calls := calls s1 @ [IWbemServices_GetObject svc className,
                  IWbemClassObject_GetMethod cls nm, IWbemClassObject_SpawnInstance inCls] @
                Put_calls (spawned p (calls s1) svc className cls nm inCls) ips\<rparr>)
           = (Return relPath, s5) \<and>
    (case ptr (respond p (calls s5)
                (IWbemServices_ExecMethod svc relPath nm 0
                   (spawned p (calls s1) svc className cls nm inCls))) of
           None \<Rightarrow> ret (CComVariant_empty, om)
         | Some out \<Rightarrow> ExecMethod_out fuel p out om)
       (s5\<lparr>calls := calls s5 @ [IWbemServices_ExecMethod svc relPath nm 0
                   (spawned p (calls s1) svc className cls nm inCls)]\<rparr>)
      = (Return (rv, om'), s')"
  using assms unfolding ExecMethod_def ExecMethod_invoke_def spawned_def
  by (elim bnd_ReturnE)
     (fastforce dest!: get_selfD derefD throw_if_ReturnD comD ExecMethod_put_state)

lemma GetValue_Return:
  assumes "m_pObj (self s) = Some obj" and "GetValue p property s = (Return w, s1)"
  shows "s1 = s\<lparr>calls := calls s @ GetValue_calls p (calls s) obj property\<rparr>"
  using assms
  by (auto simp add: GetValue_eq Let_def GetValue_calls_def fetched_def
      split: if_splits option.splits)

lemma ExecMethod_demo:
  "ExecMethod enough demo ''Chkdsk'' chkdsk_params Map.empty disk =
     (Return (disk_property ''ReturnValue'', [''Extra'' \<mapsto> bstr_variant ''x'']),
      disk\<lparr>calls :=
        [IWbemClassObject_Get 1 ''__CLASS'',
         IWbemServices_GetObject 7 ''Win32_LogicalDisk'',
         IWbemClassObject_GetMethod 2 ''Chkdsk'',
         IWbemClassObject_SpawnInstance 3,
         IWbemClassObject_Put 4 ''FixErrors'' false_variant VT_BOOL,
         IWbemClassObject_Put 4 ''OKToRunAtBootUp'' false_variant VT_BOOL,
         IWbemClassObject_Get 1 ''__RELPATH'',
         IWbemServices_ExecMethod 7 ''Win32_LogicalDisk.DeviceID=G:'' ''Chkdsk'' 0 (Some 4),
         IWbemClassObject_Get 5 ''ReturnValue'',
         IWbemClassObject_BeginEnumeration 5 WBEM_FLAG_NONSYSTEM_ONLY,
         IWbemClassObject_Next 5, IWbemClassObject_Next 5, IWbemClassObject_Next 5,
         IWbemClassObject_EndEnumeration 5]\<rparr>)"
  by (simp add: ExecMethod_def ExecMethod_invoke_def ExecMethod_out_def GetValue_def chkdsk_params_def false_variant_def
      enough_def eval_simps demo_simps E_POINTER_def bVal_def)

lemma ExecMethod_demo':
  "ExecMethod enough demo ''Chkdsk'' chkdsk_params Map.empty disk =
     (Return (disk_property ''ReturnValue'', [''Extra'' \<mapsto> bstr_variant ''x'']), chkdsk_done)"
  by (simp only: ExecMethod_demo chkdsk_done_def)

lemma Next_yield_ended:
  "length (Next_yield p h out fuel) < fuel \<Longrightarrow>
     bstr (respond p (h @ replicate (length (Next_yield p h out fuel)) (IWbemClassObject_Next out))
            (IWbemClassObject_Next out)) = None"
proof (induction fuel arbitrary: h)
  case 0
  then show ?case by simp
next
  case (Suc n)
  show ?case
  proof (cases "bstr (respond p h (IWbemClassObject_Next out))")
    case None
    then show ?thesis by simp
  next
    case (Some nm)
    with Suc.prems have "length (Next_yield p (h @ [IWbemClassObject_Next out]) out n) < n"
      by simp
    from Suc.IH[OF this] Some show ?thesis
      by (simp add: replicate_app_Cons_same)
  qed
qed

lemma map_of_rev_distinct:
  "distinct (map fst ys) \<Longrightarrow> (n, v) \<in> set ys \<Longrightarrow> map_of (rev ys) n = Some v"
  by (rule map_of_is_SomeI) (simp_all add: rev_map[symmetric])

lemma ExecMethod_after_lookup:
  assumes "m_pObj (self s) = Some obj" and "m_pServices (self s) = Some svc"
      and "GetValue p ''__CLASS'' s = (Return className, s1)"
      and "hr (respond p (calls s1) (IWbemServices_GetObject svc className)) = S_OK"
      and "ptr (respond p (calls s1) (IWbemServices_GetObject svc className)) = Some cls"
  shows "ExecMethod fuel p nm ips om s =
     (case ptr (respond p (calls s1 @ [IWbemServices_GetObject svc className])
                  (IWbemClassObject_GetMethod cls nm)) of
        None \<Rightarrow> (Fault (NullDeref ''pInParamsClass''),
                 s1\<lparr>calls := calls s1 @ [IWbemServices_GetObject svc className,
                                          IWbemClassObject_GetMethod cls nm]\<rparr>)
      | Some inCls \<Rightarrow>
          ExecMethod_invoke fuel p svc nm ips om inCls
            (s1\<lparr>calls := calls s1 @ [IWbemServices_GetObject svc className,
                                     IWbemClassObject_GetMethod cls nm]\<rparr>))"
proof -
  from GetValue_Return[OF assms(1,3)] have "self s1 = self s" by simp
  with assms show ?thesis
    by (simp add: ExecMethod_def bnd_get_self bnd_Return[of "GetValue p ''__CLASS''" s className s1] bnd_com deref_def
        fault_def split: option.splits)
qed

lemma GetValue_total:
  assumes "m_pObj (self s) = Some obj" and "GetValue_result p (calls s) obj property = Some w"
  shows "GetValue p property s =
           (Return w, s\<lparr>calls := calls s @ GetValue_calls p (calls s) obj property\<rparr>)"
  using assms
  by (auto simp add: GetValue_eq Let_def GetValue_result_def GetValue_calls_def fetched_def
      coerced_def split: if_splits)

lemma GetValue_Return_result:
  assumes "m_pObj (self s) = Some obj" and "GetValue p property s = (Return w, s1)"
  shows "GetValue_result p (calls s) obj property = Some w"
  using assms
  by (auto simp add: GetValue_eq Let_def GetValue_result_def fetched_def coerced_def
      split: if_splits option.splits)

lemma ExecMethod_put_total:
  "ips = [] \<or> q \<noteq> None \<Longrightarrow>
   ExecMethod_put p q ips s = (Return (), s\<lparr>calls := calls s @ Put_calls q ips\<rparr>)"
proof (induction ips arbitrary: s)
  case Nil
  then show ?case by (simp add: ret_def Put_calls_def split: option.splits)
next
  case (Cons ip ips)
  then obtain inst where q: "q = Some inst" by auto
  from Cons.IH[of "s\<lparr>calls := calls s @ [IWbemClassObject_Put inst (fst ip) (snd ip) (vt (snd ip))]\<rparr>"] q
  show ?case by (simp add: deref_def bnd_com Put_calls_def)
qed

lemma ExecMethod_drain_total:
  "length (Next_yield p (calls s) out fuel) < fuel \<Longrightarrow>
   ExecMethod_drain fuel p out om s =
     (Return (fold store_out (Next_yield p (calls s) out fuel) om),
      s\<lparr>calls := calls s @
           replicate (Suc (length (Next_yield p (calls s) out fuel))) (IWbemClassObject_Next out)\<rparr>)"
proof (induction fuel arbitrary: om s)
  case 0
  then show ?case by simp
next
  case (Suc n)
  let ?r = "respond p (calls s) (IWbemClassObject_Next out)"
  let ?s1 = "s\<lparr>calls := calls s @ [IWbemClassObject_Next out]\<rparr>"
  show ?case
  proof (cases "bstr ?r")
    case None
    then show ?thesis by (simp add: bnd_com ret_def)
  next
    case (Some nm)
    with Suc.prems have "length (Next_yield p (calls ?s1) out n) < n" by simp
    note ih = Suc.IH[OF this, of "store_out (nm, var ?r) om"]
    from Some have step: "ExecMethod_drain (Suc n) p out om s =
        ExecMethod_drain n p out (store_out (nm, var ?r) om) ?s1"
      by (simp add: bnd_com store_out_def)
    from ih Some show ?thesis
      unfolding step by (simp add: replicate_append_same)
  qed
qed

lemma ExecMethod_out_total:
  assumes "length (Next_yield p (calls s @ [IWbemClassObject_Get out ''ReturnValue'',
                IWbemClassObject_BeginEnumeration out WBEM_FLAG_NONSYSTEM_ONLY]) out fuel) < fuel"
  shows "ExecMethod_out fuel p out om s =
     (Return (var (respond p (calls s) (IWbemClassObject_Get out ''ReturnValue'')),
              fold store_out (Next_yield p (calls s @ [IWbemClassObject_Get out ''ReturnValue'',
                IWbemClassObject_BeginEnumeration out WBEM_FLAG_NONSYSTEM_ONLY]) out fuel) om),
      s\<lparr>calls := calls s @ [IWbemClassObject_Get out ''ReturnValue'',
                IWbemClassObject_BeginEnumeration out WBEM_FLAG_NONSYSTEM_ONLY] @
           replicate (Suc (length (Next_yield p (calls s @ [IWbemClassObject_Get out ''ReturnValue'',
                IWbemClassObject_BeginEnumeration out WBEM_FLAG_NONSYSTEM_ONLY]) out fuel)))
             (IWbemClassObject_Next out) @ [IWbemClassObject_EndEnumeration out]\<rparr>)"
proof -
  let ?s2 = "s\<lparr>calls := calls s @ [IWbemClassObject_Get out ''ReturnValue'',
                IWbemClassObject_BeginEnumeration out WBEM_FLAG_NONSYSTEM_ONLY]\<rparr>"
  from assms have "length (Next_yield p (calls ?s2) out fuel) < fuel" by simp
  from ExecMethod_drain_total[OF this, of om] show ?thesis
    by (simp add: ExecMethod_out_def bnd_com bnd_Return ret_def)
qed


lemma ExecMethod_invoke_total:
  fixes s :: "Object st" and p inCls ips obj svc relPath nm
  defines "inst \<equiv> ptr (respond p (calls s) (IWbemClassObject_SpawnInstance inCls))"
  defines "h3 \<equiv> calls s @ [IWbemClassObject_SpawnInstance inCls] @ Put_calls inst ips"
  defines "h4 \<equiv> h3 @ GetValue_calls p h3 obj ''__RELPATH''"
  defines "ex \<equiv> IWbemServices_ExecMethod svc relPath nm 0 inst"
  defines "h5 \<equiv> \<lambda>out. h4 @ [ex, IWbemClassObject_Get out ''ReturnValue'',
                         IWbemClassObject_BeginEnumeration out WBEM_FLAG_NONSYSTEM_ONLY]"
  assumes "m_pObj (self s) = Some obj" and "ips = [] \<or> inst \<noteq> None"
      and "GetValue_result p h3 obj ''__RELPATH'' = Some relPath"
      and "case ptr (respond p h4 ex) of None \<Rightarrow> True
           | Some out \<Rightarrow> length (Next_yield p (h5 out) out fuel) < fuel"
  shows "ExecMethod_invoke fuel p svc nm ips om inCls s =
     (case ptr (respond p h4 ex) of
        None \<Rightarrow> (Return (CComVariant_empty, om), s\<lparr>calls := h4 @ [ex]\<rparr>)
      | Some out \<Rightarrow>
          (Return (var (respond p (h4 @ [ex]) (IWbemClassObject_Get out ''ReturnValue'')),
                   fold store_out (Next_yield p (h5 out) out fuel) om),
           s\<lparr>calls := h5 out @
                replicate (Suc (length (Next_yield p (h5 out) out fuel)))
                  (IWbemClassObject_Next out) @ [IWbemClassObject_EndEnumeration out]\<rparr>))"
proof -
  let ?s1 = "s\<lparr>calls := calls s @ [IWbemClassObject_SpawnInstance inCls]\<rparr>"
  let ?s3 = "s\<lparr>calls := h3\<rparr>"
  let ?s4 = "s\<lparr>calls := h4\<rparr>"
  let ?s5 = "s\<lparr>calls := h4 @ [ex]\<rparr>"
  have put: "ExecMethod_put p inst ips ?s1 = (Return (), ?s3)"
    using ExecMethod_put_total[OF assms(7), of p ?s1] by (simp add: h3_def)
  have gv: "GetValue p ''__RELPATH'' ?s3 = (Return relPath, ?s4)"
    using GetValue_total[of ?s3 obj p "''__RELPATH''" relPath] assms(6,8)
    by (simp add: h4_def)
  have tail: "(case ptr (respond p h4 ex) of
                 None \<Rightarrow> ret (CComVariant_empty, om)
               | Some out \<Rightarrow> ExecMethod_out fuel p out om) ?s5 =
     (case ptr (respond p h4 ex) of
        None \<Rightarrow> (Return (CComVariant_empty, om), ?s5)
      | Some out \<Rightarrow>
          (Return (var (respond p (h4 @ [ex]) (IWbemClassObject_Get out ''ReturnValue'')),
                   fold store_out (Next_yield p (h5 out) out fuel) om),
           s\<lparr>calls := h5 out @
                replicate (Suc (length (Next_yield p (h5 out) out fuel)))
                  (IWbemClassObject_Next out) @ [IWbemClassObject_EndEnumeration out]\<rparr>))"
  proof (cases "ptr (respond p h4 ex)")
    case None
    then show ?thesis by (simp add: ret_def)
  next
    case (Some out)
    with assms(9) have "length (Next_yield p (calls ?s5 @ [IWbemClassObject_Get out ''ReturnValue'',
                IWbemClassObject_BeginEnumeration out WBEM_FLAG_NONSYSTEM_ONLY]) out fuel) < fuel"
      by (simp add: h5_def)
    from ExecMethod_out_total[OF this, of om] Some show ?thesis
      by (simp add: h5_def)
  qed
  have "ExecMethod_invoke fuel p svc nm ips om inCls s =
      (case ptr (respond p h4 ex) of
                 None \<Rightarrow> ret (CComVariant_empty, om)
               | Some out \<Rightarrow> ExecMethod_out fuel p out om) ?s5"
    unfolding ExecMethod_invoke_def
    by (simp add: bnd_com inst_def[symmetric]
        bnd_Return[where m = "ExecMethod_put p inst ips", OF put]
        bnd_Return[where m = "GetValue p ''__RELPATH''", OF gv] ex_def)
  with tail show ?thesis by simp
qed


lemma ExecMethod_total:
  assumes o: "m_pObj (self s) = Some obj" "m_pServices (self s) = Some svc"
      and r: "ExecMethod_ready fuel p (calls s) obj svc nm ips className cls inCls relPath"
  shows "ExecMethod fuel p nm ips om s =
     (Return (fst (ExecMethod_result fuel p (calls s) obj svc nm ips om className cls inCls relPath)),
      s\<lparr>calls := snd (ExecMethod_result fuel p (calls s) obj svc nm ips om className cls inCls relPath)\<rparr>)"
proof -
  define h1 where "h1 = calls s @ GetValue_calls p (calls s) obj ''__CLASS''"
  define h2 where "h2 = h1 @ [IWbemServices_GetObject svc className, IWbemClassObject_GetMethod cls nm]"
  define inst where "inst = ptr (respond p h2 (IWbemClassObject_SpawnInstance inCls))"
  define h3 where "h3 = h2 @ [IWbemClassObject_SpawnInstance inCls] @ Put_calls inst ips"
  define h4 where "h4 = h3 @ GetValue_calls p h3 obj ''__RELPATH''"
  define ex where "ex = IWbemServices_ExecMethod svc relPath nm 0 inst"
  have req: "ExecMethod_request p (calls s) obj svc nm ips className cls inCls relPath = h4 @ [ex]"
    by (simp add: ExecMethod_request_def Let_def h1_def h2_def inst_def h3_def h4_def ex_def)
  have ans: "ExecMethod_answer p (calls s) obj svc nm ips className cls inCls relPath =
      ptr (respond p h4 ex)"
    by (simp add: ExecMethod_answer_def req)
  from r have c: "GetValue_result p (calls s) obj ''__CLASS'' = Some className"
    and g: "hr (respond p h1 (IWbemServices_GetObject svc className)) = S_OK"
           "ptr (respond p h1 (IWbemServices_GetObject svc className)) = Some cls"
    and m: "ptr (respond p (h1 @ [IWbemServices_GetObject svc className])
                (IWbemClassObject_GetMethod cls nm)) = Some inCls"
    and i: "ips = [] \<or> inst \<noteq> None"
    and rp: "GetValue_result p h3 obj ''__RELPATH'' = Some relPath"
    and f: "case ptr (respond p h4 ex) of None \<Rightarrow> True
           | Some out \<Rightarrow> length (Next_yield p (h4 @ [ex, IWbemClassObject_Get out ''ReturnValue'',
                         IWbemClassObject_BeginEnumeration out WBEM_FLAG_NONSYSTEM_ONLY]) out fuel) < fuel"
    unfolding ExecMethod_ready_def Let_def ans ExecMethod_yield_def req
    by (simp_all add: h1_def h2_def inst_def h3_def h4_def ex_def split: option.splits)
  let ?s1 = "s\<lparr>calls := h1\<rparr>"
  let ?s2 = "s\<lparr>calls := h2\<rparr>"
  have gv: "GetValue p ''__CLASS'' s = (Return className, ?s1)"
    using GetValue_total[OF o(1) c] by (simp add: h1_def)
  have "ExecMethod fuel p nm ips om s = ExecMethod_invoke fuel p svc nm ips om inCls ?s2"
    using ExecMethod_after_lookup[OF o gv, where cls = cls and nm = nm and fuel = fuel
        and ips = ips and om = om] g m
    by (simp add: h2_def)
  also have "\<dots> =
     (case ptr (respond p h4 ex) of
        None \<Rightarrow> (Return (CComVariant_empty, om), s\<lparr>calls := h4 @ [ex]\<rparr>)
      | Some out \<Rightarrow>
          (Return (var (respond p (h4 @ [ex]) (IWbemClassObject_Get out ''ReturnValue'')),
                   fold store_out (Next_yield p (h4 @ [ex, IWbemClassObject_Get out ''ReturnValue'',
                         IWbemClassObject_BeginEnumeration out WBEM_FLAG_NONSYSTEM_ONLY]) out fuel) om),
           s\<lparr>calls := (h4 @ [ex, IWbemClassObject_Get out ''ReturnValue'',
                         IWbemClassObject_BeginEnumeration out WBEM_FLAG_NONSYSTEM_ONLY]) @
                replicate (Suc (length (Next_yield p (h4 @ [ex, IWbemClassObject_Get out ''ReturnValue'',
                         IWbemClassObject_BeginEnumeration out WBEM_FLAG_NONSYSTEM_ONLY]) out fuel)))
                  (IWbemClassObject_Next out) @ [IWbemClassObject_EndEnumeration out]\<rparr>))"
    using ExecMethod_invoke_total[where s = ?s2 and obj = obj and ips = ips and p = p
        and inCls = inCls and relPath = relPath and fuel = fuel and svc = svc and nm = nm
        and om = om] o i rp f
    by (simp add: inst_def h3_def h4_def ex_def split: option.splits)
  finally show ?thesis
    by (simp add: ExecMethod_result_def Let_def req ans ExecMethod_yield_def
        split: option.splits)
qed

lemma ExecMethod_Return_ready:
  assumes "ExecMethod fuel p nm ips om s = (Return (rv, om'), s')"
  shows "\<exists>obj svc className cls inCls relPath.
           m_pObj (self s) = Some obj \<and> m_pServices (self s) = Some svc \<and>
           ExecMethod_ready fuel p (calls s) obj svc nm ips className cls inCls relPath"
proof -
  from ExecMethod_ReturnD[OF assms] obtain obj svc className s1 cls inCls relPath s5 where
    o: "m_pObj (self s) = Some obj" "m_pServices (self s) = Some svc"
    and g1: "GetValue p ''__CLASS'' s = (Return className, s1)"
    and h: "hr (respond p (calls s1) (IWbemServices_GetObject svc className)) = S_OK"
    and c: "ptr (respond p (calls s1) (IWbemServices_GetObject svc className)) = Some cls"
    and i: "ptr (respond p (calls s1 @ [IWbemServices_GetObject svc className])
               (IWbemClassObject_GetMethod cls nm)) = Some inCls"
    and n: "ips \<noteq> [] \<longrightarrow> spawned p (calls s1) svc className cls nm inCls \<noteq> None"
    and g2: "GetValue p ''__RELPATH''
           (s1\<lparr>calls := calls s1 @ [IWbemServices_GetObject svc className,
                  IWbemClassObject_GetMethod cls nm, IWbemClassObject_SpawnInstance inCls] @
                Put_calls (spawned p (calls s1) svc className cls nm inCls) ips\<rparr>)
           = (Return relPath, s5)"
    and t: "(case ptr (respond p (calls s5)
                (IWbemServices_ExecMethod svc relPath nm 0
                   (spawned p (calls s1) svc className cls nm inCls))) of
           None \<Rightarrow> ret (CComVariant_empty, om)
         | Some out \<Rightarrow> ExecMethod_out fuel p out om)
       (s5\<lparr>calls := calls s5 @ [IWbemServices_ExecMethod svc relPath nm 0
                   (spawned p (calls s1) svc className cls nm inCls)]\<rparr>)
      = (Return (rv, om'), s')"
    by blast
  define h1 where "h1 = calls s @ GetValue_calls p (calls s) obj ''__CLASS''"
  define h2 where "h2 = h1 @ [IWbemServices_GetObject svc className, IWbemClassObject_GetMethod cls nm]"
  define inst where "inst = ptr (respond p h2 (IWbemClassObject_SpawnInstance inCls))"
  define h3 where "h3 = h2 @ [IWbemClassObject_SpawnInstance inCls] @ Put_calls inst ips"
  define h4 where "h4 = h3 @ GetValue_calls p h3 obj ''__RELPATH''"
  define ex where "ex = IWbemServices_ExecMethod svc relPath nm 0 inst"
  have req: "ExecMethod_request p (calls s) obj svc nm ips className cls inCls relPath = h4 @ [ex]"
    by (simp add: ExecMethod_request_def Let_def h1_def h2_def inst_def h3_def h4_def ex_def)
  have ans: "ExecMethod_answer p (calls s) obj svc nm ips className cls inCls relPath =
      ptr (respond p h4 ex)"
    by (simp add: ExecMethod_answer_def req)
  from GetValue_Return[OF o(1) g1] have s1: "s1 = s\<lparr>calls := h1\<rparr>"
    by (simp add: h1_def)
  have sp: "spawned p h1 svc className cls nm inCls = inst"
    by (simp add: spawned_def inst_def h2_def)
  from g2 have g2': "GetValue p ''__RELPATH'' (s\<lparr>calls := h3\<rparr>) = (Return relPath, s5)"
    by (simp add: s1 sp h3_def h2_def)
  from GetValue_Return[OF _ g2'] o have s5: "s5 = s\<lparr>calls := h4\<rparr>"
    by (simp add: h4_def)
  have r1: "GetValue_result p (calls s) obj ''__CLASS'' = Some className"
    using GetValue_Return_result[OF o(1) g1] .
  have r2: "GetValue_result p h3 obj ''__RELPATH'' = Some relPath"
    using GetValue_Return_result[OF _ g2'] o by simp
  have f: "length (Next_yield p (h4 @ [ex, IWbemClassObject_Get out ''ReturnValue'',
              IWbemClassObject_BeginEnumeration out WBEM_FLAG_NONSYSTEM_ONLY]) out fuel) < fuel"
    if "ptr (respond p h4 ex) = Some out" for out
  proof -
    from that t have "ExecMethod_out fuel p out om (s\<lparr>calls := h4 @ [ex]\<rparr>) = (Return (rv, om'), s')"
      by (simp add: s1 sp s5 ex_def)
    then obtain s6 oma where
      "ExecMethod_drain fuel p out om (s\<lparr>calls := h4 @ [ex, IWbemClassObject_Get out ''ReturnValue'',
              IWbemClassObject_BeginEnumeration out WBEM_FLAG_NONSYSTEM_ONLY]\<rparr>) = (Return oma, s6)"
      unfolding ExecMethod_out_def
      by (auto elim!: bnd_ReturnE dest!: comD)
    from ExecMethod_drain_Return[OF this] show ?thesis by simp
  qed
  have "ExecMethod_ready fuel p (calls s) obj svc nm ips className cls inCls relPath"
    using r1 r2 h[unfolded s1] c[unfolded s1] i[unfolded s1] n[unfolded s1] sp f
    unfolding ExecMethod_ready_def Let_def ans ExecMethod_yield_def req
      h4_def h3_def inst_def h2_def h1_def ex_def
    by (auto split: option.splits)
  with o show ?thesis by blast
qed

lemma chkdsk_ready:
  "ExecMethod_ready enough demo (calls disk) 1 7 ''Chkdsk'' chkdsk_params
     ''Win32_LogicalDisk'' 2 3 ''Win32_LogicalDisk.DeviceID=G:''"
  by (simp add: ExecMethod_ready_def ExecMethod_answer_def ExecMethod_request_def
      ExecMethod_yield_def GetValue_result_def GetValue_calls_def Put_calls_def Let_def
      chkdsk_params_def false_variant_def enough_def demo_simps)

lemma chkdsk_result:
  "ExecMethod_result enough demo (calls disk) 1 7 ''Chkdsk'' chkdsk_params Map.empty
     ''Win32_LogicalDisk'' 2 3 ''Win32_LogicalDisk.DeviceID=G:'' =
   ((disk_property ''ReturnValue'', [''Extra'' \<mapsto> bstr_variant ''x'']), calls chkdsk_done)"
  by (simp add: ExecMethod_result_def ExecMethod_answer_def ExecMethod_request_def
      ExecMethod_yield_def GetValue_calls_def Put_calls_def Let_def store_out_def
      chkdsk_params_def false_variant_def enough_def chkdsk_done_def demo_simps)

lemma oparams_filled_fold: "oparams_filled ys om (fold store_out ys om)"
proof -
  have k: "fold store_out ys om n =
      (if n \<noteq> ''ReturnValue'' \<and> n \<in> fst ` set ys then map_of (rev ys) n else om n)" for n
    by (rule fold_store_out)
  have v: "fold store_out ys om n = Some v"
    if "distinct (map fst ys)" "(n, v) \<in> set ys" "n \<noteq> ''ReturnValue''" for n v
    using that k[of n] map_of_rev_distinct[of ys n v] by (auto simp add: image_iff)
  have r: "fold store_out ys om ''ReturnValue'' = om ''ReturnValue''"
    using k[of "''ReturnValue''"] by simp
  have u: "fold store_out ys om n = om n" if "n \<notin> fst ` set ys" for n
    using that k[of n] by simp
  from v r u k show ?thesis unfolding oparams_filled_def by blast
qed

lemma oparams_after_result:
  assumes "ExecMethod_ready fuel p h obj svc nm ips className cls inCls relPath"
  shows "oparams_after fuel p h obj svc nm ips className cls inCls relPath om
           (snd (fst (ExecMethod_result fuel p h obj svc nm ips om className cls inCls relPath)))
           (snd (ExecMethod_result fuel p h obj svc nm ips om className cls inCls relPath))"
proof (cases "ExecMethod_answer p h obj svc nm ips className cls inCls relPath")
  case None
  then show ?thesis by (simp add: oparams_after_def ExecMethod_result_def Let_def)
next
  case (Some out)
  let ?ys = "ExecMethod_yield fuel p h obj svc nm ips className cls inCls relPath out"
  from assms Some have "length ?ys < fuel"
    by (simp add: ExecMethod_ready_def Let_def)
  from Next_yield_ended[OF this[unfolded ExecMethod_yield_def]]
  have "bstr (respond p
                (ExecMethod_request p h obj svc nm ips className cls inCls relPath @
                   [IWbemClassObject_Get out ''ReturnValue'',
                    IWbemClassObject_BeginEnumeration out WBEM_FLAG_NONSYSTEM_ONLY] @
                   replicate (length ?ys) (IWbemClassObject_Next out))
                (IWbemClassObject_Next out)) = None"
    by (simp add: ExecMethod_yield_def)
  with Some oparams_filled_fold[of ?ys om] show ?thesis
    by (simp add: oparams_after_def ExecMethod_result_def Let_def)
qed

text \<open>
  Claim C2. \<^verbatim>\<open>Object::ExecMethod\<close> returns exactly when the platform answers as
  \<open>ExecMethod_ready\<close> says, and then the calls it has made are, in this order: the lookup
  of \<^verbatim>\<open>__CLASS\<close> and of the class object; \<^verbatim>\<open>GetMethod\<close> for the method name, which hands
  out the in-parameter class; \<^verbatim>\<open>SpawnInstance\<close> on that class; one \<^verbatim>\<open>Put\<close> on the spawned
  instance for each pair of \<^verbatim>\<open>iparams\<close>, in list order, with the value and the value's own
  variant type; the lookup of \<^verbatim>\<open>__RELPATH\<close>; \<^verbatim>\<open>IWbemServices::ExecMethod\<close> with flags 0
  (synchronous) on that path, the method name and the spawned instance; and the reading
  of the out-parameter object, if there is one. The value returned is the variant that
  \<^verbatim>\<open>Get\<close> leaves for \<^verbatim>\<open>ReturnValue\<close> on the out-parameter object, and an empty variant when
  there is no such object. The first half says that the call returns with this result
  whenever the platform is ready; the second that every returning call is of this kind.
\<close>

theorem ExecMethod_bridge:
  "(m_pObj (self s) = Some obj \<and> m_pServices (self s) = Some svc \<and>
    ExecMethod_ready fuel p (calls s) obj svc nm ips className cls inCls relPath \<longrightarrow>
      ExecMethod fuel p nm ips om s =
        (Return (fst (ExecMethod_result fuel p (calls s) obj svc nm ips om
                        className cls inCls relPath)),
         s\<lparr>calls := snd (ExecMethod_result fuel p (calls s) obj svc nm ips om
                             className cls inCls relPath)\<rparr>)) \<and>
   (ExecMethod fuel p nm ips om s = (Return r, s') \<longrightarrow>
      (\<exists>obj svc className cls inCls relPath.
         m_pObj (self s) = Some obj \<and> m_pServices (self s) = Some svc \<and>
         ExecMethod_ready fuel p (calls s) obj svc nm ips className cls inCls relPath \<and>
         r = fst (ExecMethod_result fuel p (calls s) obj svc nm ips om
                    className cls inCls relPath) \<and>
         calls s' = snd (ExecMethod_result fuel p (calls s) obj svc nm ips om
                           className cls inCls relPath)))"
proof (intro conjI impI)
  assume "m_pObj (self s) = Some obj \<and> m_pServices (self s) = Some svc \<and>
    ExecMethod_ready fuel p (calls s) obj svc nm ips className cls inCls relPath"
  then show "ExecMethod fuel p nm ips om s =
        (Return (fst (ExecMethod_result fuel p (calls s) obj svc nm ips om
                        className cls inCls relPath)),
         s\<lparr>calls := snd (ExecMethod_result fuel p (calls s) obj svc nm ips om
                             className cls inCls relPath)\<rparr>)"
    by (intro ExecMethod_total) simp_all
next
  assume a: "ExecMethod fuel p nm ips om s = (Return r, s')"
  obtain rv om' where r: "r = (rv, om')" by (cases r)
  from ExecMethod_Return_ready[OF a[unfolded r]]
  obtain obj svc className cls inCls relPath where
    o: "m_pObj (self s) = Some obj" "m_pServices (self s) = Some svc"
    and rd: "ExecMethod_ready fuel p (calls s) obj svc nm ips className cls inCls relPath"
    by blast
  from ExecMethod_total[OF o rd, of om] a
  have "r = fst (ExecMethod_result fuel p (calls s) obj svc nm ips om
                    className cls inCls relPath) \<and>
        calls s' = snd (ExecMethod_result fuel p (calls s) obj svc nm ips om
                           className cls inCls relPath)"
    by auto
  with o rd show "\<exists>obj svc className cls inCls relPath.
         m_pObj (self s) = Some obj \<and> m_pServices (self s) = Some svc \<and>
         ExecMethod_ready fuel p (calls s) obj svc nm ips className cls inCls relPath \<and>
         r = fst (ExecMethod_result fuel p (calls s) obj svc nm ips om
                    className cls inCls relPath) \<and>
         calls s' = snd (ExecMethod_result fuel p (calls s) obj svc nm ips om
                           className cls inCls relPath)"
    by blast
qed

theorem ExecMethod_bridge_witness:
  "ExecMethod enough demo ''Chkdsk'' chkdsk_params Map.empty disk =
     (Return (disk_property ''ReturnValue'', [''Extra'' \<mapsto> bstr_variant ''x'']), chkdsk_done)"
proof -
  have o: "m_pObj (self disk) = Some 1" "m_pServices (self disk) = Some 7"
    by (simp_all add: disk_def)
  have d: "disk\<lparr>calls := calls chkdsk_done\<rparr> = chkdsk_done"
    by (simp add: chkdsk_done_def)
  from ExecMethod_bridge [where s = disk and obj = 1 and svc = 7 and fuel = enough and p = demo
      and nm = "''Chkdsk''" and ips = chkdsk_params and om = Map.empty
      and className = "''Win32_LogicalDisk''" and cls = 2 and inCls = 3
      and relPath = "''Win32_LogicalDisk.DeviceID=G:''" and r = "(disk_property ''ReturnValue'', [''Extra'' \<mapsto> bstr_variant ''x''])"
      and s' = chkdsk_done]
    o chkdsk_ready
  have "ExecMethod enough demo ''Chkdsk'' chkdsk_params Map.empty disk =
        (Return (fst (ExecMethod_result enough demo (calls disk) 1 7 ''Chkdsk'' chkdsk_params
                        Map.empty ''Win32_LogicalDisk'' 2 3 ''Win32_LogicalDisk.DeviceID=G:'')),
         disk\<lparr>calls := snd (ExecMethod_result enough demo (calls disk) 1 7 ''Chkdsk''
                        chkdsk_params Map.empty ''Win32_LogicalDisk'' 2 3
                        ''Win32_LogicalDisk.DeviceID=G:'')\<rparr>)"
    by blast
  then show ?thesis
    by (simp only: chkdsk_result fst_conv snd_conv d)
qed

text \<open>
  Claim C3. Whenever the platform is ready, \<^verbatim>\<open>Object::ExecMethod\<close> returns, and every
  returning call is of this kind. If the call produced an out-parameter object, the
  enumeration of that object (non-system properties only) has been read to its end, and
  \<^verbatim>\<open>oparams\<close> maps every name it yielded other than \<^verbatim>\<open>ReturnValue\<close> to the value yielded
  with it; the entry under \<^verbatim>\<open>ReturnValue\<close> and the entries under names that were not
  yielded are what they were before the call. Without an out-parameter object \<^verbatim>\<open>oparams\<close>
  is unchanged.
\<close>

theorem ExecMethod_oparams:
  "(m_pObj (self s) = Some obj \<and> m_pServices (self s) = Some svc \<and>
    ExecMethod_ready fuel p (calls s) obj svc nm ips className cls inCls relPath \<longrightarrow>
      (\<exists>rv om' s'. ExecMethod fuel p nm ips om s = (Return (rv, om'), s') \<and>
         oparams_after fuel p (calls s) obj svc nm ips className cls inCls relPath om om'
           (calls s'))) \<and>
   (ExecMethod fuel p nm ips om t = (Return (rv, om'), t') \<longrightarrow>
      (\<exists>obj svc className cls inCls relPath.
         m_pObj (self t) = Some obj \<and> m_pServices (self t) = Some svc \<and>
         ExecMethod_ready fuel p (calls t) obj svc nm ips className cls inCls relPath \<and>
         oparams_after fuel p (calls t) obj svc nm ips className cls inCls relPath om om'
           (calls t')))"
proof (intro conjI impI)
  assume a: "m_pObj (self s) = Some obj \<and> m_pServices (self s) = Some svc \<and>
    ExecMethod_ready fuel p (calls s) obj svc nm ips className cls inCls relPath"
  let ?R = "ExecMethod_result fuel p (calls s) obj svc nm ips om className cls inCls relPath"
  from a have "ExecMethod fuel p nm ips om s =
      (Return (fst (fst ?R), snd (fst ?R)), s\<lparr>calls := snd ?R\<rparr>)"
    using ExecMethod_total[of s obj svc fuel p nm ips className cls inCls relPath om] by simp
  moreover from a have
    "oparams_after fuel p (calls s) obj svc nm ips className cls inCls relPath om (snd (fst ?R))
       (calls (s\<lparr>calls := snd ?R\<rparr>))"
    using oparams_after_result[of fuel p "calls s" obj svc nm ips className cls inCls relPath om]
    by simp
  ultimately show "\<exists>rv om' s'. ExecMethod fuel p nm ips om s = (Return (rv, om'), s') \<and>
         oparams_after fuel p (calls s) obj svc nm ips className cls inCls relPath om om'
           (calls s')"
    by blast
next
  assume a: "ExecMethod fuel p nm ips om t = (Return (rv, om'), t')"
  from ExecMethod_Return_ready[OF a]
  obtain obj svc className cls inCls relPath where
    o: "m_pObj (self t) = Some obj" "m_pServices (self t) = Some svc"
    and rd: "ExecMethod_ready fuel p (calls t) obj svc nm ips className cls inCls relPath"
    by blast
  from ExecMethod_total[OF o rd, of om] a
  have "(rv, om') = fst (ExecMethod_result fuel p (calls t) obj svc nm ips om
                    className cls inCls relPath)"
    by simp
  then have "om' = snd (fst (ExecMethod_result fuel p (calls t) obj svc nm ips om
                    className cls inCls relPath))"
    by (metis snd_conv)
  moreover from ExecMethod_total[OF o rd, of om] a
  have "calls t' = snd (ExecMethod_result fuel p (calls t) obj svc nm ips om
                    className cls inCls relPath)"
    by auto
  ultimately have "oparams_after fuel p (calls t) obj svc nm ips className cls inCls relPath
      om om' (calls t')"
    using oparams_after_result[OF rd, of om] by simp
  with o rd
  show "\<exists>obj svc className cls inCls relPath.
         m_pObj (self t) = Some obj \<and> m_pServices (self t) = Some svc \<and>
         ExecMethod_ready fuel p (calls t) obj svc nm ips className cls inCls relPath \<and>
         oparams_after fuel p (calls t) obj svc nm ips className cls inCls relPath om om'
           (calls t')"
    by blast
qed

theorem ExecMethod_oparams_witness:
  "(\<exists>rv om' s'.
      ExecMethod enough demo ''Chkdsk'' chkdsk_params [''ReturnValue'' \<mapsto> false_variant] disk
        = (Return (rv, om'), s') \<and>
      om' ''Extra'' = Some (bstr_variant ''x'') \<and>
      om' ''ReturnValue'' = Some false_variant \<and>
      om' ''FixErrors'' = None \<and>
      calls s' = calls chkdsk_done) \<and>
   ExecMethod_answer demo (calls disk) 1 7 ''Chkdsk'' chkdsk_params
     ''Win32_LogicalDisk'' 2 3 ''Win32_LogicalDisk.DeviceID=G:'' = Some 5 \<and>
   ExecMethod_yield enough demo (calls disk) 1 7 ''Chkdsk'' chkdsk_params
     ''Win32_LogicalDisk'' 2 3 ''Win32_LogicalDisk.DeviceID=G:'' 5 =
     [(''ReturnValue'', disk_property ''ReturnValue''), (''Extra'', bstr_variant ''x'')]"
proof -
  have o: "m_pObj (self disk) = Some 1" "m_pServices (self disk) = Some 7"
    by (simp_all add: disk_def)
  have an: "ExecMethod_answer demo (calls disk) 1 7 ''Chkdsk'' chkdsk_params
     ''Win32_LogicalDisk'' 2 3 ''Win32_LogicalDisk.DeviceID=G:'' = Some 5"
    by (simp add: ExecMethod_answer_def ExecMethod_request_def GetValue_calls_def Put_calls_def
        Let_def chkdsk_params_def false_variant_def demo_simps)
  have ys: "ExecMethod_yield enough demo (calls disk) 1 7 ''Chkdsk'' chkdsk_params
     ''Win32_LogicalDisk'' 2 3 ''Win32_LogicalDisk.DeviceID=G:'' 5 =
     [(''ReturnValue'', disk_property ''ReturnValue''), (''Extra'', bstr_variant ''x'')]"
    by (simp add: ExecMethod_yield_def ExecMethod_request_def GetValue_calls_def Put_calls_def
        Let_def chkdsk_params_def false_variant_def enough_def demo_simps)
  from ExecMethod_oparams [where s = disk and obj = 1 and svc = 7 and fuel = enough and p = demo
      and nm = "''Chkdsk''" and ips = chkdsk_params and om = "[''ReturnValue'' \<mapsto> false_variant]"
      and className = "''Win32_LogicalDisk''" and cls = 2 and inCls = 3
      and relPath = "''Win32_LogicalDisk.DeviceID=G:''"] o chkdsk_ready
  obtain rv om' s' where
    e: "ExecMethod enough demo ''Chkdsk'' chkdsk_params [''ReturnValue'' \<mapsto> false_variant] disk
          = (Return (rv, om'), s')"
    and f: "oparams_after enough demo (calls disk) 1 7 ''Chkdsk'' chkdsk_params
              ''Win32_LogicalDisk'' 2 3 ''Win32_LogicalDisk.DeviceID=G:''
              [''ReturnValue'' \<mapsto> false_variant] om' (calls s')"
    by blast
  have rq: "ExecMethod_request demo (calls disk) 1 7 ''Chkdsk'' chkdsk_params
     ''Win32_LogicalDisk'' 2 3 ''Win32_LogicalDisk.DeviceID=G:'' @
       [IWbemClassObject_Get 5 ''ReturnValue'',
        IWbemClassObject_BeginEnumeration 5 WBEM_FLAG_NONSYSTEM_ONLY] @
       replicate (Suc (length [(''ReturnValue'', disk_property ''ReturnValue''),
                               (''Extra'', bstr_variant ''x'')])) (IWbemClassObject_Next 5) @
       [IWbemClassObject_EndEnumeration 5] = calls chkdsk_done"
    by (simp add: ExecMethod_request_def GetValue_calls_def Put_calls_def
        Let_def chkdsk_params_def false_variant_def chkdsk_done_def demo_simps)
  from f have c: "calls s' = calls chkdsk_done"
    unfolding oparams_after_def an option.case ys rq by blast
  from f have "oparams_filled
      [(''ReturnValue'', disk_property ''ReturnValue''), (''Extra'', bstr_variant ''x'')]
      [''ReturnValue'' \<mapsto> false_variant] om'"
    unfolding oparams_after_def an option.case ys by blast
  then have "om' ''Extra'' = Some (bstr_variant ''x'')"
    "om' ''ReturnValue'' = Some false_variant" "om' ''FixErrors'' = None"
    by (simp_all add: oparams_filled_def)
  with e an ys c show ?thesis by blast
qed

section \<open>\<^verbatim>\<open>Services::GetClassNames\<close>\<close>

lemma class_calls_Cons:
  "class_calls e (y # ys) =
     IEnumWbemClassObject_Next e # IWbemClassObject_Get (fst y) ''__CLASS'' # class_calls e ys"
  by (simp add: class_calls_def)

lemma class_calls_Nil: "class_calls e [] = []"
  by (simp add: class_calls_def)

lemma GetClassNames_loop_Return:
  "GetClassNames_loop fuel p e acc s = (Return names, s') \<Longrightarrow>
     names = acc \<union> class_names (Enum_yield p (calls s) e fuel) \<and>
     calls s' = calls s @ class_calls e (Enum_yield p (calls s) e fuel) @ [IEnumWbemClassObject_Next e] \<and>
     self s' = self s \<and>
     length (Enum_yield p (calls s) e fuel) < fuel \<and>
     returned (respond p (calls s @ class_calls e (Enum_yield p (calls s) e fuel))
                 (IEnumWbemClassObject_Next e)) = 0 \<and>
     class_strings (Enum_yield p (calls s) e fuel)"
proof (induction fuel arbitrary: acc s)
  case 0
  then show ?case by (simp add: out_of_fuel_def)
next
  case (Suc n)
  let ?r = "respond p (calls s) (IEnumWbemClassObject_Next e)"
  let ?s1 = "s\<lparr>calls := calls s @ [IEnumWbemClassObject_Next e]\<rparr>"
  show ?case
  proof (cases "returned ?r = 0")
    case True
    with Suc.prems show ?thesis
      by (auto simp add: bnd_com ret_def class_calls_Nil)
  next
    case False
    show ?thesis
    proof (cases "ptr ?r")
      case None
      with False Suc.prems show ?thesis by (simp add: bnd_com deref_def fault_def)
    next
      case (Some cls)
      let ?g = "respond p (calls ?s1) (IWbemClassObject_Get cls ''__CLASS'')"
      let ?s2 = "?s1\<lparr>calls := calls ?s1 @ [IWbemClassObject_Get cls ''__CLASS'']\<rparr>"
      show ?thesis
      proof (cases "SUCCEEDED (hr ?g)")
        case True
        with False Some Suc.prems obtain w where
          w: "wstr (var ?g) = Some w"
          and l: "GetClassNames_loop n p e (insert w acc) ?s2 = (Return names, s')"
          by (auto simp add: bnd_com deref_def wstring_of_def fault_def split: option.splits)
        from Suc.IH[OF l] False Some True w show ?thesis
          by (auto simp add: class_calls_Cons)
      next
        case F: False
        with False Some Suc.prems have
          l: "GetClassNames_loop n p e acc ?s2 = (Return names, s')"
          by (auto simp add: bnd_com deref_def)
        from Suc.IH[OF l] False Some F show ?thesis
          by (auto simp add: class_calls_Cons)
      qed
    qed
  qed
qed

lemma GetClassNames_loop_total:
  "length (Enum_yield p (calls s) e fuel) < fuel \<Longrightarrow>
   returned (respond p (calls s @ class_calls e (Enum_yield p (calls s) e fuel))
               (IEnumWbemClassObject_Next e)) = 0 \<Longrightarrow>
   class_strings (Enum_yield p (calls s) e fuel) \<Longrightarrow>
   GetClassNames_loop fuel p e acc s =
     (Return (acc \<union> class_names (Enum_yield p (calls s) e fuel)),
      s\<lparr>calls := calls s @ class_calls e (Enum_yield p (calls s) e fuel) @
                    [IEnumWbemClassObject_Next e]\<rparr>)"
proof (induction fuel arbitrary: acc s)
  case 0
  then show ?case by simp
next
  case (Suc n)
  let ?r = "respond p (calls s) (IEnumWbemClassObject_Next e)"
  let ?s1 = "s\<lparr>calls := calls s @ [IEnumWbemClassObject_Next e]\<rparr>"
  show ?case
  proof (cases "returned ?r = 0")
    case True
    then show ?thesis by (simp add: bnd_com ret_def class_calls_Nil)
  next
    case False
    show ?thesis
    proof (cases "ptr ?r")
      case None
      with False Suc.prems(2) show ?thesis by (simp add: class_calls_Nil)
    next
      case (Some cls)
      let ?g = "respond p (calls ?s1) (IWbemClassObject_Get cls ''__CLASS'')"
      let ?s2 = "?s1\<lparr>calls := calls ?s1 @ [IWbemClassObject_Get cls ''__CLASS'']\<rparr>"
      from False Some Suc.prems have
        a: "length (Enum_yield p (calls ?s2) e n) < n"
        and b: "returned (respond p (calls ?s2 @ class_calls e (Enum_yield p (calls ?s2) e n))
               (IEnumWbemClassObject_Next e)) = 0"
        and c: "class_strings (Enum_yield p (calls ?s2) e n)"
        and d: "SUCCEEDED (hr ?g) \<longrightarrow> wstr (var ?g) \<noteq> None"
        by (simp_all add: class_calls_Cons split: if_splits)
      show ?thesis
      proof (cases "SUCCEEDED (hr ?g)")
        case True
        with d obtain w where w: "wstr (var ?g) = Some w" by auto
        from False Some True w have step: "GetClassNames_loop (Suc n) p e acc s =
            GetClassNames_loop n p e (insert w acc) ?s2"
          by (simp add: bnd_com deref_def wstring_of_def ret_def)
        from Suc.IH[OF a b c, of "insert w acc"] False Some True w show ?thesis
          unfolding step by (simp add: class_calls_Cons)
      next
        case F: False
        with False Some have step: "GetClassNames_loop (Suc n) p e acc s =
            GetClassNames_loop n p e acc ?s2"
          by (simp add: bnd_com deref_def ret_def)
        from Suc.IH[OF a b c, of acc] False Some F show ?thesis
          unfolding step by (simp add: class_calls_Cons)
      qed
    qed
  qed
qed

lemma meta_class_query_request:
  "IWbemServices_ExecQuery svc ''WQL'' (meta_class_query flt) = GetClassNames_request svc flt"
  by (simp add: meta_class_query_def GetClassNames_request_def)

lemma GetClassNames_total:
  assumes "m_pService (self s) = Some svc" and "GetClassNames_ready fuel p (calls s) svc flt"
  shows "GetClassNames fuel p flt s =
     (Return (fst (GetClassNames_result fuel p (calls s) svc flt)),
      s\<lparr>calls := snd (GetClassNames_result fuel p (calls s) svc flt)\<rparr>)"
proof -
  let ?q = "GetClassNames_request svc flt"
  let ?s1 = "s\<lparr>calls := calls s @ [?q]\<rparr>"
  from assms have ok: "hr (respond p (calls s) ?q) = S_OK"
    by (simp add: GetClassNames_ready_def)
  have e: "GetClassNames fuel p flt s =
      (case ptr (respond p (calls s) ?q) of
         None \<Rightarrow> ret {}
       | Some e \<Rightarrow> GetClassNames_loop fuel p e {}) ?s1"
    using assms(1) ok
    by (simp add: GetClassNames_def bnd_get_self deref_def bnd_com meta_class_query_request)
  show ?thesis
  proof (cases "ptr (respond p (calls s) ?q)")
    case None
    then show ?thesis unfolding e by (simp add: ret_def GetClassNames_result_def)
  next
    case (Some en)
    with assms(2) have
      "length (Enum_yield p (calls ?s1) en fuel) < fuel"
      "returned (respond p (calls ?s1 @ class_calls en (Enum_yield p (calls ?s1) en fuel))
               (IEnumWbemClassObject_Next en)) = 0"
      "class_strings (Enum_yield p (calls ?s1) en fuel)"
      by (simp_all add: GetClassNames_ready_def GetClassNames_yield_def)
    from GetClassNames_loop_total[OF this, of "{}"] Some show ?thesis
      unfolding e by (simp add: GetClassNames_result_def GetClassNames_yield_def)
  qed
qed

lemma GetClassNames_Return_ready:
  assumes "GetClassNames fuel p flt s = (Return names, s')"
  shows "\<exists>svc. m_pService (self s) = Some svc \<and> GetClassNames_ready fuel p (calls s) svc flt"
proof -
  from assms obtain svc where svc: "m_pService (self s) = Some svc"
    unfolding GetClassNames_def
    by (auto elim!: bnd_ReturnE dest!: get_selfD derefD)
  let ?q = "GetClassNames_request svc flt"
  let ?s1 = "s\<lparr>calls := calls s @ [?q]\<rparr>"
  from assms svc have ok: "hr (respond p (calls s) ?q) = S_OK"
    and rest: "(case ptr (respond p (calls s) ?q) of
                  None \<Rightarrow> ret {}
                | Some e \<Rightarrow> GetClassNames_loop fuel p e {}) ?s1 = (Return names, s')"
    by (auto simp add: GetClassNames_def bnd_get_self deref_def bnd_com meta_class_query_request
        throw_def split: if_splits)
  have "GetClassNames_ready fuel p (calls s) svc flt"
  proof (cases "ptr (respond p (calls s) ?q)")
    case None
    with ok show ?thesis by (simp add: GetClassNames_ready_def)
  next
    case (Some e)
    with rest have "GetClassNames_loop fuel p e {} ?s1 = (Return names, s')" by simp
    from GetClassNames_loop_Return[OF this] Some ok show ?thesis
      by (simp add: GetClassNames_ready_def GetClassNames_yield_def)
  qed
  with svc show ?thesis by blast
qed

text \<open>
  Claim C6. \<^verbatim>\<open>Services::GetClassNames\<close> makes exactly one query, in WQL, with the text
  \<^verbatim>\<open>SELECT * FROM meta_class\<close> for an empty filter and that text followed by
  \<^verbatim>\<open>where __CLASS LIKE\<close> and the filter in single quotes otherwise; it then asks the
  enumerator for one object after the other and reads the \<^verbatim>\<open>__CLASS\<close> of each, until an
  answer returns no object; and it returns the set of the class names read (an object
  whose \<^verbatim>\<open>__CLASS\<close> cannot be read adds nothing). The call returns with this result whenever
  the platform answers as \<open>GetClassNames_ready\<close> says, and every returning call is of this
  kind.
\<close>

theorem GetClassNames_query:
  "(m_pService (self s) = Some svc \<and> GetClassNames_ready fuel p (calls s) svc flt \<longrightarrow>
      GetClassNames fuel p flt s =
        (Return (fst (GetClassNames_result fuel p (calls s) svc flt)),
         s\<lparr>calls := snd (GetClassNames_result fuel p (calls s) svc flt)\<rparr>)) \<and>
   (GetClassNames fuel p flt t = (Return names, t') \<longrightarrow>
      (\<exists>svc. m_pService (self t) = Some svc \<and>
             GetClassNames_ready fuel p (calls t) svc flt \<and>
             names = fst (GetClassNames_result fuel p (calls t) svc flt) \<and>
             calls t' = snd (GetClassNames_result fuel p (calls t) svc flt)))"
proof (intro conjI impI)
  assume "m_pService (self s) = Some svc \<and> GetClassNames_ready fuel p (calls s) svc flt"
  then show "GetClassNames fuel p flt s =
        (Return (fst (GetClassNames_result fuel p (calls s) svc flt)),
         s\<lparr>calls := snd (GetClassNames_result fuel p (calls s) svc flt)\<rparr>)"
    by (intro GetClassNames_total) simp_all
next
  assume a: "GetClassNames fuel p flt t = (Return names, t')"
  from GetClassNames_Return_ready[OF a] obtain svc where
    s: "m_pService (self t) = Some svc" and r: "GetClassNames_ready fuel p (calls t) svc flt"
    by blast
  from GetClassNames_total[OF s r] a
  have "names = fst (GetClassNames_result fuel p (calls t) svc flt) \<and>
        calls t' = snd (GetClassNames_result fuel p (calls t) svc flt)"
    by auto
  with s r show "\<exists>svc. m_pService (self t) = Some svc \<and>
             GetClassNames_ready fuel p (calls t) svc flt \<and>
             names = fst (GetClassNames_result fuel p (calls t) svc flt) \<and>
             calls t' = snd (GetClassNames_result fuel p (calls t) svc flt)"
    by blast
qed

theorem GetClassNames_query_witness:
  "GetClassNames enough demo [] connected = (Return {''Win32_LogicalDisk''}, classes_listed) \<and>
   GetClassNames enough demo ''Win32%'' connected =
     (Return {''Win32_LogicalDisk''}, classes_matched)"
proof -
  have o: "m_pService (self connected) = Some 7"
    by (simp add: connected_def)
  have r: "GetClassNames_ready enough demo (calls connected) 7 flt" for flt
    by (simp add: GetClassNames_ready_def GetClassNames_yield_def GetClassNames_request_def
        class_calls_def enough_def connected_def SUCCEEDED_def WBEM_S_FALSE_def demo_simps)
  have a: "GetClassNames_result enough demo (calls connected) 7 [] =
      ({''Win32_LogicalDisk''}, calls classes_listed)"
    by (simp add: GetClassNames_result_def GetClassNames_yield_def GetClassNames_request_def
        class_calls_def enough_def connected_def classes_listed_def SUCCEEDED_def demo_simps)
  have b: "GetClassNames_result enough demo (calls connected) 7 ''Win32%'' =
      ({''Win32_LogicalDisk''}, calls classes_matched)"
    by (simp add: GetClassNames_result_def GetClassNames_yield_def GetClassNames_request_def
        class_calls_def enough_def connected_def classes_matched_def SUCCEEDED_def demo_simps)
  have c: "connected\<lparr>calls := calls classes_listed\<rparr> = classes_listed"
    "connected\<lparr>calls := calls classes_matched\<rparr> = classes_matched"
    by (simp_all add: classes_listed_def classes_matched_def)
  from GetClassNames_query [where s = connected and svc = 7 and fuel = enough and p = demo
      and flt = "[]" and t = connected and names = "{}" and t' = connected] o r
  have "GetClassNames enough demo [] connected =
        (Return (fst (GetClassNames_result enough demo (calls connected) 7 [])),
         connected\<lparr>calls := snd (GetClassNames_result enough demo (calls connected) 7 [])\<rparr>)"
    by blast
  moreover
  from GetClassNames_query [where s = connected and svc = 7 and fuel = enough and p = demo
      and flt = "''Win32%''" and t = connected and names = "{}" and t' = connected] o r
  have "GetClassNames enough demo ''Win32%'' connected =
        (Return (fst (GetClassNames_result enough demo (calls connected) 7 ''Win32%'')),
         connected\<lparr>calls :=
           snd (GetClassNames_result enough demo (calls connected) 7 ''Win32%'')\<rparr>)"
    by blast
  ultimately show ?thesis
    by (simp only: a b fst_conv snd_conv c)
qed

section \<open>The in-parameter class of \<^verbatim>\<open>Object::ExecMethod\<close>\<close>

lemma never_ret [simp]: "never f (ret x)" by (simp add: never_def ret_def)
lemma never_throw [simp]: "never f (throw x)" by (simp add: never_def throw_def)
lemma never_out_of_fuel [simp]: "never f out_of_fuel" by (simp add: never_def out_of_fuel_def)
lemma never_get_self [simp]: "never f get_self" by (simp add: never_def get_self_def)
lemma never_throw_if [simp]: "never f (throw_if c x)" by (simp add: throw_if_def)
lemma never_com [simp]: "never f (com p ev)" by (simp add: never_def com_def)
lemma never_fault [simp]: "g \<noteq> f \<Longrightarrow> never f (fault g)" by (simp add: never_def fault_def)
lemma never_deref [simp]: "nm \<noteq> nm' \<Longrightarrow> never (NullDeref nm') (deref nm q)"
  by (simp add: deref_def split: option.splits)
lemma never_wstring_of [simp]: "never (NullDeref nm) (wstring_of q)"
  by (simp add: wstring_of_def split: option.splits)

lemma never_bnd:
  assumes "never f m" and "\<And>x. never f (g x)"
  shows "never f (bnd m g)"
  using assms unfolding never_def bnd_def
  by (auto split: prod.splits outcome.splits) (metis fst_conv)+

lemma never_if: "never f a \<Longrightarrow> never f b \<Longrightarrow> never f (if c then a else b)"
  by simp

lemma never_GetValue: "never (NullDeref ''pInParamsClass'') (GetValue p property)"
  unfolding GetValue_def
  by (intro never_bnd never_if never_get_self never_throw_if never_deref never_com never_ret
      never_wstring_of) simp

lemma never_ExecMethod_put: "never (NullDeref ''pInParamsClass'') (ExecMethod_put p q ips)"
  by (induction ips) (auto intro!: never_bnd)

lemma never_ExecMethod_drain: "never (NullDeref ''pInParamsClass'') (ExecMethod_drain fuel p out om)"
  by (induction fuel arbitrary: om) (auto intro!: never_bnd split: option.splits)

lemma never_ExecMethod_out: "never (NullDeref ''pInParamsClass'') (ExecMethod_out fuel p out om)"
  unfolding ExecMethod_out_def
  by (intro never_bnd never_com never_ret never_ExecMethod_drain)

lemma never_ExecMethod_invoke:
  "never (NullDeref ''pInParamsClass'') (ExecMethod_invoke fuel p svc nm ips om inCls)"
  unfolding ExecMethod_invoke_def
  by (intro never_bnd never_com never_ExecMethod_put never_GetValue)
     (auto intro: never_ExecMethod_out split: option.splits)

text \<open>
  Claim C10. Once \<^verbatim>\<open>Object::ExecMethod\<close> has found the class object, what happens next
  depends only on the pointer that \<^verbatim>\<open>GetMethod\<close> leaves in \<^verbatim>\<open>pInParamsClass\<close>, never on
  the HRESULT of \<^verbatim>\<open>GetMethod\<close>: a null pointer is dereferenced by the call of
  \<^verbatim>\<open>SpawnInstance\<close>, right after \<^verbatim>\<open>GetMethod\<close>; with a non-null pointer that
  dereference cannot fail, whatever else the call does.
\<close>

theorem ExecMethod_null_in_signature:
  assumes "m_pObj (self s) = Some obj" and "m_pServices (self s) = Some svc"
      and "GetValue p ''__CLASS'' s = (Return className, s1)"
      and "hr (respond p (calls s1) (IWbemServices_GetObject svc className)) = S_OK"
      and "ptr (respond p (calls s1) (IWbemServices_GetObject svc className)) = Some cls"
  shows "(ptr (respond p (calls s1 @ [IWbemServices_GetObject svc className])
                (IWbemClassObject_GetMethod cls nm)) = None \<longrightarrow>
            ExecMethod fuel p nm ips om s =
              (Fault (NullDeref ''pInParamsClass''),
               s1\<lparr>calls := calls s1 @ [IWbemServices_GetObject svc className,
                                        IWbemClassObject_GetMethod cls nm]\<rparr>)) \<and>
         (ptr (respond p (calls s1 @ [IWbemServices_GetObject svc className])
                (IWbemClassObject_GetMethod cls nm)) \<noteq> None \<longrightarrow>
            fst (ExecMethod fuel p nm ips om s) \<noteq> Fault (NullDeref ''pInParamsClass''))"
  using never_ExecMethod_invoke[of fuel p svc nm ips om]
  by (auto simp add: ExecMethod_after_lookup[OF assms] never_def)


theorem ExecMethod_null_in_signature_witness:
  "hr (respond void_method
         (calls class_read @ [IWbemServices_GetObject 7 ''Win32_LogicalDisk''])
         (IWbemClassObject_GetMethod 2 ''Reset'')) = S_OK \<and>
   ExecMethod enough void_method ''Reset'' [] Map.empty disk =
     (Fault (NullDeref ''pInParamsClass''),
      class_read\<lparr>calls := calls class_read @
         [IWbemServices_GetObject 7 ''Win32_LogicalDisk'',
          IWbemClassObject_GetMethod 2 ''Reset'']\<rparr>) \<and>
   fst (ExecMethod enough demo ''Chkdsk'' chkdsk_params Map.empty disk)
     \<noteq> Fault (NullDeref ''pInParamsClass'')"
proof -
  have o: "m_pObj (self disk) = Some 1" "m_pServices (self disk) = Some 7"
    by (simp_all add: disk_def)
  have g: "GetValue void_method ''__CLASS'' disk = (Return ''Win32_LogicalDisk'', class_read)"
    "GetValue demo ''__CLASS'' disk = (Return ''Win32_LogicalDisk'', class_read)"
    by (simp_all add: GetValue_eq[where obj = 1] void_method_def class_read_def demo_simps
        del: One_nat_def)
  have r: "hr (respond void_method (calls class_read)
             (IWbemServices_GetObject 7 ''Win32_LogicalDisk'')) = S_OK"
    "ptr (respond void_method (calls class_read)
             (IWbemServices_GetObject 7 ''Win32_LogicalDisk'')) = Some 2"
    "hr (respond demo (calls class_read)
             (IWbemServices_GetObject 7 ''Win32_LogicalDisk'')) = S_OK"
    "ptr (respond demo (calls class_read)
             (IWbemServices_GetObject 7 ''Win32_LogicalDisk'')) = Some 2"
    by (simp_all add: void_method_def demo_simps)
  have m: "ptr (respond void_method
         (calls class_read @ [IWbemServices_GetObject 7 ''Win32_LogicalDisk''])
         (IWbemClassObject_GetMethod 2 ''Reset'')) = None"
    "hr (respond void_method
         (calls class_read @ [IWbemServices_GetObject 7 ''Win32_LogicalDisk''])
         (IWbemClassObject_GetMethod 2 ''Reset'')) = S_OK"
    "ptr (respond demo
         (calls class_read @ [IWbemServices_GetObject 7 ''Win32_LogicalDisk''])
         (IWbemClassObject_GetMethod 2 ''Chkdsk'')) \<noteq> None"
    by (simp_all add: void_method_def demo_simps)
  from ExecMethod_null_in_signature [OF o g(1) r(1,2), of "''Reset''" enough "[]" Map.empty]
       ExecMethod_null_in_signature [OF o g(2) r(3,4), of "''Chkdsk''" enough chkdsk_params Map.empty]
       m
  show ?thesis by blast
qed

section \<open>Members and provider calls\<close>

lemma emits_GetNames: "emits (\<lambda>_. True) (GetNames p obj)"
  by (simp add: emits_def GetNames_def Let_def)

lemma emits_SAHandle_dtor: "emits (\<lambda>_. True) (SAHandle_dtor p psa)"
  unfolding SAHandle_dtor_def
  by (cases psa) (auto intro!: emits_bnd emits_com)

lemma emits_with_SAHandle:
  assumes "emits (\<lambda>_. True) body"
  shows "emits (\<lambda>_. True) (with_SAHandle p psa body)"
proof (unfold emits_def, intro allI)
  fix s
  obtain out s1 where b: "body s = (out, s1)" by (cases "body s")
  from emitsD[OF assms b] obtain e1 where
    e1: "calls s1 = calls s @ e1" "self s1 = self s" by auto
  obtain o2 s2 where d: "SAHandle_dtor p psa s1 = (o2, s2)" by (cases "SAHandle_dtor p psa s1")
  from emitsD[OF emits_SAHandle_dtor d] obtain e2 where
    e2: "calls s2 = calls s1 @ e2" "self s2 = self s1" by auto
  have "snd (with_SAHandle p psa body s) = s1 \<or> snd (with_SAHandle p psa body s) = s2"
    using b d by (auto simp add: with_SAHandle_def split: outcome.splits)
  with e1 e2 show "\<exists>evs. calls (snd (with_SAHandle p psa body s)) = calls s @ evs \<and>
      list_all (\<lambda>_. True) evs \<and> self (snd (with_SAHandle p psa body s)) = self s"
    by (auto simp add: list_all_iff)
qed

lemma emits_any: "emits Q m \<Longrightarrow> emits (\<lambda>_. True) m"
  by (erule emits_mono) simp

lemma emits_EnumNames: "emits (\<lambda>_. True) (EnumNames p pClass)"
  unfolding EnumNames_def
  by (intro emits_bnd emits_deref emits_GetNames)
     (auto intro!: emits_bnd emits_with_SAHandle emits_any[OF emits_EnumNames_scope])

lemma emits_GetProperties: "emits (\<lambda>_. True) (GetProperties p)"
  unfolding GetProperties_def
  by (intro emits_bnd emits_deref emits_GetNames emits_get_self)
     (auto intro!: emits_bnd emits_with_SAHandle emits_EnumNames)

lemma emits_GetValue: "emits (\<lambda>_. True) (GetValue p property)"
  unfolding GetValue_def
  by (intro emits_bnd emits_if emits_get_self emits_throw_if emits_deref emits_com emits_ret
      emits_wstring_of) simp_all

lemma emits_GetIValue: "emits (\<lambda>_. True) (GetIValue p property)"
  unfolding GetIValue_def
  by (intro emits_bnd emits_if emits_get_self emits_throw_if emits_deref emits_com emits_ret)
     simp_all

lemma emits_GetMethods_loop: "emits (\<lambda>_. True) (GetMethods_loop fuel p cls acc)"
  by (induction fuel arbitrary: acc)
     (auto intro!: emits_bnd emits_com emits_EnumNames)

lemma emits_GetMethods: "emits (\<lambda>_. True) (GetMethods fuel p)"
  unfolding GetMethods_def
  by (intro emits_bnd emits_if emits_get_self emits_throw_if emits_deref emits_com emits_ret
      emits_GetValue emits_GetMethods_loop) simp_all

lemma emits_ExecMethod_put: "emits (\<lambda>_. True) (ExecMethod_put p q ips)"
  by (induction ips) (auto intro!: emits_bnd emits_com)

lemma emits_ExecMethod_drain: "emits (\<lambda>_. True) (ExecMethod_drain fuel p out om)"
  by (induction fuel arbitrary: om) (auto intro!: emits_bnd emits_com split: option.splits)

lemma emits_ExecMethod_out: "emits (\<lambda>_. True) (ExecMethod_out fuel p out om)"
  unfolding ExecMethod_out_def
  by (intro emits_bnd emits_com emits_ret emits_ExecMethod_drain) simp_all

lemma emits_ExecMethod_invoke:
  "emits (\<lambda>_. True) (ExecMethod_invoke fuel p svc nm ips om inCls)"
  unfolding ExecMethod_invoke_def
  by (intro emits_bnd emits_com emits_ExecMethod_put emits_GetValue)
     (auto intro: emits_ExecMethod_out split: option.splits)

lemma emits_ExecMethod: "emits (\<lambda>_. True) (ExecMethod fuel p nm ips om)"
  unfolding ExecMethod_def
  by (intro emits_bnd emits_get_self emits_throw_if emits_deref emits_com emits_GetValue
      emits_ExecMethod_invoke) simp_all

lemma emits_GetInstances_loop: "emits (\<lambda>_. True) (GetInstances_loop fuel p e svc acc)"
  by (induction fuel arbitrary: acc) (auto intro!: emits_bnd emits_com)

lemma emits_GetInstances: "emits (\<lambda>_. True) (GetInstances fuel p lpClassName)"
  unfolding GetInstances_def
  by (intro emits_bnd emits_get_self emits_throw_if emits_deref emits_com)
     (auto intro: emits_GetInstances_loop split: option.splits)

lemma emits_GetObject: "emits (\<lambda>_. True) (GetObject p lpObjectName)"
  unfolding GetObject_def
  by (intro emits_bnd emits_get_self emits_throw_if emits_deref emits_com emits_ret) simp_all

lemma emits_GetClassNames_loop: "emits (\<lambda>_. True) (GetClassNames_loop fuel p e acc)"
  by (induction fuel arbitrary: acc) (auto intro!: emits_bnd emits_com)

lemma emits_GetClassNames: "emits (\<lambda>_. True) (GetClassNames fuel p flt)"
  unfolding GetClassNames_def
  by (intro emits_bnd emits_get_self emits_throw_if emits_deref emits_com)
     (auto intro: emits_GetClassNames_loop split: option.splits)


lemma emits_from:
  assumes "emits Q m" and "m (s\<lparr>calls := calls s @ [ev]\<rparr>) = (out, s')"
  shows "\<exists>evs. calls s' = calls s @ ev # evs"
  using emitsD[OF assms] by auto

lemma GetProperties_queries:
  assumes "GetProperties p s = (Return ns, s')"
  shows "\<exists>obj evs. m_pObj (self s) = Some obj \<and>
           calls s' = calls s @ IWbemClassObject_GetNames obj GetNames_flags # evs"
proof (cases "m_pObj (self s)")
  case None
  with assms show ?thesis
    by (simp add: GetProperties_def bnd_get_self deref_def fault_def)
next
  case (Some obj)
  from assms have
    "with_SAHandle p (array_of p (calls s) obj) (EnumNames p (Some obj))
       (s\<lparr>calls := calls s @ [IWbemClassObject_GetNames obj GetNames_flags]\<rparr>) = (Return ns, s')"
    by (simp add: GetProperties_eq[OF Some] Let_def split: if_splits)
  from emits_from[OF emits_with_SAHandle[OF emits_EnumNames] this] Some show ?thesis by simp
qed

lemma GetValue_queries:
  assumes "GetValue p property s = (Return w, s')"
  shows "\<exists>obj evs. m_pObj (self s) = Some obj \<and>
           calls s' = calls s @ IWbemClassObject_Get obj property # evs"
proof (cases "m_pObj (self s)")
  case None
  with assms show ?thesis
    by (simp add: GetValue_def bnd_get_self throw_def)
next
  case (Some obj)
  from GetValue_Return[OF Some assms] Some show ?thesis
    by (simp add: GetValue_calls_def)
qed

lemma GetIValue_queries:
  assumes "GetIValue p property s = (Return w, s')"
  shows "\<exists>obj evs. m_pObj (self s) = Some obj \<and>
           calls s' = calls s @ IWbemClassObject_Get obj property # evs"
proof (cases "m_pObj (self s)")
  case None
  with assms show ?thesis
    by (simp add: GetIValue_def bnd_get_self throw_def)
next
  case (Some obj)
  with assms show ?thesis
    by (auto simp add: GetIValue_def bnd_get_self deref_def bnd_com ret_def throw_def
        split: if_splits)
qed

lemma bnd_queries:
  assumes "bnd m f s = (Return y, s')"
      and "\<And>x s1. m s = (Return x, s1) \<Longrightarrow> \<exists>evs. calls s1 = calls s @ ev # evs"
      and "\<And>x. emits Q (f x)"
  shows "\<exists>evs. calls s' = calls s @ ev # evs"
proof -
  from assms(1) obtain x s1 where m: "m s = (Return x, s1)" and f: "f x s1 = (Return y, s')"
    by (rule bnd_ReturnE)
  from assms(2)[OF m] obtain e1 where "calls s1 = calls s @ ev # e1" by blast
  moreover from emitsD[OF assms(3) f] obtain e2 where "calls s' = calls s1 @ e2" by blast
  ultimately show ?thesis by simp
qed

lemma GetMethods_queries:
  assumes "GetMethods fuel p s = (Return ms, s')"
  shows "\<exists>obj evs. m_pObj (self s) = Some obj \<and>
           calls s' = calls s @ IWbemClassObject_Get obj ''__CLASS'' # evs"
proof -
  from assms obtain w s1 where g: "GetValue p ''__CLASS'' s = (Return w, s1)"
    unfolding GetMethods_def by (rule bnd_ReturnE)
  from GetValue_queries[OF g] obtain obj where o: "m_pObj (self s) = Some obj" by blast
  have "\<exists>evs. calls s' = calls s @ IWbemClassObject_Get obj ''__CLASS'' # evs"
  proof (rule bnd_queries[OF assms[unfolded GetMethods_def]])
    fix x s1 assume "GetValue p ''__CLASS'' s = (Return x, s1)"
    from GetValue_queries[OF this] o
    show "\<exists>evs. calls s1 = calls s @ IWbemClassObject_Get obj ''__CLASS'' # evs" by simp
  next
    fix className
    show "emits (\<lambda>_. True)
      (bnd get_self (\<lambda>this.
       bnd (deref ''m_pServices'' (m_pServices this)) (\<lambda>svc.
       bnd (com p (IWbemServices_GetObject svc className)) (\<lambda>r.
       bnd (throw_if (hr r \<noteq> S_OK) (s_error p (hr r))) (\<lambda>_.
       bnd (deref ''pClassDefinition'' (ptr r)) (\<lambda>cls.
       bnd (com p (IWbemClassObject_BeginMethodEnumeration cls)) (\<lambda>b.
         if SUCCEEDED (hr b) then
           bnd (GetMethods_loop fuel p cls []) (\<lambda>res.
           bnd (com p (IWbemClassObject_EndMethodEnumeration cls)) (\<lambda>_.
             ret res))
         else ret [])))))))"
      by (intro emits_bnd emits_if emits_get_self emits_throw_if emits_deref emits_com emits_ret
          emits_GetMethods_loop) simp_all
  qed
  with o show ?thesis by blast
qed

lemma ExecMethod_queries:
  assumes "ExecMethod fuel p nm ips om s = (Return r, s')"
  shows "\<exists>obj evs. m_pObj (self s) = Some obj \<and>
           calls s' = calls s @ IWbemClassObject_Get obj ''__CLASS'' # evs"
proof -
  obtain rv om' where r: "r = (rv, om')" by (cases r)
  from ExecMethod_Return_ready[OF assms[unfolded r]]
  obtain obj svc className cls inCls relPath where
    o: "m_pObj (self s) = Some obj" "m_pServices (self s) = Some svc"
    and rd: "ExecMethod_ready fuel p (calls s) obj svc nm ips className cls inCls relPath"
    by blast
  from ExecMethod_total[OF o rd, of om] assms
  have "calls s' = snd (ExecMethod_result fuel p (calls s) obj svc nm ips om
                           className cls inCls relPath)"
    by auto
  then have "\<exists>evs. calls s' = calls s @ IWbemClassObject_Get obj ''__CLASS'' # evs"
    by (simp add: ExecMethod_result_def ExecMethod_request_def GetValue_calls_def Let_def
        split: option.splits)
  with o show ?thesis by blast
qed

lemma GetInstances_queries:
  assumes "GetInstances fuel p lpClassName t = (Return os, t')"
  shows "\<exists>svc evs. m_pService (self t) = Some svc \<and>
           calls t' = calls t @ IWbemServices_CreateInstanceEnum svc lpClassName # evs"
proof (cases "m_pService (self t)")
  case None
  with assms show ?thesis
    by (simp add: GetInstances_def bnd_get_self throw_def)
next
  case (Some svc)
  let ?r = "respond p (calls t) (IWbemServices_CreateInstanceEnum svc lpClassName)"
  from assms Some have
    "(case ptr ?r of None \<Rightarrow> ret [] | Some pEnum \<Rightarrow> GetInstances_loop fuel p pEnum (Some svc) [])
       (t\<lparr>calls := calls t @ [IWbemServices_CreateInstanceEnum svc lpClassName]\<rparr>)
       = (Return os, t')"
    by (auto simp add: GetInstances_def bnd_get_self deref_def bnd_com throw_def
        split: if_splits option.splits)
  moreover have "emits (\<lambda>_. True)
      (case ptr ?r of None \<Rightarrow> ret [] | Some pEnum \<Rightarrow> GetInstances_loop fuel p pEnum (Some svc) [])"
    by (auto intro: emits_GetInstances_loop split: option.splits)
  ultimately show ?thesis using Some emits_from by blast
qed

lemma GetObject_queries:
  assumes "GetObject p lpObjectName t = (Return ob, t')"
  shows "\<exists>svc. m_pService (self t) = Some svc \<and>
           calls t' = calls t @ [IWbemServices_GetObject svc lpObjectName]"
proof (cases "m_pService (self t)")
  case None
  with assms show ?thesis
    by (simp add: GetObject_def bnd_get_self throw_def)
next
  case (Some svc)
  with assms show ?thesis
    by (auto simp add: GetObject_def bnd_get_self deref_def bnd_com throw_def ret_def
        split: if_splits)
qed

lemma GetClassNames_queries:
  assumes "GetClassNames fuel p flt t = (Return names, t')"
  shows "\<exists>svc evs. m_pService (self t) = Some svc \<and>
           calls t' = calls t @ IWbemServices_ExecQuery svc ''WQL'' (meta_class_query flt) # evs"
proof -
  from GetClassNames_Return_ready[OF assms] obtain svc where
    s: "m_pService (self t) = Some svc" and r: "GetClassNames_ready fuel p (calls t) svc flt"
    by blast
  from GetClassNames_total[OF s r] assms
  have "calls t' = snd (GetClassNames_result fuel p (calls t) svc flt)" by auto
  then have "\<exists>evs. calls t' =
      calls t @ IWbemServices_ExecQuery svc ''WQL'' (meta_class_query flt) # evs"
    by (simp add: GetClassNames_result_def meta_class_query_request split: option.splits)
  with s show ?thesis by blast
qed


lemma GetValue_demo:
  "GetValue demo ''DeviceID'' s0 = (Return ''G:'', s0\<lparr>calls := calls s0 @ [IWbemClassObject_Get 1 ''DeviceID'']\<rparr>)"
  if "m_pObj (self s0) = Some 1" for s0
  using that by (simp add: GetValue_eq[where obj = 1] Let_def respond_demo ok_def disk_property_def bstr_variant_def
        S_OK_def VT_NULL_def VT_BOOL_def VT_BSTR_def VT_LPWSTR_def del: One_nat_def)

lemma GetIValue_demo:
  "GetIValue demo ''Size'' disk =
     (Return 512, disk\<lparr>calls := [IWbemClassObject_Get 1 ''Size'',
         VariantChangeType \<lparr>vt = 3, bits = 512, wstr = None\<rparr> VT_INT]\<rparr>)"
  by (simp add: GetIValue_def eval_simps demo_simps VT_INT_def intVal_def E_POINTER_def)

lemma GetObject_demo:
  "GetObject demo ''Win32_LogicalDisk'' connected =
     (Return \<lparr>m_pObj = Some 2, m_pServices = Some 7\<rparr>,
      connected\<lparr>calls := [IWbemServices_GetObject 7 ''Win32_LogicalDisk'']\<rparr>)"
  by (simp add: GetObject_def eval_simps demo_simps connected_def E_POINTER_def)

lemma GetInstances_demo:
  "GetInstances enough demo ''Win32_LogicalDisk'' connected =
     (Return [\<lparr>m_pObj = Some 1, m_pServices = Some 7\<rparr>, \<lparr>m_pObj = Some 1, m_pServices = Some 7\<rparr>],
      connected\<lparr>calls := [IWbemServices_CreateInstanceEnum 7 ''Win32_LogicalDisk'',
         IEnumWbemClassObject_Next 8, IEnumWbemClassObject_Next 8, IEnumWbemClassObject_Next 8]\<rparr>)"
  by (simp add: GetInstances_def enough_def eval_simps demo_simps connected_def E_POINTER_def)

lemma GetMethods_demo:
  "GetMethods enough demo disk =
     (Return [\<lparr>name = ''Chkdsk'', ipParams = [''DeviceID'', ''VolumeName''],
               opParams = [''DeviceID'', ''VolumeName'']\<rparr>],
      disk\<lparr>calls := [IWbemClassObject_Get 1 ''__CLASS'',
         IWbemServices_GetObject 7 ''Win32_LogicalDisk'',
         IWbemClassObject_BeginMethodEnumeration 2,
         IWbemClassObject_NextMethod 2,
         IWbemClassObject_GetNames 3 GetNames_flags, SafeArrayGetLBound (Some 4),
         SafeArrayGetUBound (Some 4), SafeArrayGetElement (Some 4) 0,
         SafeArrayGetElement (Some 4) 1, SafeArrayDestroy 4,
         IWbemClassObject_GetNames 9 GetNames_flags, SafeArrayGetLBound (Some 10),
         SafeArrayGetUBound (Some 10), SafeArrayGetElement (Some 10) 0,
         SafeArrayGetElement (Some 10) 1, SafeArrayDestroy 10,
         IWbemClassObject_NextMethod 2,
         IWbemClassObject_EndMethodEnumeration 2]\<rparr>)"
  by (simp add: GetMethods_def GetValue_def EnumNames_def EnumNames_scope_def GetNames_def
      with_SAHandle_def SAHandle_dtor_def enough_def eval_simps demo_simps E_POINTER_def
      SUCCEEDED_def FAILED_def WBEM_S_NO_MORE_DATA_def upto_0_1 LONG_MAX_def Let_def)


lemma GetClassNames_demo:
  "GetClassNames enough demo [] connected = (Return {''Win32_LogicalDisk''}, classes_listed)"
  by (simp add: GetClassNames_def GetValue_def meta_class_query_def enough_def eval_simps
      demo_simps connected_def classes_listed_def SUCCEEDED_def)



end
